(* ===== verification/Prelude.thy ===== *)
theory Prelude
  imports Main "HOL-Library.Multiset" "HOL-Library.Sublist" "HOL-Library.Char_ord"
    "HOL-Library.List_Lexorder"
begin

text \<open>
  Shared vocabulary of the notesBuddy model: the JavaScript array built-ins the
  contexts call (\<open>findIndex\<close>, \<open>splice\<close>, \<open>||\<close> on strings), the type names of
  the model (ids and timestamps are JavaScript numbers, modelled as \<open>int\<close>), the
  collections the component proofs draw on, and generic lemmas on lists that every
  component shares.
\<close>

named_theorems js_simps "evaluation rules of the JavaScript built-ins of the model"
named_theorems store_inv "preservation facts of the store invariants"
named_theorems error_frame "an operation that reports an error leaves the state unchanged"

type_synonym millis = int \<comment> \<open>\<open>Date.now()\<close> and \<open>new Date(iso)\<close> values\<close>
type_synonym uid = int \<comment> \<open>user ids, created by \<open>Date.now()\<close>\<close>
type_synonym nid = int \<comment> \<open>note ids, created by \<open>Date.now()\<close>\<close>

section \<open>JavaScript built-ins\<close>

text \<open>\<open>Array.prototype.findIndex\<close>: the index of the first element that satisfies the
  predicate; the result \<open>-1\<close> of JavaScript is \<open>None\<close>.\<close>

fun find_idx :: "('a \<Rightarrow> bool) \<Rightarrow> 'a list \<Rightarrow> nat option" where
  "find_idx P [] = None"
| "find_idx P (x # xs) = (if P x then Some 0 else map_option Suc (find_idx P xs))"

text \<open>\<open>xs.splice(i, 1)\<close> for an index in range: the element at \<open>i\<close> is removed.\<close>

definition splice1 :: "nat \<Rightarrow> 'a list \<Rightarrow> 'a list" where
  "splice1 i xs = take i xs @ drop (Suc i) xs"

text \<open>\<open>a || b\<close> on strings: the empty string is falsy.\<close>

definition js_or :: "string \<Rightarrow> string \<Rightarrow> string" where
  "js_or a b = (if a = [] then b else a)"

section \<open>Generic lemmas\<close>

lemma find_idx_None_iff [simp]: "find_idx P xs = None \<longleftrightarrow> (\<forall>x\<in>set xs. \<not> P x)"
  by (induction xs) auto

lemma find_idx_SomeD:
  "find_idx P xs = Some i \<Longrightarrow> i < length xs \<and> P (xs ! i) \<and> (\<forall>j<i. \<not> P (xs ! j))"
proof (induction xs arbitrary: i)
  case Nil
  then show ?case by simp
next
  case (Cons x xs)
  then show ?case
    by (auto split: if_splits simp: less_Suc_eq_0_disj)
qed

lemma find_idx_Some_iff:
  "find_idx P xs = Some i \<longleftrightarrow> i < length xs \<and> P (xs ! i) \<and> (\<forall>j<i. \<not> P (xs ! j))"
proof
  assume "find_idx P xs = Some i"
  then show "i < length xs \<and> P (xs ! i) \<and> (\<forall>j<i. \<not> P (xs ! j))"
    by (rule find_idx_SomeD)
next
  assume "i < length xs \<and> P (xs ! i) \<and> (\<forall>j<i. \<not> P (xs ! j))"
  then show "find_idx P xs = Some i"
  proof (induction xs arbitrary: i)
    case Nil
    then show ?case by simp
  next
    case (Cons x xs)
    show ?case
    proof (cases i)
      case 0
      with Cons.prems show ?thesis by simp
    next
      case (Suc k)
      from Cons.prems have all: "\<forall>j<i. \<not> P ((x # xs) ! j)" by simp
      then have "\<not> P x" using Suc by auto
      have "\<forall>j<k. \<not> P (xs ! j)"
      proof (intro allI impI)
        fix j assume "j < k"
        then have "Suc j < i" using Suc by simp
        with all show "\<not> P (xs ! j)" by fastforce
      qed
      with Suc Cons.prems have "find_idx P xs = Some k"
        by (intro Cons.IH) simp
      with \<open>\<not> P x\<close> Suc show ?thesis by simp
    qed
  qed
qed

lemma find_idx_Some_nth: "find_idx P xs = Some i \<Longrightarrow> P (xs ! i)"
  and find_idx_Some_less: "find_idx P xs = Some i \<Longrightarrow> i < length xs"
  by (simp_all add: find_idx_SomeD)

lemma find_idx_exists: "\<exists>x\<in>set xs. P x \<Longrightarrow> \<exists>i. find_idx P xs = Some i"
  by (cases "find_idx P xs") auto

lemma find_idx_nth_mem: "find_idx P xs = Some i \<Longrightarrow> xs ! i \<in> set xs"
  by (simp add: find_idx_SomeD)

lemma find_idx_append_absent:
  "\<forall>x\<in>set xs. \<not> P x \<Longrightarrow>
   find_idx P (xs @ ys) = (case find_idx P ys of None \<Rightarrow> None | Some i \<Rightarrow> Some (length xs + i))"
  by (induction xs) (auto split: option.splits dest!: find_idx_SomeD)

lemma length_splice1 [simp]: "i < length xs \<Longrightarrow> length (splice1 i xs) = length xs - 1"
  by (simp add: splice1_def)

lemma mset_splice1:
  "i < length xs \<Longrightarrow> mset (splice1 i xs) = mset xs - {#xs ! i#}"
proof -
  assume i: "i < length xs"
  have "mset xs = mset (take i xs @ drop i xs)" by simp
  also have "drop i xs = xs ! i # drop (Suc i) xs"
    using i by (simp add: Cons_nth_drop_Suc)
  finally show ?thesis by (simp add: splice1_def)
qed

lemma set_splice1_subset: "set (splice1 i xs) \<subseteq> set xs"
  by (auto simp: splice1_def dest: in_set_takeD in_set_dropD)

lemma splice1_append_last [simp]: "splice1 (length xs) (xs @ [x]) = xs"
  by (simp add: splice1_def)

lemma distinct_splice1: "distinct xs \<Longrightarrow> distinct (splice1 i xs)"
proof -
  assume d: "distinct xs"
  have "distinct (take i xs @ drop i xs)" using d by simp
  moreover have "set (drop (Suc i) xs) \<subseteq> set (drop i xs)"
    by (simp add: set_drop_subset_set_drop)
  moreover have "distinct (drop (Suc i) xs)" using d by simp
  ultimately show ?thesis
    unfolding splice1_def distinct_append by blast
qed

lemma map_splice1: "map f (splice1 i xs) = splice1 i (map f xs)"
  by (simp add: splice1_def take_map drop_map)

lemma js_or_nonempty [simp]: "a \<noteq> [] \<Longrightarrow> js_or a b = a"
  and js_or_empty [simp]: "js_or [] b = b"
  by (simp_all add: js_or_def)

text \<open>Updating the element a first-match index points at, when the predicate picks out
  at most one element: the same as mapping the update over the matching elements.\<close>

lemma update_at_find_idx:
  assumes "find_idx P xs = Some i" and "\<forall>j<length xs. P (xs ! j) \<longrightarrow> j = i"
  shows "xs[i := f (xs ! i)] = map (\<lambda>x. if P x then f x else x) xs"
proof (rule nth_equalityI)
  show "length (xs[i := f (xs ! i)]) = length (map (\<lambda>x. if P x then f x else x) xs)"
    by simp
next
  fix j assume "j < length (xs[i := f (xs ! i)])"
  with assms find_idx_SomeD [OF assms(1)]
  show "xs[i := f (xs ! i)] ! j = map (\<lambda>x. if P x then f x else x) xs ! j"
    by (cases "j = i") auto
qed

lemma count_filter_splice1:
  assumes "i < length xs"
  shows "length (filter Q (splice1 i xs)) = length (filter Q xs) - (if Q (xs ! i) then 1 else 0)"
proof -
  have "xs = take i xs @ xs ! i # drop (Suc i) xs"
    using assms by (simp add: id_take_nth_drop)
  then have "length (filter Q xs) =
      length (filter Q (take i xs)) + length (filter Q [xs ! i]) + length (filter Q (drop (Suc i) xs))"
    by (metis append.assoc append_Cons append_Nil filter_append length_append)
  then show ?thesis by (simp add: splice1_def)
qed

lemma splice1_Cons_Suc [simp]: "splice1 (Suc k) (x # xs) = x # splice1 k xs"
  by (simp add: splice1_def)

lemma splice1_Cons_0 [simp]: "splice1 0 (x # xs) = xs"
  by (simp add: splice1_def)

lemma splice1_find_idx: "find_idx P xs = Some k \<Longrightarrow> splice1 k xs = remove1 (xs ! k) xs"
proof (induction xs arbitrary: k)
  case Nil
  then show ?case by simp
next
  case (Cons x xs)
  show ?case
  proof (cases "P x")
    case True
    with Cons.prems show ?thesis by simp
  next
    case False
    with Cons.prems obtain k' where k': "find_idx P xs = Some k'" and k: "k = Suc k'"
      by auto
    from k' have "P (xs ! k')" by (simp add: find_idx_SomeD)
    with False have "x \<noteq> xs ! k'" by auto
    with Cons.IH [OF k'] k show ?thesis by simp
  qed
qed

lemma sum_list_update_nat:
  "k < length xs \<Longrightarrow> sum_list (xs[k := x]) + xs ! k = sum_list xs + (x :: nat)"
  by (induction xs arbitrary: k) (auto split: nat.splits)

lemma find_idx_update_same:
  "P y = P (xs ! k) \<Longrightarrow> find_idx P (xs[k := y]) = find_idx P xs"
proof (induction xs arbitrary: k)
  case Nil
  then show ?case by simp
next
  case (Cons x xs)
  then show ?case by (cases k) auto
qed

lemma set_map_filter: "set (List.map_filter f xs) = {y. \<exists>x\<in>set xs. f x = Some y}"
  by (induction xs) (auto split: option.splits)

lemma find_Some_in: "find P xs = Some x \<Longrightarrow> x \<in> set xs"
  by (induction xs) (auto split: if_splits)

lemma find_append_None: "find P xs = None \<Longrightarrow> find P (xs @ ys) = find P ys"
  by (induction xs) auto

end
