(* ===== verification/Store.thy ===== *)
theory Store
  imports Prelude
begin

text \<open>
  The data of notesBuddy as the two React contexts keep it. Everything persistent lives
  in the browser's \<open>localStorage\<close> under four keys (\<open>notesBuddy_users\<close>,
  \<open>notesBuddy_notes\<close>, \<open>notesBuddy_likes\<close>, \<open>notesBuddy_currentUser\<close>), each a
  JSON value; the model keeps the parsed values in the record \<open>store\<close> (the notes array is the field \<open>allNotes\<close>, the name the code gives it). The React
  state of the two providers (the \<open>user\<close> of \<open>AuthProvider\<close>, the \<open>notes\<close> and
  \<open>pagination\<close> of \<open>NotesProvider\<close>) extends it to the record \<open>app\<close>. The objects
  the code builds (a user, a note, a like) are records with the source's field names;
  \<open>id\<close> is renamed per record because HOL field names are global.
\<close>

section \<open>Stored objects\<close>

text \<open>A registered user (\<open>register\<close>, AuthContext.jsx): the password is stored in
  clear, as the code does.\<close>

record user =
  user_id :: uid
  name :: string
  email :: string
  password :: string
  createdAt :: millis

text \<open>The session user: the user object with its password field deleted
  (\<open>delete userWithoutPassword.password\<close>).\<close>

record cur_user =
  cu_id :: uid
  cu_name :: string
  cu_email :: string
  cu_createdAt :: millis

definition without_password :: "user \<Rightarrow> cur_user" where
  "without_password u =
     \<lparr>cu_id = user_id u, cu_name = name u, cu_email = email u, cu_createdAt = createdAt u\<rparr>"

text \<open>A note as \<open>uploadNote\<close> builds it (NotesContext.jsx). Counters are JavaScript
  numbers that only grow by one or shrink to at least 0; they are \<open>nat\<close>.\<close>

record note_obj =
  note_id :: nid
  title :: string
  description :: string
  schoolName :: string
  disciplineName :: string
  subject :: string
  semester :: string
  filePath :: string
  fileName :: string
  uploadedBy :: uid
  uploaderName :: string
  isPrivate :: bool
  downloads :: nat
  viewCount :: nat
  likeCount :: nat
  uploadedAt :: millis

text \<open>A note as the listing operations return it: the stored note spread into a new
  object with the uploader's display fields, and for \<open>getNoteById\<close> and
  \<open>getLikedNotes\<close> an \<open>isLiked\<close> flag (absent elsewhere: \<open>None\<close>).\<close>

record note_info = note_obj +
  userName :: string
  userEmail :: string
  isLiked :: "bool option"

text \<open>A like joins a user and a note (\<open>likeNote\<close>).\<close>

record like =
  like_id :: int
  userId :: uid
  noteId :: nid
  likedAt :: millis

section \<open>The persistent store and the provider state\<close>

record store =
  users :: "user list"
  allNotes :: "note_obj list"
  likes :: "like list"
  currentUser :: "cur_user option"

text \<open>The \<open>pagination\<close> state of \<open>NotesProvider\<close>.\<close>

record pagination =
  currentPage :: int
  totalPages :: int
  itemsPerPage :: int
  totalItems :: int

record app = store +
  authUser :: "cur_user option"
  shown :: "note_info list"
  pag :: pagination

text \<open>The provider's initial state: the effects of both providers write \<open>[]\<close> to a
  missing key, and a missing key is read as \<open>'[]'\<close> everywhere, so an empty list is
  what every operation sees.\<close>

definition init_pagination :: pagination where
  "init_pagination = \<lparr>currentPage = 1, totalPages = 1, itemsPerPage = 20, totalItems = 0\<rparr>"

definition init_app :: app where
  "init_app = \<lparr>users = [], allNotes = [], likes = [], currentUser = None,
               authUser = None, shown = [], pag = init_pagination\<rparr>"

section \<open>Failures\<close>

text \<open>Every \<open>{ success: false, message }\<close> the contexts return, one constructor per
  message. The \<open>catch\<close> branches that only a thrown exception reaches and that the
  model can reach (a \<open>null\<close> React user dereferenced, \<open>formData.get\<close> called on a
  plain object) have their own constructors.\<close>

datatype err =
    NotAuthenticated
  | NoteNotFound
  | Unauthorized
  | AlreadyLiked
  | NotLiked
  | UploadFailed
  | EmailAlreadyRegistered
  | InvalidCredentials
  | UserNotFound
  | EmailAlreadyInUse
  | CurrentPasswordIncorrect
  | IncorrectPassword
  | UpdateFailed
  | PasswordChangeFailed
  | AccountDeletionFailed

type_synonym 'r result = "(err + 'r) \<times> app"

section \<open>Reading the store\<close>

text \<open>\<open>getUserById\<close>: \<open>users.find(u => u.id === userId)\<close>.\<close>

definition getUserById :: "user list \<Rightarrow> uid \<Rightarrow> user option" where
  "getUserById us i = find (\<lambda>u. user_id u = i) us"

text \<open>The privacy filter shared by \<open>fetchNotes\<close> and \<open>searchNotes\<close>:
  \<open>!note.isPrivate || (currentUser && note.uploadedBy === currentUser.id)\<close>.\<close>

definition visible :: "cur_user option \<Rightarrow> note_obj \<Rightarrow> bool" where
  "visible cu n \<longleftrightarrow>
     \<not> isPrivate n \<or> (case cu of None \<Rightarrow> False | Some c \<Rightarrow> uploadedBy n = cu_id c)"

text \<open>The display fields added to a note by \<open>fetchNotes\<close>, \<open>searchNotes\<close> and
  \<open>getNoteById\<close>: \<open>uploaderName || user?.name || 'Anonymous'\<close> and
  \<open>user?.email || ''\<close>.\<close>

definition display_name :: "user list \<Rightarrow> note_obj \<Rightarrow> string" where
  "display_name us n =
     js_or (uploaderName n)
       (js_or (case getUserById us (uploadedBy n) of None \<Rightarrow> [] | Some u \<Rightarrow> name u) ''Anonymous'')"

definition with_user_info :: "user list \<Rightarrow> note_obj \<Rightarrow> note_info" where
  "with_user_info us n =
     note_obj.extend (n\<lparr>uploaderName := display_name us n\<rparr>)
       (note_info.fields (display_name us n)
          (case getUserById us (uploadedBy n) of None \<Rightarrow> [] | Some u \<Rightarrow> email u) None)"

text \<open>Keeping only the stored fields of a listed note (the reverse of the spread).\<close>

definition stored_note :: "note_info \<Rightarrow> note_obj" where
  "stored_note i = note_obj.truncate i"

section \<open>Basic facts\<close>

lemma visible_public [simp]: "\<not> isPrivate n \<Longrightarrow> visible cu n"
  by (simp add: visible_def)

lemma visible_owner [simp]: "visible (Some c) n \<longleftrightarrow> \<not> isPrivate n \<or> uploadedBy n = cu_id c"
  by (simp add: visible_def)

lemma visible_anonymous [simp]: "visible None n \<longleftrightarrow> \<not> isPrivate n"
  by (simp add: visible_def)

lemma with_user_info_fields [simp]:
  "note_id (with_user_info us n) = note_id n"
  "title (with_user_info us n) = title n"
  "description (with_user_info us n) = description n"
  "schoolName (with_user_info us n) = schoolName n"
  "disciplineName (with_user_info us n) = disciplineName n"
  "subject (with_user_info us n) = subject n"
  "semester (with_user_info us n) = semester n"
  "filePath (with_user_info us n) = filePath n"
  "uploadedBy (with_user_info us n) = uploadedBy n"
  "isPrivate (with_user_info us n) = isPrivate n"
  "downloads (with_user_info us n) = downloads n"
  "viewCount (with_user_info us n) = viewCount n"
  "likeCount (with_user_info us n) = likeCount n"
  "uploadedAt (with_user_info us n) = uploadedAt n"
  "isLiked (with_user_info us n) = None"
  by (simp_all add: with_user_info_def note_obj.defs note_info.defs)

lemma stored_note_with_user_info [simp]:
  "stored_note (with_user_info us n) = n\<lparr>uploaderName := display_name us n\<rparr>"
  by (simp add: stored_note_def with_user_info_def note_obj.defs note_info.defs)

lemma getUserById_Some: "getUserById us i = Some u \<Longrightarrow> u \<in> set us \<and> user_id u = i"
  by (auto simp: getUserById_def find_Some_iff)

end
