(* ===== verification/Pagination.thy ===== *)
theory Pagination
  imports Complex_Main Store
begin

text \<open>
  Pagination in two places: \<open>calculatePagination\<close> of NotesContext.jsx, which cuts
  one page out of a listing with \<open>Array.prototype.slice\<close> and computes the page
  count with \<open>Math.ceil\<close>; and the \<open>Pagination\<close> component
  (components/Pagination.jsx), which renders a window of at most five page buttons
  around the current page, with first/last buttons, ellipses and Previous/Next.
  Page numbers and limits are JavaScript numbers, modelled as \<open>int\<close>; \<open>slice\<close>
  is modelled with its treatment of negative indices, which the code reaches for a page
  below 1.
\<close>

section \<open>JavaScript built-ins\<close>

text \<open>The relative index of \<open>slice\<close>: a negative index counts from the end, and
  both kinds are clamped to \<open>[0, length]\<close>.\<close>

definition js_rel_index :: "int \<Rightarrow> nat \<Rightarrow> nat" where
  "js_rel_index i len = (if i < 0 then nat (max (int len + i) 0) else nat (min i (int len)))"

definition js_slice :: "'a list \<Rightarrow> int \<Rightarrow> int \<Rightarrow> 'a list" where
  "js_slice xs s e =
     (let k = js_rel_index s (length xs); f = js_rel_index e (length xs)
      in take (f - k) (drop k xs))"

text \<open>\<open>Math.ceil(n / l)\<close> for a positive divisor.\<close>

definition ceil_div :: "int \<Rightarrow> int \<Rightarrow> int" where
  "ceil_div n l = - ((- n) div l)"

section \<open>\<open>calculatePagination\<close>\<close>

definition calculatePagination :: "'a list \<Rightarrow> int \<Rightarrow> int \<Rightarrow> 'a list \<times> pagination" where
  "calculatePagination items page limit =
     (let totalItems = int (length items);
          totalPages = ceil_div totalItems limit;
          startIndex = (page - 1) * limit;
          endIndex = startIndex + limit
      in (js_slice items startIndex endIndex,
          \<lparr>currentPage = page, totalPages = totalPages, itemsPerPage = limit,
           totalItems = totalItems\<rparr>))"

section \<open>The \<open>Pagination\<close> component\<close>

definition maxPagesToShow :: int where
  "maxPagesToShow = 5"

text \<open>The window of page numbers (\<open>startPage\<close> to \<open>endPage\<close>), after the
  correction that shifts it left near the last page; \<open>None\<close> when the component
  renders nothing (\<open>totalPages <= 1\<close>).\<close>

definition page_bounds :: "int \<Rightarrow> int \<Rightarrow> (int \<times> int) option" where
  "page_bounds cur totalPgs =
     (if totalPgs \<le> 1 then None
      else
        let startPage = max 1 (cur - maxPagesToShow div 2);
            endPage = min totalPgs (startPage + maxPagesToShow - 1);
            startPage = (if endPage - startPage < maxPagesToShow - 1
                         then max 1 (endPage - maxPagesToShow + 1) else startPage)
        in Some (startPage, endPage))"

text \<open>The loop \<open>for (let i = startPage; i <= endPage; i++) pages.push(i)\<close>, with
  \<open>pages\<close> threaded through. It is not structurally recursive: it counts up to
  \<open>endPage\<close>, and terminates because \<open>endPage + 1 - i\<close> decreases.\<close>

function push_pages :: "int \<Rightarrow> int \<Rightarrow> int list \<Rightarrow> int list" where
  "push_pages i endPage pages =
     (if i \<le> endPage then push_pages (i + 1) endPage (pages @ [i]) else pages)"
  by pat_completeness auto

termination by (relation "measure (\<lambda>(i, endPage, _). nat (endPage + 1 - i))") auto

declare push_pages.simps [simp del]

definition page_window :: "int \<Rightarrow> int \<Rightarrow> int list" where
  "page_window cur totalPgs =
     (case page_bounds cur totalPgs of None \<Rightarrow> [] | Some (s, e) \<Rightarrow> push_pages s e [])"

text \<open>The rendered controls, left to right, as on a wide screen: each carries the page
  its \<open>onClick\<close> passes to \<open>onPageChange\<close> and whether it is disabled.\<close>

datatype control =
    PrevBtn int bool
  | PageBtn int bool \<comment> \<open>the page, and whether it is the current one\<close>
  | Ellipsis
  | NextBtn int bool

definition pagination_controls :: "int \<Rightarrow> int \<Rightarrow> control list" where
  "pagination_controls cur totalPgs =
     (case page_bounds cur totalPgs of
        None \<Rightarrow> []
      | Some (startPage, endPage) \<Rightarrow>
          [PrevBtn (cur - 1) (cur = 1)]
          @ (if startPage > 1 then PageBtn 1 False # (if startPage > 2 then [Ellipsis] else [])
             else [])
          @ map (\<lambda>p. PageBtn p (p = cur)) (push_pages startPage endPage [])
          @ (if endPage < totalPgs
             then (if endPage < totalPgs - 1 then [Ellipsis] else []) @ [PageBtn totalPgs False]
             else [])
          @ [NextBtn (cur + 1) (cur = totalPgs)])"

text \<open>The page an enabled control navigates to.\<close>

fun control_target :: "control \<Rightarrow> int option" where
  "control_target (PrevBtn p d) = (if d then None else Some p)"
| "control_target (PageBtn p _) = Some p"
| "control_target Ellipsis = None"
| "control_target (NextBtn p d) = (if d then None else Some p)"

section \<open>Facts about \<open>slice\<close> and \<open>Math.ceil\<close>\<close>

lemma js_slice_nonneg:
  assumes "0 \<le> s" and "s \<le> e"
  shows "js_slice xs s e = take (nat (e - s)) (drop (nat s) xs)"
proof (cases "nat s \<le> length xs")
  case True
  with assms show ?thesis
    by (auto simp: js_slice_def js_rel_index_def min_def Let_def nat_diff_distrib' take_all)
next
  case False
  with assms show ?thesis
    by (simp add: js_slice_def js_rel_index_def min_def)
qed

lemma js_rel_index_add: "0 \<le> d \<Longrightarrow> js_rel_index (i + d) len \<le> js_rel_index i len + nat d"
  unfolding js_rel_index_def
  by (cases "i < 0"; cases "i + d < 0") (simp_all add: nat_le_iff max_def min_def)

lemma length_js_slice_le: "0 \<le> d \<Longrightarrow> length (js_slice xs s (s + d)) \<le> nat d"
proof -
  assume d: "0 \<le> d"
  have "length (js_slice xs s (s + d)) \<le> js_rel_index (s + d) (length xs) - js_rel_index s (length xs)"
    by (simp add: js_slice_def Let_def)
  also have "\<dots> \<le> nat d" using js_rel_index_add [OF d, of s "length xs"] by simp
  finally show ?thesis .
qed

lemma set_js_slice_subset: "set (js_slice xs a b) \<subseteq> set xs"
  by (auto simp: js_slice_def Let_def dest: in_set_takeD in_set_dropD)

lemma set_calculatePagination: "set (fst (calculatePagination xs page limit)) \<subseteq> set xs"
  by (simp add: calculatePagination_def Let_def set_js_slice_subset)

lemma ceil_div_real:
  assumes "0 < l"
  shows "ceil_div n l = \<lceil>real_of_int n / real_of_int l\<rceil>"
proof -
  have "\<lceil>real_of_int n / real_of_int l\<rceil> = - \<lfloor>real_of_int (- n) / real_of_int l\<rfloor>"
    by (simp add: ceiling_def)
  also have "\<lfloor>real_of_int (- n) / real_of_int l\<rfloor> = (- n) div l"
    by (rule floor_divide_of_int_eq)
  finally show ?thesis by (simp add: ceil_div_def)
qed

lemma ceil_div_bounds:
  assumes "0 < l"
  shows "n \<le> ceil_div n l * l" and "(ceil_div n l - 1) * l < n"
proof -
  define q where "q = (- n) div l"
  define r where "r = (- n) mod l"
  have eq: "- n = q * l + r" unfolding q_def r_def by simp
  have r: "0 \<le> r" "r < l" using assms unfolding r_def by simp_all
  have c: "ceil_div n l = - q" by (simp add: ceil_div_def q_def)
  from eq r show "n \<le> ceil_div n l * l" by (simp add: c)
  have "(ceil_div n l - 1) * l = - (q * l) - l" by (simp add: c algebra_simps)
  with eq r show "(ceil_div n l - 1) * l < n" by linarith
qed

lemma ceil_div_nonneg: "0 < l \<Longrightarrow> 0 \<le> n \<Longrightarrow> 0 \<le> ceil_div n l"
  by (simp add: ceil_div_def div_nonpos_pos_le0)

lemma ceil_div_less_iff:
  assumes "0 < l"
  shows "m * l < n \<longleftrightarrow> m < ceil_div n l"
proof
  assume "m * l < n"
  show "m < ceil_div n l"
  proof (rule ccontr)
    assume "\<not> m < ceil_div n l"
    then have "ceil_div n l * l \<le> m * l" using assms by (simp add: mult_right_mono)
    with ceil_div_bounds(1) [OF assms, of n] \<open>m * l < n\<close> show False by linarith
  qed
next
  assume "m < ceil_div n l"
  then have "m * l \<le> (ceil_div n l - 1) * l" using assms by (simp add: mult_right_mono)
  with ceil_div_bounds(2) [OF assms, of n] show "m * l < n" by linarith
qed

lemma take_concat_pages:
  "concat (map (\<lambda>k. take l (drop (k * l) xs)) [0..<n]) = take (n * l) xs"
proof (induction n)
  case 0
  then show ?case by simp
next
  case (Suc n)
  have "take (n * l + l) xs = take (n * l) xs @ take l (drop (n * l) xs)"
    by (rule take_add)
  moreover have "Suc n * l = n * l + l" by simp
  ultimately have "take (Suc n * l) xs = take (n * l) xs @ take l (drop (n * l) xs)"
    by (simp only:)
  with Suc show ?case by simp
qed

lemma upto_from_1: "[1..int n] = map (\<lambda>k. int k + 1) [0..<n]"
proof (induction n)
  case 0
  then show ?case by simp
next
  case (Suc n)
  have "[1..int (Suc n)] = [1..int n] @ [int n + 1]"
    by (simp add: upto_rec2)
  with Suc show ?case by simp
qed

lemma calculatePagination_simps:
  "snd (calculatePagination xs page limit) =
     \<lparr>currentPage = page, totalPages = ceil_div (int (length xs)) limit, itemsPerPage = limit,
      totalItems = int (length xs)\<rparr>"
  "fst (calculatePagination xs page limit) =
     js_slice xs ((page - 1) * limit) ((page - 1) * limit + limit)"
  by (simp_all add: calculatePagination_def Let_def)

lemma page_bounds_Some:
  assumes "1 < T" and "1 \<le> cur" and "cur \<le> T" and "page_bounds cur T = Some (s, e)"
  shows "1 \<le> s \<and> s \<le> cur \<and> cur \<le> e \<and> e \<le> T \<and> e - s + 1 = min 5 T"
  using assms by (auto simp: page_bounds_def maxPagesToShow_def Let_def split: if_splits)

lemma page_bounds_range:
  "page_bounds cur T = Some (s, e) \<Longrightarrow> 1 \<le> s \<and> e \<le> T"
  by (auto simp: page_bounds_def maxPagesToShow_def Let_def split: if_splits)

lemma page_bounds_exists: "1 < T \<Longrightarrow> \<exists>s e. page_bounds cur T = Some (s, e)"
  by (simp add: page_bounds_def Let_def)

lemma calculatePagination_take_drop:
  assumes "0 < limit" and "1 \<le> page"
  shows "fst (calculatePagination xs page limit) =
           take (nat limit) (drop (nat ((page - 1) * limit)) xs)"
  using assms by (simp add: calculatePagination_simps js_slice_nonneg)

lemma push_pages_upto: "push_pages i e ps = ps @ [i..e]"
proof (induction i e ps rule: push_pages.induct)
  case (1 i e ps)
  show ?case
  proof (cases "i \<le> e")
    case True
    with 1 show ?thesis by (simp add: push_pages.simps [of i] upto.simps [of i])
  next
    case False
    then show ?thesis by (simp add: push_pages.simps [of i] upto.simps [of i])
  qed
qed

section \<open>Properties of \<open>calculatePagination\<close>\<close>

text \<open>C31: for a page number from 1 on and a positive limit, the page is the
  \<open>limit\<close> items that follow the first \<open>(page - 1) * limit\<close> ones.\<close>

theorem calculatePagination_page:
  assumes "0 < limit" and "1 \<le> page"
  shows "fst (calculatePagination xs page limit) =
           take (nat limit) (drop (nat ((page - 1) * limit)) xs)"
  using assms by (simp add: calculatePagination_simps js_slice_nonneg)


theorem calculatePagination_page_witness:
  "fst (calculatePagination [1, 2, 3, 4, 5 :: int] 2 2) = [3, 4]"
proof -
  have "fst (calculatePagination [1, 2, 3, 4, 5 :: int] 2 2) =
          take (nat 2) (drop (nat ((2 - 1) * 2)) [1, 2, 3, 4, 5 :: int])"
    by (rule calculatePagination_page) simp_all
  then show ?thesis by simp
qed

text \<open>C32: the pages \<open>1 .. totalPages\<close>, concatenated in order, give back
  the whole listing: no item is lost or repeated by the pagination.\<close>

theorem calculatePagination_pages_concat:
  assumes "0 < limit"
  shows "concat (map (\<lambda>p. fst (calculatePagination xs p limit))
                  [1..totalPages (snd (calculatePagination xs 1 limit))]) = xs"
proof -
  define T where "T = ceil_div (int (length xs)) limit"
  have T0: "0 \<le> T" using assms by (simp add: T_def ceil_div_nonneg)
  have page: "fst (calculatePagination xs (int k + 1) limit) =
                take (nat limit) (drop (k * nat limit) xs)" for k
    using assms by (simp add: calculatePagination_take_drop nat_mult_distrib)
  have "[1..totalPages (snd (calculatePagination xs 1 limit))] = map (\<lambda>k. int k + 1) [0..<nat T]"
    using T0 upto_from_1 [of "nat T"] by (simp add: T_def calculatePagination_simps)
  then have "concat (map (\<lambda>p. fst (calculatePagination xs p limit))
                  [1..totalPages (snd (calculatePagination xs 1 limit))])
           = concat (map (\<lambda>k. take (nat limit) (drop (k * nat limit) xs)) [0..<nat T])"
    by (simp only: map_map comp_def page)
  also have "\<dots> = take (nat T * nat limit) xs"
    by (rule take_concat_pages)
  also have "\<dots> = xs"
  proof -
    have "int (length xs) \<le> T * limit"
      using ceil_div_bounds(1) [OF assms] by (simp add: T_def)
    then have "length xs \<le> nat T * nat limit"
      using T0 assms by (simp add: nat_mult_distrib [symmetric] le_nat_iff)
    then show ?thesis by simp
  qed
  finally show ?thesis .
qed


theorem calculatePagination_pages_concat_witness:
  "concat (map (\<lambda>p. fst (calculatePagination [1, 2, 3, 4, 5 :: int] p 2))
     [1..totalPages (snd (calculatePagination [1, 2, 3, 4, 5 :: int] 1 2))]) = [1, 2, 3, 4, 5]"
  by (rule calculatePagination_pages_concat) simp

text \<open>for a positive limit, a page from 1 on has items exactly when
  it is at most \<open>totalPages\<close>.\<close>

theorem calculatePagination_nonempty_iff:
  assumes "0 < limit" and "1 \<le> page"
  shows "fst (calculatePagination xs page limit) \<noteq> [] \<longleftrightarrow>
           page \<le> totalPages (snd (calculatePagination xs page limit))"
proof -
  have "fst (calculatePagination xs page limit) \<noteq> [] \<longleftrightarrow>
          nat ((page - 1) * limit) < length xs"
    using assms by (simp add: calculatePagination_take_drop not_le)
  also have "\<dots> \<longleftrightarrow> (page - 1) * limit < int (length xs)"
    using assms by (simp add: nat_less_iff)
  also have "\<dots> \<longleftrightarrow> page - 1 < ceil_div (int (length xs)) limit"
    by (rule ceil_div_less_iff [OF assms(1)])
  also have "\<dots> \<longleftrightarrow> page \<le> ceil_div (int (length xs)) limit"
    by linarith
  also have "ceil_div (int (length xs)) limit = totalPages (snd (calculatePagination xs page limit))"
    by (simp add: calculatePagination_simps)
  finally show ?thesis .
qed


theorem calculatePagination_nonempty_iff_witness:
  "fst (calculatePagination [1, 2, 3 :: int] 2 2) \<noteq> [] \<and>
   fst (calculatePagination [1, 2, 3 :: int] 3 2) = []"
proof -
  have "fst (calculatePagination [1, 2, 3 :: int] 2 2) \<noteq> [] \<longleftrightarrow>
          2 \<le> totalPages (snd (calculatePagination [1, 2, 3 :: int] 2 2))"
    by (rule calculatePagination_nonempty_iff) simp_all
  moreover have "fst (calculatePagination [1, 2, 3 :: int] 3 2) \<noteq> [] \<longleftrightarrow>
          3 \<le> totalPages (snd (calculatePagination [1, 2, 3 :: int] 3 2))"
    by (rule calculatePagination_nonempty_iff) simp_all
  ultimately show ?thesis
    by (simp add: calculatePagination_simps ceil_div_def)
qed

text \<open>C33: a page never holds more than \<open>limit\<close> items, and \<open>totalPages\<close> is
  the least number of pages of \<open>limit\<close> items that holds them all.\<close>

theorem calculatePagination_bounds:
  assumes "0 < limit"
  shows "int (length (fst (calculatePagination xs page limit))) \<le> limit \<and>
         totalItems (snd (calculatePagination xs page limit))
           \<le> totalPages (snd (calculatePagination xs page limit)) * limit \<and>
         (totalPages (snd (calculatePagination xs page limit)) - 1) * limit
           < totalItems (snd (calculatePagination xs page limit))"
proof (intro conjI)
  have "length (js_slice xs s (s + limit)) \<le> nat limit" for s
    using assms by (simp add: length_js_slice_le)
  then have "length (fst (calculatePagination xs page limit)) \<le> nat limit"
    by (simp add: calculatePagination_simps)
  then show "int (length (fst (calculatePagination xs page limit))) \<le> limit"
    using assms by linarith
  show "totalItems (snd (calculatePagination xs page limit))
          \<le> totalPages (snd (calculatePagination xs page limit)) * limit"
    using ceil_div_bounds(1) [OF assms] by (simp add: calculatePagination_simps)
  show "(totalPages (snd (calculatePagination xs page limit)) - 1) * limit
          < totalItems (snd (calculatePagination xs page limit))"
    using ceil_div_bounds(2) [OF assms] by (simp add: calculatePagination_simps)
qed

theorem calculatePagination_bounds_witness:
  "int (length (fst (calculatePagination [1, 2, 3, 4, 5 :: int] 1 2))) \<le> 2 \<and>
   totalItems (snd (calculatePagination [1, 2, 3, 4, 5 :: int] 1 2))
     \<le> totalPages (snd (calculatePagination [1, 2, 3, 4, 5 :: int] 1 2)) * 2 \<and>
   (totalPages (snd (calculatePagination [1, 2, 3, 4, 5 :: int] 1 2)) - 1) * 2
     < totalItems (snd (calculatePagination [1, 2, 3, 4, 5 :: int] 1 2))"
  by (rule calculatePagination_bounds) simp

section \<open>Properties of the \<open>Pagination\<close> component\<close>

text \<open>with more than one page and the current page in range, the
  component shows \<open>min 5 totalPages\<close> consecutive page numbers, all between 1 and
  \<open>totalPages\<close>, and the current page among them.\<close>

theorem page_window_shape:
  assumes "1 < T" and "1 \<le> cur" and "cur \<le> T"
  shows "\<exists>s. page_window cur T = [s..s + min 5 T - 1] \<and>
             1 \<le> s \<and> s \<le> cur \<and> cur \<le> s + min 5 T - 1 \<and> s + min 5 T - 1 \<le> T"
proof -
  obtain s e where se: "page_bounds cur T = Some (s, e)"
    using page_bounds_exists [OF assms(1)] by blast
  with assms have b: "1 \<le> s \<and> s \<le> cur \<and> cur \<le> e \<and> e \<le> T \<and> e - s + 1 = min 5 T"
    by (rule page_bounds_Some)
  then have e: "e = s + min 5 T - 1" by linarith
  from se have "page_window cur T = [s..e]"
    by (simp add: page_window_def push_pages_upto)
  with b e show ?thesis
    by (intro exI [of _ s]) simp
qed


theorem page_window_shape_witness:
  "\<exists>s. page_window 7 9 = [s..s + min 5 9 - 1] \<and>
     1 \<le> s \<and> s \<le> 7 \<and> 7 \<le> s + min 5 9 - 1 \<and> s + min 5 9 - 1 \<le> (9 :: int)"
  by (rule page_window_shape) simp_all

text \<open>C40: the page loop ends: from \<open>i\<close> it runs \<open>endPage - i + 1\<close> rounds
  (none when \<open>i > endPage\<close>), and \<open>pages\<close> ends up extended by exactly the
  numbers \<open>i, i + 1, \<dots>, endPage\<close>.\<close>

theorem push_pages_loop:
  "push_pages i e ps = ps @ [i..e] \<and> length (push_pages i e ps) = length ps + nat (e - i + 1)"
  by (simp add: push_pages_upto)

text \<open>C38: with the current page in range, every enabled control of the
  bar (Previous, a page button, the first/last buttons, Next) navigates to a page
  between 1 and \<open>totalPages\<close>.\<close>

theorem pagination_controls_in_range:
  assumes "1 \<le> cur" and "cur \<le> T"
  shows "\<forall>c\<in>set (pagination_controls cur T). \<forall>p. control_target c = Some p \<longrightarrow> 1 \<le> p \<and> p \<le> T"
proof (cases "page_bounds cur T")
  case None
  then show ?thesis by (simp add: pagination_controls_def push_pages_upto)
next
  case (Some se)
  then obtain s e where se: "page_bounds cur T = Some (s, e)" by (cases se) auto
  then have "1 \<le> s \<and> e \<le> T" by (rule page_bounds_range)
  with assms se show ?thesis
    by (auto simp: pagination_controls_def push_pages_upto page_bounds_def split: if_splits)
qed


theorem pagination_controls_in_range_witness:
  "list_all (\<lambda>c. pred_option (\<lambda>p. 1 \<le> p \<and> p \<le> (8 :: int)) (control_target c))
     (pagination_controls 1 8)"
proof -
  have "\<forall>c\<in>set (pagination_controls 1 8). \<forall>p. control_target c = Some p \<longrightarrow> 1 \<le> p \<and> p \<le> (8 :: int)"
    by (rule pagination_controls_in_range) simp_all
  then show ?thesis
    by (simp add: list_all_iff option.pred_set)
qed

text \<open>C39: when the current page lies past the last page (the listing
  shrank under the user, e.g. after a delete), Next stays enabled and leads further
  past the end.\<close>

theorem pagination_next_past_end:
  assumes "1 < T" and "T < cur"
  shows "NextBtn (cur + 1) False \<in> set (pagination_controls cur T) \<and> T < cur + 1"
proof -
  obtain s e where "page_bounds cur T = Some (s, e)"
    using page_bounds_exists [OF assms(1)] by blast
  with assms show ?thesis by (simp add: pagination_controls_def push_pages_upto)
qed


theorem pagination_next_past_end_witness:
  "NextBtn 4 False \<in> set (pagination_controls 3 2)"
proof -
  have "NextBtn (3 + 1) False \<in> set (pagination_controls 3 2) \<and> (2 :: int) < 3 + 1"
    by (rule pagination_next_past_end) simp_all
  then show ?thesis by simp
qed

end
