(* ===== verification/Search.thy ===== *)
theory Search
  imports Store
begin

text \<open>
  The search and ordering logic of NotesContext.jsx (\<open>searchNotes\<close>,
  \<open>fetchNotes\<close>, \<open>getMyNotes\<close>) and the filter object the SearchBar component
  submits (components/SearchBar.jsx, \<open>handleSubmit\<close>). The JavaScript built-ins it
  relies on are modelled first: \<open>toLowerCase\<close> (on ASCII letters), \<open>includes\<close>,
  \<open>trim\<close>, the relational operators on the values a note field can hold, and
  \<open>Array.prototype.sort\<close> as a stable insertion sort driven by the comparator.
\<close>

section \<open>String built-ins\<close>

definition lower_char :: "char \<Rightarrow> char" where
  "lower_char c =
     (if CHR ''A'' \<le> c \<and> c \<le> CHR ''Z'' then char_of (of_char c + (32 :: nat)) else c)"

text \<open>\<open>String.prototype.toLowerCase\<close>, on the ASCII letters.\<close>

definition js_lower :: "string \<Rightarrow> string" where
  "js_lower s = map lower_char s"

text \<open>\<open>s.includes(t)\<close>: \<open>t\<close> occurs in \<open>s\<close> at some position.\<close>

fun js_includes :: "string \<Rightarrow> string \<Rightarrow> bool" where
  "js_includes [] t = (t = [])"
| "js_includes (c # cs) t = (prefix t (c # cs) \<or> js_includes cs t)"

definition js_space :: "char \<Rightarrow> bool" where
  "js_space c \<longleftrightarrow> c \<in> {CHR '' '', CHR 0x09, CHR 0x0A, CHR 0x0B, CHR 0x0C, CHR 0x0D}"

text \<open>\<open>String.prototype.trim\<close> on ASCII white space.\<close>

definition js_trim :: "string \<Rightarrow> string" where
  "js_trim s = rev (dropWhile js_space (rev (dropWhile js_space s)))"

section \<open>Values of note fields and their comparison\<close>

datatype jsval = JUndef | JNum int | JStr string | JBool bool

text \<open>\<open>a[sortBy]\<close> on a listed note, after the conversion \<open>new Date(aVal)\<close> that
  \<open>searchNotes\<close> applies when \<open>sortBy === 'uploadedAt'\<close> (the stored ISO string
  becomes its millisecond value). A key that is not a field of the object reads
  \<open>undefined\<close>.\<close>

definition sort_value :: "string \<Rightarrow> note_info \<Rightarrow> jsval" where
  "sort_value k n =
     (if k = ''uploadedAt'' then JNum (uploadedAt n)
      else if k = ''id'' then JNum (note_id n)
      else if k = ''downloads'' then JNum (int (downloads n))
      else if k = ''viewCount'' then JNum (int (viewCount n))
      else if k = ''likeCount'' then JNum (int (likeCount n))
      else if k = ''uploadedBy'' then JNum (uploadedBy n)
      else if k = ''title'' then JStr (title n)
      else if k = ''description'' then JStr (description n)
      else if k = ''subject'' then JStr (subject n)
      else if k = ''semester'' then JStr (semester n)
      else if k = ''schoolName'' then JStr (schoolName n)
      else if k = ''disciplineName'' then JStr (disciplineName n)
      else if k = ''fileName'' then JStr (fileName n)
      else if k = ''filePath'' then JStr (filePath n)
      else if k = ''uploaderName'' then JStr (uploaderName n)
      else if k = ''userName'' then JStr (userName n)
      else if k = ''userEmail'' then JStr (userEmail n)
      else if k = ''isPrivate'' then JBool (isPrivate n)
      else JUndef)"

text \<open>JavaScript's \<open><\<close> on two values of one field: numbers numerically, strings by
  code units (the lexicographic order of \<open>List_Lexorder\<close>), booleans as 0 and 1, and
  \<open>false\<close> whenever \<open>undefined\<close> takes part.\<close>

fun js_lt :: "jsval \<Rightarrow> jsval \<Rightarrow> bool" where
  "js_lt (JNum a) (JNum b) = (a < b)"
| "js_lt (JStr a) (JStr b) = (a < b)"
| "js_lt (JBool a) (JBool b) = (\<not> a \<and> b)"
| "js_lt _ _ = False"

text \<open>The comparator of \<open>searchNotes\<close> (\<open>notesWithUserInfo.sort\<close>).\<close>

definition search_cmp :: "string \<Rightarrow> string \<Rightarrow> note_info \<Rightarrow> note_info \<Rightarrow> int" where
  "search_cmp sortBy sortOrder a b =
     (let aVal = sort_value sortBy a; bVal = sort_value sortBy b
      in if sortOrder = ''asc'' then (if js_lt bVal aVal then 1 else -1)
         else (if js_lt aVal bVal then 1 else -1))"

text \<open>The comparator of \<open>fetchNotes\<close> and \<open>getMyNotes\<close>:
  \<open>new Date(b.uploadedAt) - new Date(a.uploadedAt)\<close>.\<close>

definition date_desc_cmp :: "'a note_obj_scheme \<Rightarrow> 'a note_obj_scheme \<Rightarrow> int" where
  "date_desc_cmp a b = uploadedAt b - uploadedAt a"

text \<open>The JavaScript types of the values \<open>sort_value\<close> reads, and the shape of a note
  as \<open>searchNotes\<close> lists it: the fields of the stored object (\<open>uploadNote\<close>'s
  \<open>newNote\<close>) and the two it adds (\<open>userName\<close>, \<open>userEmail\<close>), each with the type the
  comparator sees (\<open>uploadedAt\<close> after \<open>new Date\<close>, a number).\<close>

datatype jsty = TUndef | TNum | TStr | TBool

fun jstype :: "jsval \<Rightarrow> jsty" where
  "jstype JUndef = TUndef"
| "jstype (JNum _) = TNum"
| "jstype (JStr _) = TStr"
| "jstype (JBool _) = TBool"

definition note_schema :: "(string \<times> jsty) list" where
  "note_schema =
     [(''id'', TNum), (''title'', TStr), (''description'', TStr), (''schoolName'', TStr),
      (''disciplineName'', TStr), (''subject'', TStr), (''semester'', TStr), (''filePath'', TStr),
      (''fileName'', TStr), (''uploadedBy'', TNum), (''uploaderName'', TStr), (''isPrivate'', TBool),
      (''downloads'', TNum), (''viewCount'', TNum), (''likeCount'', TNum), (''uploadedAt'', TNum),
      (''userName'', TStr), (''userEmail'', TStr)]"

definition key_type :: "string \<Rightarrow> jsty" where
  "key_type k = (case map_of note_schema k of None \<Rightarrow> TUndef | Some t \<Rightarrow> t)"

section \<open>\<open>Array.prototype.sort\<close>\<close>

text \<open>The engine's sort, for a comparator \<open>cmp\<close>: each element goes before the first
  element it does not compare greater than, and the elements are inserted from the
  last to the first, so equal elements keep their order (the stability ECMAScript 2019
  requires). For a consistent comparator every correct sort gives this result; for an
  inconsistent one the standard leaves the order to the engine, and this model fixes
  one.\<close>

fun js_insert :: "('a \<Rightarrow> 'a \<Rightarrow> int) \<Rightarrow> 'a \<Rightarrow> 'a list \<Rightarrow> 'a list" where
  "js_insert cmp x [] = [x]"
| "js_insert cmp x (y # ys) = (if cmp x y \<le> 0 then x # y # ys else y # js_insert cmp x ys)"

definition js_sort :: "('a \<Rightarrow> 'a \<Rightarrow> int) \<Rightarrow> 'a list \<Rightarrow> 'a list" where
  "js_sort cmp xs = foldr (js_insert cmp) xs []"

section \<open>The search filters\<close>

text \<open>The \<open>filters\<close> object \<open>searchNotes\<close> reads. A key the caller leaves out is
  \<open>undefined\<close>, falsy like \<open>''\<close>; both are the empty string here.\<close>

record search_filters =
  fq :: string
  fsubject :: string
  fsemester :: string
  fschoolName :: string
  fdisciplineName :: string
  fuserName :: string
  fsortBy :: string
  fsortOrder :: string

text \<open>SearchBar's filter state (\<open>useState\<close> and \<open>handleClear\<close>) and the object
  \<open>handleSubmit\<close> passes to \<open>onSearch\<close>: \<open>{ q: query.trim(), ...filters }\<close>.
  The bar has no school or discipline field.\<close>

record bar_filters =
  b_userName :: string
  b_subject :: string
  b_semester :: string
  b_sortBy :: string
  b_sortOrder :: string

definition bar_initial :: bar_filters where
  "bar_initial = \<lparr>b_userName = [], b_subject = [], b_semester = [],
                  b_sortBy = ''uploadedAt'', b_sortOrder = ''DESC''\<rparr>"

definition searchbar_submit :: "string \<Rightarrow> bar_filters \<Rightarrow> search_filters" where
  "searchbar_submit query f =
     \<lparr>fq = js_trim query, fsubject = b_subject f, fsemester = b_semester f,
      fschoolName = [], fdisciplineName = [], fuserName = b_userName f,
      fsortBy = b_sortBy f, fsortOrder = b_sortOrder f\<rparr>"

text \<open>\<open>handleFilterChange\<close>: the input named \<open>name\<close> sets that key of the filters
  (the inputs are named after the keys).\<close>

definition searchbar_filterChange :: "string \<Rightarrow> string \<Rightarrow> bar_filters \<Rightarrow> bar_filters" where
  "searchbar_filterChange nm v f =
     (if nm = ''userName'' then f\<lparr>b_userName := v\<rparr>
      else if nm = ''subject'' then f\<lparr>b_subject := v\<rparr>
      else if nm = ''semester'' then f\<lparr>b_semester := v\<rparr>
      else if nm = ''sortBy'' then f\<lparr>b_sortBy := v\<rparr>
      else if nm = ''sortOrder'' then f\<lparr>b_sortOrder := v\<rparr>
      else f)"

text \<open>\<open>handleClear\<close>: the query and the filters are reset, and \<open>onSearch({ q: '' })\<close>
  passes an object in which every other key is \<open>undefined\<close>.\<close>

definition searchbar_handleClear :: "string \<times> bar_filters \<times> search_filters" where
  "searchbar_handleClear =
     ([], bar_initial, \<lparr>fq = [], fsubject = [], fsemester = [], fschoolName = [], fdisciplineName = [],
                       fuserName = [], fsortBy = [], fsortOrder = []\<rparr>)"

text \<open>One criterion of \<open>searchNotes\<close>: the lower-cased field includes the lower-cased
  filter text.\<close>

definition field_matches :: "string \<Rightarrow> string \<Rightarrow> bool" where
  "field_matches field filt \<longleftrightarrow> js_includes (js_lower field) (js_lower filt)"

definition query_matches :: "string \<Rightarrow> note_obj \<Rightarrow> bool" where
  "query_matches q n \<longleftrightarrow>
     field_matches (title n) q \<or> field_matches (description n) q \<or> field_matches (subject n) q"

definition uploader_matches :: "user list \<Rightarrow> string \<Rightarrow> note_obj \<Rightarrow> bool" where
  "uploader_matches us filt n \<longleftrightarrow>
     (case getUserById us (uploadedBy n) of None \<Rightarrow> False | Some u \<Rightarrow> field_matches (name u) filt)"

text \<open>The chain of \<open>if (filters.x) filteredNotes = filteredNotes.filter(...)\<close> of
  \<open>searchNotes\<close>, in the code's order.\<close>

definition apply_search_filters :: "search_filters \<Rightarrow> user list \<Rightarrow> note_obj list \<Rightarrow> note_obj list" where
  "apply_search_filters f us ns =
     (let ns = (if fq f \<noteq> [] then filter (query_matches (fq f)) ns else ns);
          ns = (if fsubject f \<noteq> [] then filter (\<lambda>n. field_matches (subject n) (fsubject f)) ns else ns);
          ns = (if fsemester f \<noteq> [] then filter (\<lambda>n. field_matches (semester n) (fsemester f)) ns else ns);
          ns = (if fschoolName f \<noteq> [] then filter (\<lambda>n. field_matches (schoolName n) (fschoolName f)) ns else ns);
          ns = (if fdisciplineName f \<noteq> [] then
                  filter (\<lambda>n. field_matches (disciplineName n) (fdisciplineName f)) ns else ns)
      in if fuserName f \<noteq> [] then filter (uploader_matches us (fuserName f)) ns else ns)"

text \<open>The specification of the filter chain: one predicate, a conjunction of the
  criteria whose filter text is non-empty.\<close>

definition note_matches :: "search_filters \<Rightarrow> user list \<Rightarrow> note_obj \<Rightarrow> bool" where
  "note_matches f us n \<longleftrightarrow>
     (fq f = [] \<or> query_matches (fq f) n) \<and>
     (fsubject f = [] \<or> field_matches (subject n) (fsubject f)) \<and>
     (fsemester f = [] \<or> field_matches (semester n) (fsemester f)) \<and>
     (fschoolName f = [] \<or> field_matches (schoolName n) (fschoolName f)) \<and>
     (fdisciplineName f = [] \<or> field_matches (disciplineName n) (fdisciplineName f)) \<and>
     (fuserName f = [] \<or> uploader_matches us (fuserName f) n)"

text \<open>What the search bar promises, stated apart from the code: each filter text
  the caller fills in names the fields it is looked for in, and a note is found
  when, for every filled-in text, one of its fields contains that text, ignoring
  case. The uploader's name is looked up in the user list.\<close>

definition search_criteria :: "search_filters \<Rightarrow> user list \<Rightarrow> note_obj \<Rightarrow> (string \<times> string list) list" where
  "search_criteria f us n =
     [(fq f, [title n, description n, subject n]),
      (fsubject f, [subject n]), (fsemester f, [semester n]),
      (fschoolName f, [schoolName n]), (fdisciplineName f, [disciplineName n]),
      (fuserName f, (case getUserById us (uploadedBy n) of None \<Rightarrow> [] | Some u \<Rightarrow> [name u]))]"

definition search_spec :: "search_filters \<Rightarrow> user list \<Rightarrow> note_obj \<Rightarrow> bool" where
  "search_spec f us n \<longleftrightarrow>
     (\<forall>(t, fields) \<in> set (search_criteria f us n).
        t = [] \<or> (\<exists>x \<in> set fields. sublist (js_lower t) (js_lower x)))"

text \<open>The fields \<open>sort_value\<close> reads as numbers, with the number each holds.\<close>

definition numeric_key :: "string \<Rightarrow> (note_info \<Rightarrow> int) option" where
  "numeric_key k =
     (if k = ''uploadedAt'' then Some uploadedAt
      else if k = ''id'' then Some note_id
      else if k = ''downloads'' then Some (\<lambda>n. int (downloads n))
      else if k = ''viewCount'' then Some (\<lambda>n. int (viewCount n))
      else if k = ''likeCount'' then Some (\<lambda>n. int (likeCount n))
      else if k = ''uploadedBy'' then Some uploadedBy
      else None)"

section \<open>Basic facts\<close>

lemma js_includes_sublist: "js_includes s t \<longleftrightarrow> sublist t s"
  by (induction s) (auto simp: sublist_Cons_right)

lemma js_insert_insort_key:
  assumes "\<forall>x y. cmp x y \<le> 0 \<longleftrightarrow> f x \<le> f y"
  shows "js_insert cmp x xs = insort_key f x xs"
  using assms by (induction xs) auto

lemma js_sort_sort_key:
  assumes "\<forall>x y. cmp x y \<le> 0 \<longleftrightarrow> f x \<le> f y"
  shows "js_sort cmp xs = sort_key f xs"
  using assms by (induction xs) (simp_all add: js_sort_def js_insert_insort_key)

lemma mset_js_insert [simp]: "mset (js_insert cmp x xs) = add_mset x (mset xs)"
  by (induction xs) auto

lemma mset_js_sort [simp]: "mset (js_sort cmp xs) = mset xs"
  by (induction xs) (simp_all add: js_sort_def)

lemma set_js_sort [simp]: "set (js_sort cmp xs) = set xs"
  by (metis mset_js_sort set_mset_mset)

lemma length_js_sort [simp]: "length (js_sort cmp xs) = length xs"
  by (metis mset_js_sort size_mset)

lemma date_desc_cmp_key: "date_desc_cmp x y \<le> 0 \<longleftrightarrow> - uploadedAt x \<le> - uploadedAt y"
  by (simp add: date_desc_cmp_def)

lemma filter_if_cond: "(if c then filter P xs else xs) = filter (\<lambda>x. c \<longrightarrow> P x) xs"
  by simp

lemma apply_search_filters_filter:
  "apply_search_filters f us ns = filter (note_matches f us) ns"
  unfolding apply_search_filters_def Let_def filter_if_cond filter_filter
  by (rule filter_cong) (auto simp: note_matches_def)

lemma numeric_key_sort_value:
  "numeric_key k = Some g \<Longrightarrow> sort_value k n = JNum (g n)"
  by (auto simp: numeric_key_def sort_value_def split: if_splits)

lemma search_cmp_numeric_desc:
  "numeric_key k = Some g \<Longrightarrow> ord \<noteq> ''asc'' \<Longrightarrow>
   search_cmp k ord x y \<le> 0 \<longleftrightarrow> - g x \<le> - g y"
  by (auto simp: search_cmp_def numeric_key_sort_value)

lemma search_cmp_numeric_asc:
  "numeric_key k = Some g \<Longrightarrow> search_cmp k ''asc'' x y \<le> 0 \<longleftrightarrow> g x \<le> g y"
  by (auto simp: search_cmp_def numeric_key_sort_value)

lemma jstype_sort_value: "jstype (sort_value k n) = key_type k"
  by (simp add: sort_value_def key_type_def note_schema_def)

lemma js_lt_total:
  "jstype v = jstype w \<Longrightarrow> jstype v \<noteq> TUndef \<Longrightarrow> js_lt v w \<or> js_lt w v \<or> v = w"
  by (cases v; cases w) auto

lemma js_lt_irrefl: "\<not> js_lt v v"
  by (cases v) auto

lemma js_lt_trans: "js_lt u v \<Longrightarrow> js_lt v w \<Longrightarrow> js_lt u w"
  by (cases u; cases v; cases w) auto

lemma js_lt_undef: "jstype v = TUndef \<Longrightarrow> \<not> js_lt v w"
  by (cases v) auto

lemma js_lt_asym: "js_lt v w \<Longrightarrow> \<not> js_lt w v"
  using js_lt_trans js_lt_irrefl by blast

lemma note_matches_search_spec: "note_matches f us n \<longleftrightarrow> search_spec f us n"
  by (auto simp: note_matches_def search_spec_def search_criteria_def query_matches_def
      uploader_matches_def field_matches_def js_includes_sublist split: option.splits)

section \<open>Properties of the search\<close>

text \<open>Two stored notes for the examples: \<open>demo_a\<close> with 3 downloads, uploaded at
  time 10, and \<open>demo_b\<close> with 5 downloads, uploaded at time 20.\<close>

definition demo_a :: note_obj where
  "demo_a = \<lparr>note_id = 10, title = ''Algebra'', description = [], schoolName = ''S'',
     disciplineName = ''Math'', subject = ''Algebra'', semester = ''1'', filePath = [], fileName = [],
     uploadedBy = 1, uploaderName = ''B'', isPrivate = False, downloads = 3, viewCount = 0,
     likeCount = 0, uploadedAt = 10\<rparr>"

definition demo_b :: note_obj where
  "demo_b = demo_a\<lparr>note_id := 20, title := ''Physics'', downloads := 5, uploadedAt := 20\<rparr>"

text \<open>C36: on a key that is a field of the listed notes, the comparator of
  \<open>searchNotes\<close> reads on every note a value of the field's type, and on two
  notes whose values differ it answers consistently: swapping them flips its sign,
  and the order it puts notes in is transitive. On two notes with the same value it
  answers -1 both ways, placing each before the other: an inconsistent comparator,
  for which ECMAScript leaves the order of ties to the engine.\<close>

theorem search_cmp_field_key:
  assumes "key_type k \<noteq> TUndef"
  shows "jstype (sort_value k a) = key_type k \<and>
         (sort_value k a \<noteq> sort_value k b \<longrightarrow> search_cmp k ord b a = - search_cmp k ord a b) \<and>
         (search_cmp k ord a b = 1 \<longrightarrow> search_cmp k ord b c = 1 \<longrightarrow> search_cmp k ord a c = 1) \<and>
         (sort_value k a = sort_value k b \<longrightarrow> search_cmp k ord a b = -1 \<and> search_cmp k ord b a = -1)"
proof -
  have tot: "sort_value k a \<noteq> sort_value k b \<Longrightarrow>
             js_lt (sort_value k a) (sort_value k b) \<or> js_lt (sort_value k b) (sort_value k a)"
    using js_lt_total [of "sort_value k a" "sort_value k b"] assms by (simp add: jstype_sort_value)
  have "sort_value k a \<noteq> sort_value k b \<longrightarrow> search_cmp k ord b a = - search_cmp k ord a b"
    using tot js_lt_asym by (auto simp: search_cmp_def Let_def)
  moreover have "search_cmp k ord a b = 1 \<longrightarrow> search_cmp k ord b c = 1 \<longrightarrow> search_cmp k ord a c = 1"
  proof (cases "ord = ''asc''")
    case True
    then show ?thesis
      using js_lt_trans [of "sort_value k c" "sort_value k b" "sort_value k a"]
      by (auto simp: search_cmp_def)
  next
    case False
    then show ?thesis
      using js_lt_trans [of "sort_value k a" "sort_value k b" "sort_value k c"]
      by (auto simp: search_cmp_def)
  qed
  ultimately show ?thesis by (simp add: jstype_sort_value search_cmp_def js_lt_irrefl)
qed

text \<open>a criterion holds exactly when the lower-cased filter text is a contiguous
  part of the lower-cased field (case-insensitive substring search).\<close>

theorem field_matches_sublist:
  "field_matches field filt \<longleftrightarrow> sublist (js_lower filt) (js_lower field)"
  by (simp add: field_matches_def js_includes_sublist)

text \<open>Sorting search results by a numeric field (date, downloads, view count,
  like count) in the default order gives a permutation of the results with the field
  never increasing along the list.\<close>

theorem search_sort_numeric_desc:
  assumes "numeric_key k = Some g" and "ord \<noteq> ''asc''"
  shows "mset (js_sort (search_cmp k ord) xs) = mset xs \<and>
         sorted_wrt (\<lambda>a b. g b \<le> g a) (js_sort (search_cmp k ord) xs)"
proof -
  have eq: "js_sort (search_cmp k ord) xs = sort_key (\<lambda>n. - g n) xs"
    using search_cmp_numeric_desc [OF assms] by (intro js_sort_sort_key) simp
  have "sorted (map (\<lambda>n. - g n) (sort_key (\<lambda>n. - g n) xs))"
    by (rule sorted_sort_key)
  then have "sorted_wrt (\<lambda>a b. g b \<le> g a) (sort_key (\<lambda>n. - g n) xs)"
    by (simp add: sorted_map)
  with eq show ?thesis by simp
qed

text \<open>C37: the sort keys the SearchBar offers besides the date and downloads
  (\<open>views\<close>, \<open>likes\<close>, \<open>popularity\<close>) are not fields of a note, so the comparator
  reads \<open>undefined\<close> on both sides and answers -1 whatever the notes: the order
  chosen in the bar has no effect on the result.\<close>

theorem search_cmp_unknown_key:
  assumes "k \<in> {''views'', ''likes'', ''popularity''}"
  shows "search_cmp k ord a b = -1"
proof -
  have "sort_value k n = JUndef" for n
    using assms by (elim insertE emptyE) (simp_all add: sort_value_def)
  then show ?thesis by (simp add: search_cmp_def)
qed

lemma search_cmp_not_asc:
  "ord \<noteq> ''asc'' \<Longrightarrow> ord' \<noteq> ''asc'' \<Longrightarrow> search_cmp k ord = search_cmp k ord'"
  by (simp add: search_cmp_def fun_eq_iff)

theorem search_sort_numeric_desc_witness:
  "mset (js_sort (search_cmp ''downloads'' ''desc'') [with_user_info [] demo_a, with_user_info [] demo_b]) =
     mset [with_user_info [] demo_a, with_user_info [] demo_b] \<and>
   sorted_wrt (\<lambda>a b. int (downloads b) \<le> int (downloads a))
     (js_sort (search_cmp ''downloads'' ''desc'') [with_user_info [] demo_a, with_user_info [] demo_b])"
  by (rule search_sort_numeric_desc) (simp_all add: numeric_key_def)

theorem search_cmp_unknown_key_witness:
  "search_cmp ''likes'' ''asc'' (with_user_info [] demo_a) (with_user_info [] demo_b) = -1 \<and>
   search_cmp ''likes'' ''asc'' (with_user_info [] demo_b) (with_user_info [] demo_a) = -1"
  using search_cmp_unknown_key [of "''likes''"] by simp

theorem search_cmp_field_key_witness:
  "search_cmp ''title'' ''desc'' (with_user_info [] demo_b) (with_user_info [] demo_a) =
     - search_cmp ''title'' ''desc'' (with_user_info [] demo_a) (with_user_info [] demo_b) \<and>
   search_cmp ''title'' ''desc'' (with_user_info [] demo_a) (with_user_info [] demo_a) = -1"
proof -
  have t: "key_type ''title'' \<noteq> TUndef"
    by (simp add: key_type_def note_schema_def)
  have d: "sort_value ''title'' (with_user_info [] demo_a) \<noteq> sort_value ''title'' (with_user_info [] demo_b)"
    by (simp add: sort_value_def demo_a_def demo_b_def with_user_info_def note_obj.defs note_info.defs)
  from search_cmp_field_key [OF t, of "with_user_info [] demo_a" "with_user_info [] demo_b" "''desc''"
         "with_user_info [] demo_b"]
       search_cmp_field_key [OF t, of "with_user_info [] demo_a" "with_user_info [] demo_a" "''desc''"
         "with_user_info [] demo_a"] d
  show ?thesis by simp
qed

end
