(* ===== verification/Notes.thy ===== *)
theory Notes
  imports Pagination Search
begin

text \<open>
  The operations of \<open>NotesProvider\<close> (src/context/NotesContext.jsx), one definition
  each, in the order of the source. Each takes the application state \<open>app\<close> (the
  localStorage contents and the provider's React state) and returns the operation's
  result, \<open>Inl\<close> of the error message on a \<open>{ success: false }\<close> return and
  \<open>Inr\<close> of the data on success, with the state after the operation. Reads of
  \<open>localStorage\<close> are reads of the record's fields; \<open>setItem\<close> is a field
  update; \<open>setNotes\<close> and \<open>setPagination\<close> update \<open>shown\<close> and \<open>pag\<close>.
  \<open>Date.now()\<close> and \<open>new Date()\<close> are clock readings passed as parameters. The
  \<open>id\<close> arguments are the numbers \<open>parseInt(id)\<close> yields. The try/catch blocks
  guard against exceptions of JSON parsing and storage that the model does not have,
  so no operation here reaches its catch branch.
\<close>

section \<open>Listing\<close>

text \<open>\<open>fetchNotes(page, limit)\<close>: the notes the current user may see, with the
  uploader's display fields, newest first, cut to one page.\<close>

definition fetchNotes :: "int \<Rightarrow> int \<Rightarrow> app \<Rightarrow> note_info list result" where
  "fetchNotes page limit s =
     (let currentUser = currentUser s;
          visibleNotes = filter (visible currentUser) (allNotes s);
          notesWithUserInfo = map (with_user_info (users s)) visibleNotes;
          sorted = js_sort date_desc_cmp notesWithUserInfo;
          (pageNotes, p) = calculatePagination sorted page limit
      in (Inr pageNotes, s\<lparr>shown := pageNotes, pag := p\<rparr>))"

text \<open>\<open>searchNotes(filters, page, limit)\<close>.\<close>

definition searchNotes :: "search_filters \<Rightarrow> int \<Rightarrow> int \<Rightarrow> app \<Rightarrow> note_info list result" where
  "searchNotes f page limit s =
     (let currentUser = currentUser s;
          filteredNotes = apply_search_filters f (users s)
                            (filter (visible currentUser) (allNotes s));
          notesWithUserInfo = map (with_user_info (users s)) filteredNotes;
          sortBy = js_or (fsortBy f) ''uploadedAt'';
          sortOrder = js_or (fsortOrder f) ''desc'';
          sorted = js_sort (search_cmp sortBy sortOrder) notesWithUserInfo;
          (pageNotes, p) = calculatePagination sorted page limit
      in (Inr pageNotes, s\<lparr>shown := pageNotes, pag := p\<rparr>))"

section \<open>Upload\<close>

text \<open>The \<open>FormData\<close> the Upload page sends. Every value of a \<open>FormData\<close> is a
  string (\<open>isPrivate\<close> included); the file is its name and the data URL
  \<open>FileReader.readAsDataURL\<close> produces for it.\<close>

record upload_form =
  form_title :: string
  form_description :: string
  form_schoolName :: string
  form_disciplineName :: string
  form_subject :: string
  form_semester :: string
  form_isPrivate :: string
  form_file :: "(string \<times> string) option"

definition uploadNote :: "millis \<Rightarrow> millis \<Rightarrow> upload_form \<Rightarrow> app \<Rightarrow> note_obj result" where
  "uploadNote now isoNow fd s =
     (case currentUser s of
        None \<Rightarrow> (Inl NotAuthenticated, s)
      | Some cu \<Rightarrow>
          let (fileBase64, fName) =
                (case form_file fd of None \<Rightarrow> ([], []) | Some (nm, dataUrl) \<Rightarrow> (dataUrl, nm));
              newNote =
                \<lparr>note_id = now, title = form_title fd,
                 description = js_or (form_description fd) [],
                 schoolName = form_schoolName fd, disciplineName = form_disciplineName fd,
                 subject = form_subject fd, semester = form_semester fd,
                 filePath = fileBase64, fileName = fName,
                 uploadedBy = cu_id cu, uploaderName = cu_name cu,
                 isPrivate = (form_isPrivate fd = ''true''),
                 downloads = 0, viewCount = 0, likeCount = 0, uploadedAt = isoNow\<rparr>
          in (Inr newNote, s\<lparr>allNotes := allNotes s @ [newNote]\<rparr>))"

section \<open>Single notes\<close>

text \<open>\<open>likes.some(like => like.userId === u && like.noteId === n)\<close>, shared by
  \<open>getNoteById\<close>, \<open>likeNote\<close> and \<open>unlikeNote\<close>.\<close>

definition is_like_of :: "uid \<Rightarrow> nid \<Rightarrow> like \<Rightarrow> bool" where
  "is_like_of u i l \<longleftrightarrow> userId l = u \<and> noteId l = i"

text \<open>\<open>getNoteById(id)\<close>: the note, if the user may see it, with its view count
  incremented in the store.\<close>

definition getNoteById :: "nid \<Rightarrow> app \<Rightarrow> note_info result" where
  "getNoteById i s =
     (case find_idx (\<lambda>n. note_id n = i) (allNotes s) of
        None \<Rightarrow> (Inl NoteNotFound, s)
      | Some noteIndex \<Rightarrow>
          let note = allNotes s ! noteIndex; currentUser = currentUser s
          in if isPrivate note \<and>
                (case currentUser of None \<Rightarrow> True | Some cu \<Rightarrow> uploadedBy note \<noteq> cu_id cu)
             then (Inl Unauthorized, s)
             else
               let note = note\<lparr>viewCount := viewCount note + 1\<rparr>;
                   noteWithUserInfo = with_user_info (users s) note;
                   liked = (case currentUser of None \<Rightarrow> None
                            | Some cu \<Rightarrow> Some (list_ex (is_like_of (cu_id cu) (note_id note)) (likes s)))
               in (Inr (noteWithUserInfo\<lparr>isLiked := liked\<rparr>),
                   s\<lparr>allNotes := (allNotes s)[noteIndex := note]\<rparr>))"

text \<open>\<open>downloadNote(id, title)\<close>: on success the download count is incremented
  and the browser is handed the stored data URL under the name \<open>title.pdf\<close>; the
  model returns that pair.\<close>

definition downloadNote :: "nid \<Rightarrow> string \<Rightarrow> app \<Rightarrow> (string \<times> string) result" where
  "downloadNote i ttl s =
     (case currentUser s of
        None \<Rightarrow> (Inl NotAuthenticated, s)
      | Some cu \<Rightarrow>
          (case find_idx (\<lambda>n. note_id n = i) (allNotes s) of
             None \<Rightarrow> (Inl NoteNotFound, s)
           | Some noteIndex \<Rightarrow>
               let note = allNotes s ! noteIndex
               in if isPrivate note \<and> uploadedBy note \<noteq> cu_id cu then (Inl Unauthorized, s)
                  else (Inr (filePath note, ttl @ ''.pdf''),
                        s\<lparr>allNotes := (allNotes s)[noteIndex := note\<lparr>downloads := downloads note + 1\<rparr>]\<rparr>)))"

text \<open>\<open>deleteNote(id)\<close>: the owner removes the note and every like of it; the
  provider's listing drops it too.\<close>

definition deleteNote :: "nid \<Rightarrow> app \<Rightarrow> unit result" where
  "deleteNote i s =
     (case currentUser s of
        None \<Rightarrow> (Inl NotAuthenticated, s)
      | Some cu \<Rightarrow>
          (case find_idx (\<lambda>n. note_id n = i) (allNotes s) of
             None \<Rightarrow> (Inl NoteNotFound, s)
           | Some noteIndex \<Rightarrow>
               if uploadedBy (allNotes s ! noteIndex) \<noteq> cu_id cu then (Inl Unauthorized, s)
               else (Inr (),
                     s\<lparr>allNotes := splice1 noteIndex (allNotes s),
                       likes := filter (\<lambda>l. noteId l \<noteq> i) (likes s),
                       shown := filter (\<lambda>n. note_id n \<noteq> i) (shown s)\<rparr>)))"

text \<open>\<open>getMyNotes(page, limit)\<close>: the current user's notes, private ones included.\<close>

definition getMyNotes :: "int \<Rightarrow> int \<Rightarrow> app \<Rightarrow> note_info list result" where
  "getMyNotes page limit s =
     (case currentUser s of
        None \<Rightarrow> (Inl NotAuthenticated, s)
      | Some cu \<Rightarrow>
          let myNotes = filter (\<lambda>n. uploadedBy n = cu_id cu) (allNotes s);
              notesWithUserInfo =
                map (\<lambda>n. note_obj.extend n (note_info.fields (cu_name cu) (cu_email cu) None)) myNotes;
              sorted = js_sort date_desc_cmp notesWithUserInfo;
              (pageNotes, p) = calculatePagination sorted page limit
          in (Inr pageNotes, s\<lparr>shown := pageNotes, pag := p\<rparr>))"

section \<open>Likes\<close>

definition likeNote :: "millis \<Rightarrow> millis \<Rightarrow> nid \<Rightarrow> app \<Rightarrow> unit result" where
  "likeNote now isoNow i s =
     (case currentUser s of
        None \<Rightarrow> (Inl NotAuthenticated, s)
      | Some cu \<Rightarrow>
          if list_ex (is_like_of (cu_id cu) i) (likes s) then (Inl AlreadyLiked, s)
          else
            let likes' = likes s @ [\<lparr>like_id = now, userId = cu_id cu, noteId = i, likedAt = isoNow\<rparr>];
                notes' = (case find_idx (\<lambda>n. note_id n = i) (allNotes s) of
                            None \<Rightarrow> allNotes s
                          | Some noteIndex \<Rightarrow>
                              (allNotes s)[noteIndex :=
                                 (allNotes s ! noteIndex)\<lparr>likeCount := likeCount (allNotes s ! noteIndex) + 1\<rparr>])
            in (Inr (), s\<lparr>likes := likes', allNotes := notes'\<rparr>))"

text \<open>\<open>unlikeNote(id)\<close>; \<open>Math.max(count - 1, 0)\<close> is subtraction on \<open>nat\<close>.\<close>

definition unlikeNote :: "nid \<Rightarrow> app \<Rightarrow> unit result" where
  "unlikeNote i s =
     (case currentUser s of
        None \<Rightarrow> (Inl NotAuthenticated, s)
      | Some cu \<Rightarrow>
          (case find_idx (is_like_of (cu_id cu) i) (likes s) of
             None \<Rightarrow> (Inl NotLiked, s)
           | Some likeIndex \<Rightarrow>
               let likes' = splice1 likeIndex (likes s);
                   notes' = (case find_idx (\<lambda>n. note_id n = i) (allNotes s) of
                               None \<Rightarrow> allNotes s
                             | Some noteIndex \<Rightarrow>
                                 (allNotes s)[noteIndex :=
                                    (allNotes s ! noteIndex)\<lparr>likeCount := likeCount (allNotes s ! noteIndex) - 1\<rparr>])
               in (Inr (), s\<lparr>likes := likes', allNotes := notes'\<rparr>)))"

text \<open>\<open>getLikedNotes()\<close>: the notes the user liked, most recently liked first.\<close>

definition liked_info :: "user list \<Rightarrow> note_obj \<Rightarrow> note_info" where
  "liked_info us n =
     note_obj.extend n
       (note_info.fields
          (js_or (case getUserById us (uploadedBy n) of None \<Rightarrow> [] | Some u \<Rightarrow> name u) ''Unknown User'')
          (case getUserById us (uploadedBy n) of None \<Rightarrow> [] | Some u \<Rightarrow> email u)
          (Some True))"

definition getLikedNotes :: "app \<Rightarrow> note_info list result" where
  "getLikedNotes s =
     (case currentUser s of
        None \<Rightarrow> (Inl NotAuthenticated, s)
      | Some cu \<Rightarrow>
          let myLikes = filter (\<lambda>l. userId l = cu_id cu) (likes s);
              likedNoteIds = map noteId myLikes;
              likedNotes = filter (\<lambda>n. note_id n \<in> set likedNoteIds) (allNotes s);
              notesWithUserInfo = map (liked_info (users s)) likedNotes;
              sortedLikes = js_sort (\<lambda>a b. likedAt b - likedAt a) myLikes;
              sortedNotes = List.map_filter
                              (\<lambda>l. find (\<lambda>n. note_id n = noteId l) notesWithUserInfo) sortedLikes
          in (Inr sortedNotes, s\<lparr>shown := sortedNotes\<rparr>))"

section \<open>Owner operations\<close>

definition toggleNotePrivacy :: "nid \<Rightarrow> app \<Rightarrow> bool result" where
  "toggleNotePrivacy i s =
     (case currentUser s of
        None \<Rightarrow> (Inl NotAuthenticated, s)
      | Some cu \<Rightarrow>
          (case find_idx (\<lambda>n. note_id n = i) (allNotes s) of
             None \<Rightarrow> (Inl NoteNotFound, s)
           | Some noteIndex \<Rightarrow>
               if uploadedBy (allNotes s ! noteIndex) \<noteq> cu_id cu then (Inl Unauthorized, s)
               else
                 let note = allNotes s ! noteIndex;
                     note = note\<lparr>isPrivate := \<not> isPrivate note\<rparr>
                 in (Inr (isPrivate note), s\<lparr>allNotes := (allNotes s)[noteIndex := note]\<rparr>)))"

text \<open>The \<open>updates\<close> object of \<open>updateNote\<close>: any subset of a note's keys.\<close>

record note_patch =
  upd_id :: "nid option"
  upd_title :: "string option"
  upd_description :: "string option"
  upd_schoolName :: "string option"
  upd_disciplineName :: "string option"
  upd_subject :: "string option"
  upd_semester :: "string option"
  upd_filePath :: "string option"
  upd_fileName :: "string option"
  upd_uploadedBy :: "uid option"
  upd_uploaderName :: "string option"
  upd_isPrivate :: "bool option"
  upd_downloads :: "nat option"
  upd_viewCount :: "nat option"
  upd_likeCount :: "nat option"
  upd_uploadedAt :: "millis option"

text \<open>\<open>{ ...note, ...updates }\<close>: a key present in \<open>updates\<close> wins.\<close>

definition spread_patch :: "note_obj \<Rightarrow> note_patch \<Rightarrow> note_obj" where
  "spread_patch n u =
     \<lparr>note_id = case_option (note_id n) id (upd_id u),
      title = case_option (title n) id (upd_title u),
      description = case_option (description n) id (upd_description u),
      schoolName = case_option (schoolName n) id (upd_schoolName u),
      disciplineName = case_option (disciplineName n) id (upd_disciplineName u),
      subject = case_option (subject n) id (upd_subject u),
      semester = case_option (semester n) id (upd_semester u),
      filePath = case_option (filePath n) id (upd_filePath u),
      fileName = case_option (fileName n) id (upd_fileName u),
      uploadedBy = case_option (uploadedBy n) id (upd_uploadedBy u),
      uploaderName = case_option (uploaderName n) id (upd_uploaderName u),
      isPrivate = case_option (isPrivate n) id (upd_isPrivate u),
      downloads = case_option (downloads n) id (upd_downloads u),
      viewCount = case_option (viewCount n) id (upd_viewCount u),
      likeCount = case_option (likeCount n) id (upd_likeCount u),
      uploadedAt = case_option (uploadedAt n) id (upd_uploadedAt u)\<rparr>"

definition updateNote :: "nid \<Rightarrow> note_patch \<Rightarrow> app \<Rightarrow> unit result" where
  "updateNote i updates s =
     (case currentUser s of
        None \<Rightarrow> (Inl NotAuthenticated, s)
      | Some cu \<Rightarrow>
          (case find_idx (\<lambda>n. note_id n = i) (allNotes s) of
             None \<Rightarrow> (Inl NoteNotFound, s)
           | Some noteIndex \<Rightarrow>
               if uploadedBy (allNotes s ! noteIndex) \<noteq> cu_id cu then (Inl Unauthorized, s)
               else
                 let old = allNotes s ! noteIndex;
                     new = (spread_patch old updates)\<lparr>note_id := note_id old,
                              uploadedBy := uploadedBy old, uploadedAt := uploadedAt old\<rparr>
                 in (Inr (), s\<lparr>allNotes := (allNotes s)[noteIndex := new]\<rparr>)))"

section \<open>Results of the listing operations\<close>

lemma fetchNotes_result:
  "fst (fetchNotes page limit s) =
     Inr (fst (calculatePagination
           (js_sort date_desc_cmp (map (with_user_info (users s))
              (filter (visible (currentUser s)) (allNotes s)))) page limit))"
  by (simp add: fetchNotes_def Let_def split: prod.split)

lemma searchNotes_result:
  "fst (searchNotes f page limit s) =
     Inr (fst (calculatePagination
           (js_sort (search_cmp (js_or (fsortBy f) ''uploadedAt'') (js_or (fsortOrder f) ''desc''))
              (map (with_user_info (users s))
                 (apply_search_filters f (users s) (filter (visible (currentUser s)) (allNotes s)))))
           page limit))"
  by (simp add: searchNotes_def Let_def split: prod.split)

lemma listed_from_visible:
  assumes "n \<in> set (fst (calculatePagination (js_sort cmp (map (with_user_info us) ns)) page limit))"
  shows "\<exists>m\<in>set ns. n = with_user_info us m"
  using set_calculatePagination assms by fastforce

text \<open>Who may see a note: anyone when it is public, its uploader when it is private.\<close>

definition may_view :: "cur_user option \<Rightarrow> 'a note_obj_scheme \<Rightarrow> bool" where
  "may_view cu n \<longleftrightarrow> \<not> isPrivate n \<or> (\<exists>c. cu = Some c \<and> uploadedBy n = cu_id c)"

lemma may_view_with_user_info [simp]: "may_view cu (with_user_info us n) \<longleftrightarrow> visible cu n"
  by (cases cu) (auto simp: may_view_def visible_def)

section \<open>Privacy of the listings\<close>

text \<open>C6: every note \<open>fetchNotes\<close> lists is public or uploaded by the current
  user.\<close>

theorem fetchNotes_private_safe:
  assumes "fst (fetchNotes page limit s) = Inr ns" and "n \<in> set ns"
  shows "may_view (currentUser s) n"
proof -
  from assms obtain m where "m \<in> set (filter (visible (currentUser s)) (allNotes s))"
      and "n = with_user_info (users s) m"
    using listed_from_visible by (fastforce simp: fetchNotes_result)
  then show ?thesis by simp
qed

text \<open>C7: the same holds for every note \<open>searchNotes\<close> lists, whatever the
  filters.\<close>

theorem searchNotes_private_safe:
  assumes "fst (searchNotes f page limit s) = Inr ns" and "n \<in> set ns"
  shows "may_view (currentUser s) n"
proof -
  from assms obtain m where
      "m \<in> set (apply_search_filters f (users s) (filter (visible (currentUser s)) (allNotes s)))"
      and "n = with_user_info (users s) m"
    using listed_from_visible by (fastforce simp: searchNotes_result)
  then show ?thesis by (simp add: apply_search_filters_filter)
qed




section \<open>Single-note operations\<close>

lemma getNoteById_Inr:
  assumes "fst (getNoteById i s) = Inr r"
  obtains k where "find_idx (\<lambda>n. note_id n = i) (allNotes s) = Some k"
    and "visible (currentUser s) (allNotes s ! k)"
    and "allNotes (snd (getNoteById i s)) =
           (allNotes s)[k := (allNotes s ! k)\<lparr>viewCount := viewCount (allNotes s ! k) + 1\<rparr>]"
    and "r = (with_user_info (users s) ((allNotes s ! k)\<lparr>viewCount := viewCount (allNotes s ! k) + 1\<rparr>))
               \<lparr>isLiked := (case currentUser s of None \<Rightarrow> None
                  | Some cu \<Rightarrow> Some (list_ex (is_like_of (cu_id cu) (note_id (allNotes s ! k))) (likes s)))\<rparr>"
  using assms
  by (cases "find_idx (\<lambda>n. note_id n = i) (allNotes s)")
     (auto simp: getNoteById_def Let_def visible_def split: if_splits option.splits)

text \<open>C8: \<open>getNoteById\<close> returns a note only to a user who may see it: a private
  note only to its uploader.\<close>

theorem getNoteById_private_safe:
  assumes "fst (getNoteById i s) = Inr r"
  shows "may_view (currentUser s) r \<and> note_id r = i"
proof -
  obtain k where k: "find_idx (\<lambda>n. note_id n = i) (allNotes s) = Some k"
    and v: "visible (currentUser s) (allNotes s ! k)"
    and r: "r = (with_user_info (users s) ((allNotes s ! k)\<lparr>viewCount := viewCount (allNotes s ! k) + 1\<rparr>))
               \<lparr>isLiked := (case currentUser s of None \<Rightarrow> None
                  | Some cu \<Rightarrow> Some (list_ex (is_like_of (cu_id cu) (note_id (allNotes s ! k))) (likes s)))\<rparr>"
    using getNoteById_Inr [OF assms] by blast
  from find_idx_Some_nth [OF k] have "note_id (allNotes s ! k) = i" by simp
  with v r show ?thesis by (simp add: may_view_def visible_def split: option.splits)
qed

text \<open>a successful \<open>getNoteById\<close> raises the total view count of the stored
  notes by exactly one.\<close>

theorem getNoteById_counts_view:
  assumes "fst (getNoteById i s) = Inr r"
  shows "sum_list (map viewCount (allNotes (snd (getNoteById i s)))) =
           sum_list (map viewCount (allNotes s)) + 1"
proof -
  obtain k where k: "find_idx (\<lambda>n. note_id n = i) (allNotes s) = Some k"
    and eq: "allNotes (snd (getNoteById i s)) =
           (allNotes s)[k := (allNotes s ! k)\<lparr>viewCount := viewCount (allNotes s ! k) + 1\<rparr>]"
    using getNoteById_Inr [OF assms] by blast
  from k have "k < length (allNotes s)" by (rule find_idx_Some_less)
  then show ?thesis
    using sum_list_update_nat [of k "map viewCount (allNotes s)" "viewCount (allNotes s ! k) + 1"]
    by (simp add: eq map_update)
qed

text \<open>C9: \<open>downloadNote\<close> hands out a file only to a logged-in user, only the
  stored file of the note asked for, and only if that user may see the note.\<close>

theorem downloadNote_authorized:
  assumes "fst (downloadNote i ttl s) = Inr (fp, nm)"
  shows "\<exists>c n. currentUser s = Some c \<and> n \<in> set (allNotes s) \<and> note_id n = i \<and>
               fp = filePath n \<and> nm = ttl @ ''.pdf'' \<and> may_view (Some c) n"
proof -
  obtain c k where c: "currentUser s = Some c"
    and k: "find_idx (\<lambda>n. note_id n = i) (allNotes s) = Some k"
    using assms by (auto simp: downloadNote_def split: option.splits)
  with assms have "fp = filePath (allNotes s ! k) \<and> nm = ttl @ ''.pdf'' \<and>
      may_view (Some c) (allNotes s ! k)"
    by (auto simp: downloadNote_def Let_def may_view_def split: if_splits)
  moreover have "allNotes s ! k \<in> set (allNotes s) \<and> note_id (allNotes s ! k) = i"
    using find_idx_Some_nth [OF k] find_idx_nth_mem [OF k] by simp
  ultimately show ?thesis using c by blast
qed

text \<open>C19: a successful \<open>deleteNote\<close> was asked by the note's uploader; it removes
  that one note from the store and every like of its id, and nothing else.\<close>

theorem deleteNote_spec:
  assumes "fst (deleteNote i s) = Inr ()"
  shows "\<exists>c n. currentUser s = Some c \<and> n \<in> set (allNotes s) \<and> note_id n = i \<and>
               uploadedBy n = cu_id c \<and>
               allNotes (snd (deleteNote i s)) = remove1 n (allNotes s) \<and>
               likes (snd (deleteNote i s)) = filter (\<lambda>l. noteId l \<noteq> i) (likes s) \<and>
               users (snd (deleteNote i s)) = users s"
proof -
  obtain c k where c: "currentUser s = Some c"
    and k: "find_idx (\<lambda>n. note_id n = i) (allNotes s) = Some k"
    using assms by (auto simp: deleteNote_def split: option.splits)
  with assms have own: "uploadedBy (allNotes s ! k) = cu_id c"
    by (auto simp: deleteNote_def split: if_splits)
  with c k have eq: "snd (deleteNote i s) =
      s\<lparr>allNotes := splice1 k (allNotes s), likes := filter (\<lambda>l. noteId l \<noteq> i) (likes s),
        shown := filter (\<lambda>n. note_id n \<noteq> i) (shown s)\<rparr>"
    by (simp add: deleteNote_def)
  have "allNotes s ! k \<in> set (allNotes s) \<and> note_id (allNotes s ! k) = i"
    using find_idx_Some_nth [OF k] find_idx_nth_mem [OF k] by simp
  with c own eq splice1_find_idx [OF k] show ?thesis by auto
qed

section \<open>Likes and privacy switches\<close>

lemma liked_info_fields [simp]:
  "note_id (liked_info us n) = note_id n"
  "stored_note (liked_info us n) = n"
  "isPrivate (liked_info us n) = isPrivate n"
  "uploadedBy (liked_info us n) = uploadedBy n"
  by (simp_all add: liked_info_def stored_note_def note_obj.defs note_info.defs)

text \<open>For a logged-in user who has not liked a note, liking it and then
  unliking it gives back exactly the state before: the like list and the note's
  counter are restored.\<close>

theorem like_unlike_roundtrip:
  assumes "currentUser s = Some c" and "\<not> list_ex (is_like_of (cu_id c) i) (likes s)"
  shows "snd (unlikeNote i (snd (likeNote now isoNow i s))) = s"
proof -
  define L where "L = \<lparr>like_id = now, userId = cu_id c, noteId = i, likedAt = isoNow\<rparr>"
  have absent: "\<forall>l\<in>set (likes s). \<not> is_like_of (cu_id c) i l"
    using assms(2) by (simp add: list_ex_iff)
  have "find_idx (is_like_of (cu_id c) i) [L] = Some 0"
    by (simp add: L_def is_like_of_def)
  then have found: "find_idx (is_like_of (cu_id c) i) (likes s @ [L]) = Some (length (likes s))"
    using find_idx_append_absent [OF absent, of "[L]"] by simp
  show ?thesis
  proof (cases "find_idx (\<lambda>n. note_id n = i) (allNotes s)")
    case None
    with assms found show ?thesis
      by (simp add: likeNote_def unlikeNote_def Let_def L_def del: find_idx_None_iff)
  next
    case (Some k)
    from Some have "k < length (allNotes s)" by (rule find_idx_Some_less)
    with assms found Some show ?thesis
      by (simp add: likeNote_def unlikeNote_def Let_def L_def find_idx_update_same)
  qed
qed

lemma toggleNotePrivacy_Inr:
  assumes "fst (toggleNotePrivacy i s) = Inr b"
  obtains c k where "currentUser s = Some c"
    and "find_idx (\<lambda>n. note_id n = i) (allNotes s) = Some k"
    and "uploadedBy (allNotes s ! k) = cu_id c"
    and "b = (\<not> isPrivate (allNotes s ! k))"
    and "snd (toggleNotePrivacy i s) =
           s\<lparr>allNotes := (allNotes s)[k := (allNotes s ! k)\<lparr>isPrivate := \<not> isPrivate (allNotes s ! k)\<rparr>]\<rparr>"
  using assms
  by (cases "currentUser s"; cases "find_idx (\<lambda>n. note_id n = i) (allNotes s)")
     (auto simp: toggleNotePrivacy_def Let_def split: if_splits)

text \<open>switching a note's privacy succeeds only for its uploader, returns the
  new flag, and switching it again restores the state exactly.\<close>

theorem toggleNotePrivacy_twice:
  assumes "fst (toggleNotePrivacy i s) = Inr b"
  shows "(\<exists>c n. currentUser s = Some c \<and> n \<in> set (allNotes s) \<and> note_id n = i \<and>
                uploadedBy n = cu_id c \<and> b = (\<not> isPrivate n)) \<and>
         snd (toggleNotePrivacy i (snd (toggleNotePrivacy i s))) = s"
proof -
  obtain c k where c: "currentUser s = Some c"
    and k: "find_idx (\<lambda>n. note_id n = i) (allNotes s) = Some k"
    and own: "uploadedBy (allNotes s ! k) = cu_id c"
    and b: "b = (\<not> isPrivate (allNotes s ! k))"
    and eq: "snd (toggleNotePrivacy i s) =
           s\<lparr>allNotes := (allNotes s)[k := (allNotes s ! k)\<lparr>isPrivate := \<not> isPrivate (allNotes s ! k)\<rparr>]\<rparr>"
    using toggleNotePrivacy_Inr [OF assms] by blast
  have kl: "k < length (allNotes s)" using k by (rule find_idx_Some_less)
  have "allNotes s ! k \<in> set (allNotes s) \<and> note_id (allNotes s ! k) = i"
    using find_idx_Some_nth [OF k] find_idx_nth_mem [OF k] by simp
  with c own b have part1: "\<exists>c n. currentUser s = Some c \<and> n \<in> set (allNotes s) \<and> note_id n = i \<and>
                uploadedBy n = cu_id c \<and> b = (\<not> isPrivate n)" by blast
  have "snd (toggleNotePrivacy i (snd (toggleNotePrivacy i s))) = s"
    using c k own kl by (simp add: eq toggleNotePrivacy_def Let_def find_idx_update_same)
  with part1 show ?thesis by blast
qed

text \<open>C26: \<open>likeNote\<close> does not check that the note exists: for an id no stored
  note has, it succeeds and stores a like of a note that is not there.\<close>

theorem likeNote_missing_note:
  assumes "currentUser s = Some c" and "\<not> list_ex (is_like_of (cu_id c) i) (likes s)"
    and "i \<notin> note_id ` set (allNotes s)"
  shows "fst (likeNote now isoNow i s) = Inr () \<and>
         likes (snd (likeNote now isoNow i s)) =
           likes s @ [\<lparr>like_id = now, userId = cu_id c, noteId = i, likedAt = isoNow\<rparr>] \<and>
         allNotes (snd (likeNote now isoNow i s)) = allNotes s"
proof -
  have "find_idx (\<lambda>n. note_id n = i) (allNotes s) = None"
    using assms(3) by auto
  with assms(1,2) show ?thesis by (simp add: likeNote_def del: find_idx_None_iff)
qed

text \<open>C13: \<open>getLikedNotes\<close> applies no privacy filter: with distinct note ids, every
  stored note the user has liked is listed whole (its file included), even when it is
  private to another user.\<close>

theorem getLikedNotes_lists_liked:
  assumes "currentUser s = Some c" and "distinct (map note_id (allNotes s))"
    and "n \<in> set (allNotes s)" and "list_ex (is_like_of (cu_id c) (note_id n)) (likes s)"
  shows "\<exists>ns. fst (getLikedNotes s) = Inr ns \<and> n \<in> stored_note ` set ns"
proof -
  define myLikes where "myLikes = filter (\<lambda>l. userId l = cu_id c) (likes s)"
  define infos where "infos = map (liked_info (users s))
      (filter (\<lambda>m. note_id m \<in> set (map noteId myLikes)) (allNotes s))"
  obtain l where l: "l \<in> set myLikes" "noteId l = note_id n"
    using assms(4) by (auto simp: myLikes_def list_ex_iff is_like_of_def)
  have "note_id n \<in> set (map noteId myLikes)" using l by (simp add: image_iff) metis
  with assms(3) have n_in: "liked_info (users s) n \<in> set infos"
    by (simp add: infos_def)
  moreover have "note_id (liked_info (users s) n) = noteId l"
    using l(2) by simp
  ultimately have "find (\<lambda>m. note_id m = noteId l) infos \<noteq> None"
    by (auto simp: find_None_iff)
  then obtain m where m: "find (\<lambda>m. note_id m = noteId l) infos = Some m"
    by blast
  have "m \<in> set infos" and mid: "note_id m = note_id n"
    using m l(2) by (auto simp: find_Some_iff nth_mem)
  then obtain n' where n': "n' \<in> set (allNotes s)" "m = liked_info (users s) n'"
    by (auto simp: infos_def)
  have "note_id n' = note_id n" using mid n' by simp
  with n' assms(2,3) have "n' = n" by (metis distinct_map inj_onD)
  have "m \<in> set (List.map_filter (\<lambda>l. find (\<lambda>n. note_id n = noteId l) infos)
                   (js_sort (\<lambda>a b. likedAt b - likedAt a) myLikes))"
    using l(1) m by (auto simp: set_map_filter)
  moreover have "stored_note m = n"
    using n' \<open>n' = n\<close> by simp
  ultimately show ?thesis
    using assms(1) by (auto simp: getLikedNotes_def Let_def myLikes_def infos_def)
qed

section \<open>Updates and sort order\<close>

text \<open>\<open>updateNote\<close> keeps a note's id, uploader and upload date, as its comments
  say, but takes every other key from the caller, the counters included: the owner can
  set the like, download and view counts to any value.\<close>

theorem updateNote_overwrites_counters:
  assumes "fst (updateNote i u s) = Inr ()"
  shows "\<exists>k. k < length (allNotes s) \<and> note_id (allNotes s ! k) = i \<and>
           (let n = allNotes s ! k; n' = allNotes (snd (updateNote i u s)) ! k
            in note_id n' = note_id n \<and> uploadedBy n' = uploadedBy n \<and>
               uploadedAt n' = uploadedAt n \<and>
               likeCount n' = (case upd_likeCount u of None \<Rightarrow> likeCount n | Some v \<Rightarrow> v) \<and>
               downloads n' = (case upd_downloads u of None \<Rightarrow> downloads n | Some v \<Rightarrow> v) \<and>
               viewCount n' = (case upd_viewCount u of None \<Rightarrow> viewCount n | Some v \<Rightarrow> v))"
proof -
  obtain c k where c: "currentUser s = Some c"
    and k: "find_idx (\<lambda>n. note_id n = i) (allNotes s) = Some k"
    using assms by (auto simp: updateNote_def split: option.splits)
  with assms have own: "uploadedBy (allNotes s ! k) = cu_id c"
    by (auto simp: updateNote_def split: if_splits)
  have kl: "k < length (allNotes s)" using k by (rule find_idx_Some_less)
  have "note_id (allNotes s ! k) = i" using find_idx_Some_nth [OF k] by simp
  with c k own kl show ?thesis
    by (intro exI [of _ k]) (simp add: updateNote_def Let_def spread_patch_def split: option.splits)
qed

text \<open>C35: the SearchBar submits the sort order in upper case (\<open>'ASC'\<close> for
  "Lowest First", \<open>'DESC'\<close> for "Highest First") while \<open>searchNotes\<close> tests
  \<open>sortOrder === 'asc'\<close>: both choices give the same search, descending.\<close>

theorem searchNotes_ASC_is_DESC:
  "searchNotes (searchbar_submit q (f\<lparr>b_sortOrder := ''ASC''\<rparr>)) page limit s =
   searchNotes (searchbar_submit q (f\<lparr>b_sortOrder := ''DESC''\<rparr>)) page limit s"
proof -
  have "search_cmp k ''ASC'' = search_cmp k ''DESC''" for k
    by (rule search_cmp_not_asc) simp_all
  then show ?thesis
    by (simp add: searchNotes_def searchbar_submit_def apply_search_filters_filter note_matches_def)
qed


end
