(* ===== verification/Auth.thy ===== *)
theory Auth
  imports Store
begin

text \<open>
  The operations of \<open>AuthProvider\<close> (src/context/AuthContext.jsx) on the application
  state: registration, login and logout, and the profile, password and account
  operations of the logged-in user. The provider keeps the session user twice: in
  localStorage (\<open>notesBuddy_currentUser\<close>, the field \<open>currentUser\<close>, which
  NotesProvider reads) and in its React state (\<open>user\<close>, the field \<open>authUser\<close>,
  which \<open>updateProfile\<close>, \<open>changePassword\<close> and \<open>deleteAccount\<close> read). Where
  those three dereference a \<open>null\<close> React user inside the \<open>findIndex\<close> callback,
  the \<open>TypeError\<close> lands in the catch branch; with no stored user the callback never
  runs and the operation answers "User not found" instead.
\<close>

section \<open>Initialisation, registration, login, logout\<close>

text \<open>The provider's effect: the React user is read back from localStorage.\<close>

definition auth_init :: "app \<Rightarrow> app" where
  "auth_init s = s\<lparr>authUser := currentUser s\<rparr>"

definition register :: "millis \<Rightarrow> millis \<Rightarrow> string \<Rightarrow> string \<Rightarrow> string \<Rightarrow> app \<Rightarrow> unit result" where
  "register now isoNow nm em pw s =
     (if list_ex (\<lambda>u. email u = em) (users s) then (Inl EmailAlreadyRegistered, s)
      else
        let newUser = \<lparr>user_id = now, name = nm, email = em, password = pw, createdAt = isoNow\<rparr>;
            userWithoutPassword = without_password newUser
        in (Inr (), s\<lparr>users := users s @ [newUser], currentUser := Some userWithoutPassword,
                      authUser := Some userWithoutPassword\<rparr>))"

definition login :: "string \<Rightarrow> string \<Rightarrow> app \<Rightarrow> unit result" where
  "login em pw s =
     (case find (\<lambda>u. email u = em \<and> password u = pw) (users s) of
        None \<Rightarrow> (Inl InvalidCredentials, s)
      | Some user \<Rightarrow>
          (Inr (), s\<lparr>currentUser := Some (without_password user),
                     authUser := Some (without_password user)\<rparr>))"

definition logout :: "app \<Rightarrow> app" where
  "logout s = s\<lparr>currentUser := None, authUser := None\<rparr>"

section \<open>Operations of the logged-in user\<close>

text \<open>\<open>updateProfile(data)\<close>: an empty \<open>name\<close> or \<open>email\<close> is falsy and keeps the
  stored value.\<close>

definition updateProfile :: "string \<Rightarrow> string \<Rightarrow> app \<Rightarrow> unit result" where
  "updateProfile dname demail s =
     (case authUser s of
        None \<Rightarrow> (if users s = [] then (Inl UserNotFound, s) else (Inl UpdateFailed, s))
      | Some user \<Rightarrow>
          (case find_idx (\<lambda>u. user_id u = cu_id user) (users s) of
             None \<Rightarrow> (Inl UserNotFound, s)
           | Some userIndex \<Rightarrow>
               if demail \<noteq> [] \<and> demail \<noteq> cu_email user \<and>
                  list_ex (\<lambda>u. email u = demail \<and> user_id u \<noteq> cu_id user) (users s)
               then (Inl EmailAlreadyInUse, s)
               else
                 let old = users s ! userIndex;
                     updated = old\<lparr>name := js_or dname (name old), email := js_or demail (email old)\<rparr>;
                     updatedUser = without_password updated
                 in (Inr (), s\<lparr>users := (users s)[userIndex := updated],
                               currentUser := Some updatedUser, authUser := Some updatedUser\<rparr>)))"

definition changePassword :: "string \<Rightarrow> string \<Rightarrow> app \<Rightarrow> unit result" where
  "changePassword currentPassword newPassword s =
     (case authUser s of
        None \<Rightarrow> (if users s = [] then (Inl UserNotFound, s) else (Inl PasswordChangeFailed, s))
      | Some user \<Rightarrow>
          (case find_idx (\<lambda>u. user_id u = cu_id user) (users s) of
             None \<Rightarrow> (Inl UserNotFound, s)
           | Some userIndex \<Rightarrow>
               if password (users s ! userIndex) \<noteq> currentPassword
               then (Inl CurrentPasswordIncorrect, s)
               else (Inr (), s\<lparr>users := (users s)[userIndex :=
                                 (users s ! userIndex)\<lparr>password := newPassword\<rparr>]\<rparr>)))"

text \<open>\<open>deleteAccount(password)\<close>: the user's notes and the user go, then
  \<open>logout()\<close>. The likes the user gave and the likes of the deleted notes stay.\<close>

definition deleteAccount :: "string \<Rightarrow> app \<Rightarrow> unit result" where
  "deleteAccount pw s =
     (case authUser s of
        None \<Rightarrow> (if users s = [] then (Inl UserNotFound, s) else (Inl AccountDeletionFailed, s))
      | Some user \<Rightarrow>
          (case find_idx (\<lambda>u. user_id u = cu_id user) (users s) of
             None \<Rightarrow> (Inl UserNotFound, s)
           | Some userIndex \<Rightarrow>
               if password (users s ! userIndex) \<noteq> pw then (Inl IncorrectPassword, s)
               else
                 let updatedNotes = filter (\<lambda>n. uploadedBy n \<noteq> cu_id user) (allNotes s)
                 in (Inr (), logout (s\<lparr>allNotes := updatedNotes,
                                        users := splice1 userIndex (users s)\<rparr>))))"

section \<open>Lemmas on user lookup\<close>

lemma find_unique_key:
  assumes "distinct (map f xs)" and "k < length xs" and "f y = f (xs ! k)"
  shows "find (\<lambda>v. f v = f y \<and> Q v) (xs[k := y]) = (if Q y then Some y else None)"
  using assms
proof (induction xs arbitrary: k)
  case Nil
  then show ?case by simp
next
  case (Cons x xs)
  show ?case
  proof (cases k)
    case 0
    with Cons.prems have "\<forall>v\<in>set xs. f v \<noteq> f y" by (auto simp: image_iff)
    with 0 show ?thesis by (auto simp: find_None_iff)
  next
    case (Suc k')
    with Cons.prems have "f x \<noteq> f y" by (auto simp: nth_mem)
    with Suc Cons.prems Cons.IH [of k'] show ?thesis by simp
  qed
qed

lemma find_in_unique_key:
  assumes "distinct (map f xs)" and "k < length xs"
  shows "find (\<lambda>v. f v = f (xs ! k) \<and> Q v) xs = (if Q (xs ! k) then Some (xs ! k) else None)"
  using find_unique_key [OF assms, of "xs ! k" Q] by simp

text \<open>With distinct e-mails, the search of \<open>login\<close> for a stored user's e-mail finds
  that user exactly when the password is the stored one.\<close>

lemma login_find:
  assumes "distinct (map email (users s))" and "u \<in> set (users s)"
  shows "find (\<lambda>v. email v = email u \<and> password v = pw) (users s) =
           (if password u = pw then Some u else None)"
proof -
  obtain k where k: "k < length (users s)" "users s ! k = u"
    using assms(2) by (auto simp: in_set_conv_nth)
  then show ?thesis
    using find_in_unique_key [OF assms(1) k(1), of "\<lambda>v. password v = pw"] by simp
qed

section \<open>Properties\<close>

text \<open>After a successful registration, logging in with the same e-mail and
  password succeeds and leaves the state as registration left it: the new user is the
  session user.\<close>

theorem register_login_roundtrip:
  assumes "fst (register now isoNow nm em pw s) = Inr ()"
  shows "login em pw (snd (register now isoNow nm em pw s)) = (Inr (), snd (register now isoNow nm em pw s))"
proof -
  from assms have fresh: "\<not> list_ex (\<lambda>u. email u = em) (users s)"
    by (auto simp: register_def split: if_splits)
  then have "find (\<lambda>u. email u = em \<and> password u = pw) (users s) = None"
    by (auto simp: find_None_iff list_ex_iff)
  with fresh show ?thesis
    by (simp add: register_def login_def Let_def find_append_None)
qed

text \<open>C20: with distinct e-mails, a stored user can log in exactly with the stored
  password, and a login makes that user, without the password, the session user of
  both the store and the React state.\<close>

theorem login_correct:
  assumes "distinct (map email (users s))" and "u \<in> set (users s)"
  shows "(fst (login (email u) pw s) = Inr () \<longleftrightarrow> password u = pw) \<and>
         (password u = pw \<longrightarrow>
            currentUser (snd (login (email u) pw s)) = Some (without_password u) \<and>
            authUser (snd (login (email u) pw s)) = Some (without_password u))"
  using login_find [OF assms, of pw] by (simp add: login_def)

text \<open>With distinct e-mails, after a successful password change the user logs
  in with the new password and no longer with the old one.\<close>

theorem changePassword_login:
  assumes "distinct (map email (users s))" and "fst (changePassword old new s) = Inr ()"
    and "old \<noteq> new"
  shows "\<exists>u\<in>set (users s). password u = old \<and>
           fst (login (email u) new (snd (changePassword old new s))) = Inr () \<and>
           fst (login (email u) old (snd (changePassword old new s))) = Inl InvalidCredentials"
proof -
  obtain c k where c: "authUser s = Some c"
    and k: "find_idx (\<lambda>u. user_id u = cu_id c) (users s) = Some k"
    and pw: "password (users s ! k) = old"
    using assms(2) by (auto simp: changePassword_def split: option.splits if_splits)
  have kl: "k < length (users s)" using k by (rule find_idx_Some_less)
  define u where "u = users s ! k"
  have st: "users (snd (changePassword old new s)) = (users s)[k := u\<lparr>password := new\<rparr>]"
    using c k pw by (simp add: changePassword_def u_def)
  have "find (\<lambda>v. email v = email (u\<lparr>password := new\<rparr>) \<and> password v = q)
          ((users s)[k := u\<lparr>password := new\<rparr>]) =
        (if password (u\<lparr>password := new\<rparr>) = q then Some (u\<lparr>password := new\<rparr>) else None)" for q
    by (rule find_unique_key [OF assms(1) kl]) (simp add: u_def)
  then have "find (\<lambda>v. email v = email u \<and> password v = q)
               (users (snd (changePassword old new s))) =
             (if new = q then Some (u\<lparr>password := new\<rparr>) else None)" for q
    by (simp add: st)
  with assms(3) have "fst (login (email u) new (snd (changePassword old new s))) = Inr ()"
    and "fst (login (email u) old (snd (changePassword old new s))) = Inl InvalidCredentials"
    by (simp_all add: login_def)
  moreover have "u \<in> set (users s)" using kl by (simp add: u_def)
  ultimately show ?thesis using pw u_def by blast
qed

text \<open>C21: a successful \<open>deleteAccount\<close> was confirmed with the stored password; it
  removes exactly the user's notes and the user's record, logs out in the store and
  in the React state, and leaves every like in place, the likes of the deleted notes
  included.\<close>

theorem deleteAccount_spec:
  assumes "fst (deleteAccount pw s) = Inr ()"
  shows "\<exists>c u. authUser s = Some c \<and> u \<in> set (users s) \<and> user_id u = cu_id c \<and>
           password u = pw \<and>
           allNotes (snd (deleteAccount pw s)) = filter (\<lambda>n. uploadedBy n \<noteq> cu_id c) (allNotes s) \<and>
           users (snd (deleteAccount pw s)) = remove1 u (users s) \<and>
           currentUser (snd (deleteAccount pw s)) = None \<and> authUser (snd (deleteAccount pw s)) = None \<and>
           likes (snd (deleteAccount pw s)) = likes s"
proof -
  obtain c k where c: "authUser s = Some c"
    and k: "find_idx (\<lambda>u. user_id u = cu_id c) (users s) = Some k"
    and pw: "password (users s ! k) = pw"
    using assms by (auto simp: deleteAccount_def split: option.splits if_splits)
  have "users s ! k \<in> set (users s)" by (rule find_idx_nth_mem [OF k])
  moreover have "user_id (users s ! k) = cu_id c" using find_idx_Some_nth [OF k] by simp
  moreover have "snd (deleteAccount pw s) =
      logout (s\<lparr>allNotes := filter (\<lambda>n. uploadedBy n \<noteq> cu_id c) (allNotes s),
                users := splice1 k (users s)\<rparr>)"
    using c k pw by (simp add: deleteAccount_def)
  ultimately show ?thesis
    using c pw splice1_find_idx [OF k] by (auto simp: logout_def)
qed

end
