(* ===== verification/App.thy ===== *)
theory App
  imports Notes Auth
begin

text \<open>
  The application as a state machine. Every call a page or component can make into
  the two contexts is an operation (datatype \<open>op\<close>, one constructor per exported
  function of AuthProvider and NotesProvider, plus \<open>Reload\<close>, the provider effects
  that run when the page is loaded again). \<open>exec\<close> runs one operation and reports
  its error, if any, and the state after it. A run is a sequence of steps from the
  initial state, in any order and interleaving of users and tabs that share the one
  localStorage; a step is any operation whose clock reading is fresh (\<open>Date.now()\<close>
  differs from every id already stored, which the code takes for granted and which
  two operations in the same millisecond violate).
\<close>

datatype op =
    FetchNotes int int
  | SearchNotes search_filters int int
  | UploadNote millis millis upload_form
  | GetNoteById nid
  | DownloadNote nid string
  | DeleteNote nid
  | GetMyNotes int int
  | LikeNote millis millis nid
  | UnlikeNote nid
  | GetLikedNotes
  | ToggleNotePrivacy nid
  | UpdateNote nid note_patch
  | Register millis millis string string string
  | Login string string
  | Logout
  | UpdateProfile string string
  | ChangePassword string string
  | DeleteAccount string
  | Reload

definition err_of :: "err + 'a \<Rightarrow> err option" where
  "err_of r = (case r of Inl e \<Rightarrow> Some e | Inr _ \<Rightarrow> None)"

text \<open>NotesProvider's React state on a page load: \<open>notes\<close> is \<open>[]\<close> and
  \<open>pagination\<close> its initial value; its effect writes \<open>[]\<close> to a missing key, which
  the model already reads as the empty list.\<close>

definition notes_init :: "app \<Rightarrow> app" where
  "notes_init s = s\<lparr>shown := [], pag := init_pagination\<rparr>"

fun exec :: "op \<Rightarrow> app \<Rightarrow> err option \<times> app" where
  "exec (FetchNotes p l) s = apfst err_of (fetchNotes p l s)"
| "exec (SearchNotes f p l) s = apfst err_of (searchNotes f p l s)"
| "exec (UploadNote t t' fd) s = apfst err_of (uploadNote t t' fd s)"
| "exec (GetNoteById i) s = apfst err_of (getNoteById i s)"
| "exec (DownloadNote i ttl) s = apfst err_of (downloadNote i ttl s)"
| "exec (DeleteNote i) s = apfst err_of (deleteNote i s)"
| "exec (GetMyNotes p l) s = apfst err_of (getMyNotes p l s)"
| "exec (LikeNote t t' i) s = apfst err_of (likeNote t t' i s)"
| "exec (UnlikeNote i) s = apfst err_of (unlikeNote i s)"
| "exec GetLikedNotes s = apfst err_of (getLikedNotes s)"
| "exec (ToggleNotePrivacy i) s = apfst err_of (toggleNotePrivacy i s)"
| "exec (UpdateNote i u) s = apfst err_of (updateNote i u s)"
| "exec (Register t t' nm em pw) s = apfst err_of (register t t' nm em pw s)"
| "exec (Login em pw) s = apfst err_of (login em pw s)"
| "exec Logout s = (None, logout s)"
| "exec (UpdateProfile nm em) s = apfst err_of (updateProfile nm em s)"
| "exec (ChangePassword old new) s = apfst err_of (changePassword old new s)"
| "exec (DeleteAccount pw) s = apfst err_of (deleteAccount pw s)"
| "exec Reload s = (None, notes_init (auth_init s))"

text \<open>A clock reading that no stored id equals.\<close>

definition clock_fresh :: "millis \<Rightarrow> app \<Rightarrow> bool" where
  "clock_fresh t s \<longleftrightarrow>
     t \<notin> user_id ` set (users s) \<and> t \<notin> note_id ` set (allNotes s) \<and> t \<notin> noteId ` set (likes s)"

fun op_fresh :: "op \<Rightarrow> app \<Rightarrow> bool" where
  "op_fresh (UploadNote t _ _) s = clock_fresh t s"
| "op_fresh (Register t _ _ _ _) s = clock_fresh t s"
| "op_fresh _ s = True"

text \<open>All exported operations but \<open>updateNote\<close>. The pages of the repository call
  the other note operations except \<open>getLikedNotes\<close>, and \<open>login\<close>, \<open>logout\<close>
  and \<open>register\<close> (the Login and Register pages are missing from the repository).
  No page calls \<open>getLikedNotes\<close>, \<open>updateProfile\<close>, \<open>changePassword\<close> or
  \<open>deleteAccount\<close> (Profile calls the undefined \<open>authAPI\<close> instead); they are
  exported by the providers and included as operations any client of the providers
  may call. \<open>updateNote\<close> is left out because it breaks the like counters
  (\<open>updateNote_breaks_like_counts\<close>), which the other operations keep.\<close>

fun ui_op :: "op \<Rightarrow> bool" where
  "ui_op (UpdateNote _ _) = False"
| "ui_op _ = True"

inductive step :: "op \<Rightarrow> app \<Rightarrow> app \<Rightarrow> bool" where
  exec_step: "op_fresh a s \<Longrightarrow> step a s (snd (exec a s))"

inductive_cases step_elim: "step a s t"

inductive reachable :: "(op \<Rightarrow> bool) \<Rightarrow> app \<Rightarrow> bool" for allowed where
  reach_init: "reachable allowed init_app"
| reach_step: "reachable allowed s \<Longrightarrow> allowed a \<Longrightarrow> step a s t \<Longrightarrow> reachable allowed t"

text \<open>A sequence of operations run one after the other, as a page session issues
  them, and the condition that each of them reads a fresh clock.\<close>

fun run :: "op list \<Rightarrow> app \<Rightarrow> app" where
  "run [] s = s"
| "run (a # as) s = run as (snd (exec a s))"

fun runs_fresh :: "op list \<Rightarrow> app \<Rightarrow> bool" where
  "runs_fresh [] s = True"
| "runs_fresh (a # as) s = (op_fresh a s \<and> runs_fresh as (snd (exec a s)))"

lemma reachable_run:
  "reachable allowed s \<Longrightarrow> list_all allowed as \<Longrightarrow> runs_fresh as s \<Longrightarrow> reachable allowed (run as s)"
proof (induction as arbitrary: s)
  case Nil
  then show ?case by simp
next
  case (Cons a as)
  then have "reachable allowed (snd (exec a s))"
    by (auto intro: reach_step exec_step)
  with Cons show ?case by simp
qed

section \<open>Failing operations change nothing\<close>

lemma fetchNotes_Inl [error_frame]: "fst (fetchNotes p l s) = Inl e \<Longrightarrow> snd (fetchNotes p l s) = s"
  by (simp add: fetchNotes_def Let_def split: prod.splits)

lemma searchNotes_Inl [error_frame]: "fst (searchNotes f p l s) = Inl e \<Longrightarrow> snd (searchNotes f p l s) = s"
  by (simp add: searchNotes_def Let_def split: prod.splits)

lemma uploadNote_Inl [error_frame]: "fst (uploadNote t t' fd s) = Inl e \<Longrightarrow> snd (uploadNote t t' fd s) = s"
  by (auto simp: uploadNote_def Let_def split: option.splits prod.splits)

lemma getNoteById_Inl [error_frame]: "fst (getNoteById i s) = Inl e \<Longrightarrow> snd (getNoteById i s) = s"
  by (auto simp: getNoteById_def Let_def split: option.splits if_splits simp del: find_idx_None_iff)

lemma downloadNote_Inl [error_frame]: "fst (downloadNote i ttl s) = Inl e \<Longrightarrow> snd (downloadNote i ttl s) = s"
  by (auto simp: downloadNote_def Let_def split: option.splits if_splits simp del: find_idx_None_iff)

lemma deleteNote_Inl [error_frame]: "fst (deleteNote i s) = Inl e \<Longrightarrow> snd (deleteNote i s) = s"
  by (auto simp: deleteNote_def split: option.splits if_splits simp del: find_idx_None_iff)

lemma getMyNotes_Inl [error_frame]: "fst (getMyNotes p l s) = Inl e \<Longrightarrow> snd (getMyNotes p l s) = s"
  by (auto simp: getMyNotes_def Let_def split: option.splits prod.splits)

lemma likeNote_Inl [error_frame]: "fst (likeNote t t' i s) = Inl e \<Longrightarrow> snd (likeNote t t' i s) = s"
  by (auto simp: likeNote_def Let_def split: option.splits if_splits simp del: find_idx_None_iff)

lemma unlikeNote_Inl [error_frame]: "fst (unlikeNote i s) = Inl e \<Longrightarrow> snd (unlikeNote i s) = s"
  by (auto simp: unlikeNote_def Let_def split: option.splits simp del: find_idx_None_iff)

lemma getLikedNotes_Inl [error_frame]: "fst (getLikedNotes s) = Inl e \<Longrightarrow> snd (getLikedNotes s) = s"
  by (auto simp: getLikedNotes_def Let_def split: option.splits)

lemma toggleNotePrivacy_Inl [error_frame]:
  "fst (toggleNotePrivacy i s) = Inl e \<Longrightarrow> snd (toggleNotePrivacy i s) = s"
  by (auto simp: toggleNotePrivacy_def Let_def split: option.splits if_splits simp del: find_idx_None_iff)

lemma updateNote_Inl [error_frame]: "fst (updateNote i u s) = Inl e \<Longrightarrow> snd (updateNote i u s) = s"
  by (auto simp: updateNote_def Let_def split: option.splits if_splits simp del: find_idx_None_iff)

lemma register_Inl [error_frame]:
  "fst (register t t' nm em pw s) = Inl e \<Longrightarrow> snd (register t t' nm em pw s) = s"
  by (auto simp: register_def Let_def split: if_splits)

lemma login_Inl [error_frame]: "fst (login em pw s) = Inl e \<Longrightarrow> snd (login em pw s) = s"
  by (auto simp: login_def split: option.splits)

lemma updateProfile_Inl [error_frame]:
  "fst (updateProfile nm em s) = Inl e \<Longrightarrow> snd (updateProfile nm em s) = s"
  by (auto simp: updateProfile_def Let_def split: option.splits if_splits simp del: find_idx_None_iff)

lemma changePassword_Inl [error_frame]:
  "fst (changePassword old new s) = Inl e \<Longrightarrow> snd (changePassword old new s) = s"
  by (auto simp: changePassword_def split: option.splits if_splits simp del: find_idx_None_iff)

lemma deleteAccount_Inl [error_frame]:
  "fst (deleteAccount pw s) = Inl e \<Longrightarrow> snd (deleteAccount pw s) = s"
  by (auto simp: deleteAccount_def Let_def split: option.splits if_splits simp del: find_idx_None_iff)

lemma err_of_Some: "err_of r = Some e \<Longrightarrow> r = Inl e"
  by (auto simp: err_of_def split: sum.splits)

text \<open>C18: an operation that reports an error leaves the whole state unchanged:
  every \<open>{ success: false }\<close> return of the contexts comes before any write.\<close>

theorem exec_error_frame: "fst (exec a s) = Some e \<Longrightarrow> snd (exec a s) = s"
  by (cases a) (auto dest!: err_of_Some intro: error_frame)

end
