(* ===== verification/Invariants.thy ===== *)
theory Invariants
  imports App
begin

text \<open>
  The invariants of the stored data and the proof that every step keeps them.
  \<open>users_inv\<close>: user ids and e-mails are distinct, and the session user of the store
  and of AuthProvider's React state agree and are a stored user without the password.
  \<open>notes_inv\<close>: note ids are distinct and no user likes a note twice.
  \<open>counts_inv\<close>: every note's \<open>likeCount\<close> is the number of likes of its id; it holds
  for the operations the pages call (\<open>updateNote\<close> can overwrite the counter).
  Each is proved operation by operation and lifted to reachable states by rule
  induction.
\<close>

section \<open>The invariants\<close>

definition session_ok :: "app \<Rightarrow> bool" where
  "session_ok s \<longleftrightarrow>
     authUser s = currentUser s \<and>
     (case currentUser s of None \<Rightarrow> True | Some c \<Rightarrow> c \<in> without_password ` set (users s))"

definition users_inv :: "app \<Rightarrow> bool" where
  "users_inv s \<longleftrightarrow>
     distinct (map user_id (users s)) \<and> distinct (map email (users s)) \<and> session_ok s"

definition notes_inv :: "app \<Rightarrow> bool" where
  "notes_inv s \<longleftrightarrow>
     distinct (map note_id (allNotes s)) \<and> distinct (map (\<lambda>l. (userId l, noteId l)) (likes s))"

definition like_count :: "like list \<Rightarrow> nid \<Rightarrow> nat" where
  "like_count ls i = length (filter (\<lambda>l. noteId l = i) ls)"

definition counts_inv :: "app \<Rightarrow> bool" where
  "counts_inv s \<longleftrightarrow> (\<forall>n\<in>set (allNotes s). likeCount n = like_count (likes s) (note_id n))"

section \<open>Generic facts\<close>

text \<open>An invariant holds after an operation when it holds before, the operation
  changes nothing on its error branches, and its success branch keeps it.\<close>

lemma notes_init_fields [simp]:
  "users (notes_init s) = users s" "allNotes (notes_init s) = allNotes s" "likes (notes_init s) = likes s"
  "currentUser (notes_init s) = currentUser s" "authUser (notes_init s) = authUser s"
  "shown (notes_init s) = []" "pag (notes_init s) = init_pagination"
  by (simp_all add: notes_init_def)

lemma result_inv:
  assumes "P s" and "\<And>e. fst r = Inl e \<Longrightarrow> snd r = s" and "\<And>v. fst r = Inr v \<Longrightarrow> P (snd r)"
  shows "P (snd r)"
  using assms by (cases "fst r") auto

lemma distinct_map_update:
  assumes "distinct (map f xs)" and "k < length xs"
    and "\<forall>j<length xs. j \<noteq> k \<longrightarrow> f (xs ! j) \<noteq> f y"
  shows "distinct (map f (xs[k := y]))"
  using assms by (auto simp: distinct_conv_nth nth_list_update)

lemma map_pair_fst: "map (\<lambda>x. (f x, g x)) xs = map (\<lambda>x. (f x, g x)) ys \<Longrightarrow> map f xs = map f ys"
proof -
  assume h: "map (\<lambda>x. (f x, g x)) xs = map (\<lambda>x. (f x, g x)) ys"
  have "map fst (map (\<lambda>x. (f x, g x)) xs) = map fst (map (\<lambda>x. (f x, g x)) ys)"
    by (rule arg_cong [OF h])
  then show ?thesis by (simp add: comp_def)
qed

lemma map_update_same: "f y = f (xs ! k) \<Longrightarrow> map f (xs[k := y]) = map f xs"
  by (metis list_update_id map_update)

lemma without_password_password [simp]: "without_password (u\<lparr>password := p\<rparr>) = without_password u"
  by (simp add: without_password_def)

lemma without_password_id [simp]: "cu_id (without_password u) = user_id u"
  and without_password_email [simp]: "cu_email (without_password u) = email u"
  by (simp_all add: without_password_def)

lemma distinct_id_nth:
  "distinct (map f xs) \<Longrightarrow> u \<in> set xs \<Longrightarrow> k < length xs \<Longrightarrow> f (xs ! k) = f u \<Longrightarrow> xs ! k = u"
  by (metis distinct_map inj_onD nth_mem)

section \<open>Steps of the note operations leave users and session alone\<close>

fun notes_op :: "op \<Rightarrow> bool" where
  "notes_op (Register _ _ _ _ _) = False"
| "notes_op (Login _ _) = False"
| "notes_op Logout = False"
| "notes_op (UpdateProfile _ _) = False"
| "notes_op (ChangePassword _ _) = False"
| "notes_op (DeleteAccount _) = False"
| "notes_op Reload = False"
| "notes_op _ = True"

lemma notes_op_frame:
  assumes "notes_op a"
  shows "users (snd (exec a s)) = users s \<and> currentUser (snd (exec a s)) = currentUser s \<and>
         authUser (snd (exec a s)) = authUser s"
  using assms
  by (cases a)
     (auto simp: fetchNotes_def searchNotes_def uploadNote_def getNoteById_def downloadNote_def
        deleteNote_def getMyNotes_def likeNote_def unlikeNote_def getLikedNotes_def
        toggleNotePrivacy_def updateNote_def Let_def
        split: option.splits if_splits prod.splits)

text \<open>A step that keeps every user's public fields, e-mail and the session keeps
  \<open>users_inv\<close>; the password is free to change.\<close>

lemma users_inv_frame:
  assumes inv: "users_inv s"
    and pub: "map without_password (users t) = map without_password (users s)"
    and em: "map email (users t) = map email (users s)"
    and "currentUser t = currentUser s" and "authUser t = authUser s"
  shows "users_inv t"
proof -
  have "map user_id (users t) = map user_id (users s)"
    using arg_cong [OF pub, of "map cu_id"] by (simp add: comp_def)
  moreover have "without_password ` set (users t) = without_password ` set (users s)"
    by (metis pub set_map)
  ultimately show ?thesis
    using assms by (auto simp: users_inv_def session_ok_def split: option.splits)
qed

lemma session_user:
  assumes "users_inv s" and "authUser s = Some c"
  obtains u where "u \<in> set (users s)" "c = without_password u" "currentUser s = Some c"
  using assms by (auto simp: users_inv_def session_ok_def split: option.splits)

text \<open>The user whose id the session holds is found by \<open>findIndex\<close> at its one index.\<close>

lemma session_user_index:
  assumes "users_inv s" and "authUser s = Some c"
    and "find_idx (\<lambda>u. user_id u = cu_id c) (users s) = Some k"
  shows "c = without_password (users s ! k) \<and> currentUser s = Some c \<and> k < length (users s)"
proof -
  obtain u where u: "u \<in> set (users s)" "c = without_password u" "currentUser s = Some c"
    using session_user [OF assms(1,2)] by blast
  have kl: "k < length (users s)" using assms(3) by (rule find_idx_Some_less)
  have "users s ! k = u"
    using distinct_id_nth [of user_id "users s" u k] assms(1) u kl find_idx_Some_nth [OF assms(3)]
    by (simp add: users_inv_def)
  with u kl show ?thesis by simp
qed

text \<open>Replacing the user at index \<open>k\<close> keeps e-mails unique when the new e-mail is
  the old one or belongs to no user with another id.\<close>

lemma distinct_email_update:
  assumes ids: "distinct (map user_id us)" and em: "distinct (map email us)" and kl: "k < length us"
    and new: "email x = email (us ! k) \<or> (\<forall>u\<in>set us. email u = email x \<longrightarrow> user_id u = user_id (us ! k))"
  shows "distinct (map email (us[k := x]))"
proof (cases "email x = email (us ! k)")
  case True
  with em show ?thesis by (simp add: map_update_same)
next
  case False
  with new have other: "\<forall>u\<in>set us. email u = email x \<longrightarrow> user_id u = user_id (us ! k)" by blast
  have "\<forall>j<length us. j \<noteq> k \<longrightarrow> email (us ! j) \<noteq> email x"
  proof (intro allI impI)
    fix j assume j: "j < length us" "j \<noteq> k"
    with ids kl have "user_id (us ! j) \<noteq> user_id (us ! k)" by (auto simp: distinct_conv_nth)
    with other j(1) show "email (us ! j) \<noteq> email x" by (auto simp: nth_mem)
  qed
  with em kl show ?thesis by (intro distinct_map_update) simp_all
qed

section \<open>Each account operation keeps \<open>users_inv\<close>\<close>

lemma register_users_inv [store_inv]:
  "users_inv s \<Longrightarrow> clock_fresh now s \<Longrightarrow> users_inv (snd (register now isoNow nm em pw s))"
  by (auto simp: users_inv_def session_ok_def register_def clock_fresh_def list_ex_iff Let_def
      split: if_splits option.splits)

lemma login_users_inv [store_inv]: "users_inv s \<Longrightarrow> users_inv (snd (login em pw s))"
  by (auto simp: users_inv_def session_ok_def login_def split: option.splits dest: find_Some_in)

lemma logout_users_inv [store_inv]: "users_inv s \<Longrightarrow> users_inv (logout s)"
  by (auto simp: users_inv_def session_ok_def logout_def split: option.splits)

lemma auth_init_users_inv [store_inv]: "users_inv s \<Longrightarrow> users_inv (notes_init (auth_init s))"
  by (auto simp: users_inv_def session_ok_def auth_init_def split: option.splits)

lemma updateProfile_users_inv [store_inv]:
  assumes inv: "users_inv s"
  shows "users_inv (snd (updateProfile dname demail s))"
proof (cases "fst (updateProfile dname demail s)")
  case (Inl e)
  with inv show ?thesis by (simp add: updateProfile_Inl)
next
  case (Inr r)
  then obtain c k where c: "authUser s = Some c"
    and k: "find_idx (\<lambda>u. user_id u = cu_id c) (users s) = Some k"
    and ok: "\<not> (demail \<noteq> [] \<and> demail \<noteq> cu_email c \<and>
                 list_ex (\<lambda>u. email u = demail \<and> user_id u \<noteq> cu_id c) (users s))"
    by (auto simp: updateProfile_def split: option.splits if_splits simp del: find_idx_None_iff)
  define old where "old = users s ! k"
  define upd where "upd = old\<lparr>name := js_or dname (name old), email := js_or demail (email old)\<rparr>"
  have st: "snd (updateProfile dname demail s) =
      s\<lparr>users := (users s)[k := upd], currentUser := Some (without_password upd),
        authUser := Some (without_password upd)\<rparr>"
    using c k ok by (auto simp: updateProfile_def upd_def old_def Let_def simp del: find_idx_None_iff)
  from session_user_index [OF inv c k] have cw: "c = without_password old"
    and kl: "k < length (users s)" by (simp_all add: old_def)
  have ids: "map user_id ((users s)[k := upd]) = map user_id (users s)"
    by (rule map_update_same) (simp add: upd_def old_def)
  have "email upd = email old \<or> (\<forall>u\<in>set (users s). email u = email upd \<longrightarrow> user_id u = user_id old)"
    using ok cw by (auto simp: upd_def js_or_def list_ex_iff)
  with inv kl have emails: "distinct (map email ((users s)[k := upd]))"
    by (intro distinct_email_update) (simp_all add: users_inv_def old_def)
  have "upd \<in> set ((users s)[k := upd])" using kl by (simp add: set_update_memI)
  with ids emails inv show ?thesis by (auto simp: st users_inv_def session_ok_def)
qed

lemma changePassword_users_inv [store_inv]:
  assumes inv: "users_inv s"
  shows "users_inv (snd (changePassword old new s))"
proof (cases "fst (changePassword old new s)")
  case (Inl e)
  with inv show ?thesis by (simp add: changePassword_Inl)
next
  case (Inr r)
  then obtain c k where "authUser s = Some c"
    and "find_idx (\<lambda>u. user_id u = cu_id c) (users s) = Some k"
    and "password (users s ! k) = old"
    by (auto simp: changePassword_def split: option.splits if_splits simp del: find_idx_None_iff)
  then have "snd (changePassword old new s) =
      s\<lparr>users := (users s)[k := (users s ! k)\<lparr>password := new\<rparr>]\<rparr>"
    by (simp add: changePassword_def)
  with inv show ?thesis by (auto intro: users_inv_frame simp: map_update_same)
qed

lemma deleteAccount_Inr:
  assumes "fst (deleteAccount pw s) = Inr v"
  obtains c k where "authUser s = Some c"
    and "find_idx (\<lambda>u. user_id u = cu_id c) (users s) = Some k"
    and "snd (deleteAccount pw s) =
           logout (s\<lparr>allNotes := filter (\<lambda>n. uploadedBy n \<noteq> cu_id c) (allNotes s),
                     users := splice1 k (users s)\<rparr>)"
proof -
  obtain c k where "authUser s = Some c"
    and "find_idx (\<lambda>u. user_id u = cu_id c) (users s) = Some k"
    and "password (users s ! k) = pw"
    using assms
    by (auto simp: deleteAccount_def split: option.splits if_splits simp del: find_idx_None_iff)
  then show ?thesis by (intro that [of c k]) (simp_all add: deleteAccount_def)
qed

lemma deleteAccount_users_inv [store_inv]:
  assumes inv: "users_inv s"
  shows "users_inv (snd (deleteAccount pw s))"
proof (rule result_inv [of users_inv, OF inv deleteAccount_Inl])
  fix v assume ok: "fst (deleteAccount pw s) = Inr v"
  obtain c k where "snd (deleteAccount pw s) =
           logout (s\<lparr>allNotes := filter (\<lambda>n. uploadedBy n \<noteq> cu_id (c :: cur_user)) (allNotes s),
                     users := splice1 k (users s)\<rparr>)"
    using deleteAccount_Inr [OF ok] by metis
  with inv show "users_inv (snd (deleteAccount pw s))"
    by (simp add: users_inv_def session_ok_def map_splice1 distinct_splice1 logout_def)
qed

section \<open>Shapes of the successful note operations\<close>

lemma uploadNote_Inr:
  assumes "fst (uploadNote now isoNow fd s) = Inr v"
  shows "note_id v = now \<and> likeCount v = 0 \<and>
         snd (uploadNote now isoNow fd s) = s\<lparr>allNotes := allNotes s @ [v]\<rparr>"
  using assms by (auto simp: uploadNote_def Let_def split: option.splits prod.splits)

lemma deleteNote_Inr:
  assumes "fst (deleteNote i s) = Inr v"
  obtains k where "find_idx (\<lambda>n. note_id n = i) (allNotes s) = Some k"
    and "allNotes (snd (deleteNote i s)) = splice1 k (allNotes s)"
    and "likes (snd (deleteNote i s)) = filter (\<lambda>l. noteId l \<noteq> i) (likes s)"
  using assms
  by (cases "currentUser s"; cases "find_idx (\<lambda>n. note_id n = i) (allNotes s)")
     (auto simp: deleteNote_def split: if_splits)

lemma likeNote_Inr:
  assumes "fst (likeNote now isoNow i s) = Inr v"
  obtains c where "\<not> list_ex (is_like_of (cu_id (c :: cur_user)) i) (likes s)"
    and "likes (snd (likeNote now isoNow i s)) =
           likes s @ [\<lparr>like_id = now, userId = cu_id c, noteId = i, likedAt = isoNow\<rparr>]"
    and "allNotes (snd (likeNote now isoNow i s)) =
           (case find_idx (\<lambda>n. note_id n = i) (allNotes s) of None \<Rightarrow> allNotes s
            | Some k \<Rightarrow> (allNotes s)[k := (allNotes s ! k)\<lparr>likeCount := likeCount (allNotes s ! k) + 1\<rparr>])"
proof (cases "currentUser s")
  case None
  with assms show ?thesis by (simp add: likeNote_def)
next
  case (Some c)
  with assms show ?thesis by (intro that [of c]) (auto simp: likeNote_def Let_def split: if_splits)
qed

lemma unlikeNote_Inr:
  assumes "fst (unlikeNote i s) = Inr v"
  obtains c j where "find_idx (is_like_of (cu_id (c :: cur_user)) i) (likes s) = Some j"
    and "likes (snd (unlikeNote i s)) = splice1 j (likes s)"
    and "allNotes (snd (unlikeNote i s)) =
           (case find_idx (\<lambda>n. note_id n = i) (allNotes s) of None \<Rightarrow> allNotes s
            | Some k \<Rightarrow> (allNotes s)[k := (allNotes s ! k)\<lparr>likeCount := likeCount (allNotes s ! k) - 1\<rparr>])"
proof (cases "currentUser s")
  case None
  with assms show ?thesis by (simp add: unlikeNote_def)
next
  case (Some c)
  show ?thesis
  proof (cases "find_idx (is_like_of (cu_id c) i) (likes s)")
    case None
    with assms Some show ?thesis by (simp add: unlikeNote_def del: find_idx_None_iff)
  next
    case (Some j)
    with assms \<open>currentUser s = Some c\<close> show ?thesis
      by (intro that [of c j]) (simp_all add: unlikeNote_def Let_def)
  qed
qed

text \<open>With distinct note ids, the code's update of the note found by \<open>findIndex\<close>
  (if any) is a map over all notes that touches the note of that id only.\<close>

lemma update_by_id:
  assumes "distinct (map note_id xs)"
  shows "(case find_idx (\<lambda>n. note_id n = i) xs of None \<Rightarrow> xs | Some k \<Rightarrow> xs[k := f (xs ! k)]) =
         map (\<lambda>n. if note_id n = i then f n else n) xs"
proof (cases "find_idx (\<lambda>n. note_id n = i) xs")
  case None
  moreover have "\<forall>x\<in>set xs. note_id x \<noteq> i" using None by simp
  ultimately show ?thesis by (simp add: map_idI del: find_idx_None_iff)
next
  case (Some k)
  have "\<forall>j<length xs. note_id (xs ! j) = i \<longrightarrow> j = k"
    using assms find_idx_Some_nth [OF Some] find_idx_Some_less [OF Some]
    by (auto simp: distinct_conv_nth)
  with Some show ?thesis by (simp add: update_at_find_idx)
qed

lemma remove1_distinct_key:
  assumes "distinct (map f xs)" and "x \<in> set xs" and "y \<in> set (remove1 x xs)"
  shows "y \<in> set xs \<and> f y \<noteq> f x"
proof -
  from assms(1) have "distinct xs" "inj_on f (set xs)" by (simp_all add: distinct_map)
  with assms(2,3) show ?thesis by (auto simp: inj_on_def set_remove1_eq)
qed

lemma like_count_append [simp]: "like_count (xs @ ys) i = like_count xs i + like_count ys i"
  and like_count_single [simp]: "like_count [l] i = (if noteId l = i then 1 else 0)"
  and like_count_filter [simp]:
    "like_count (filter (\<lambda>l. noteId l \<noteq> j) xs) i = (if i = j then 0 else like_count xs i)"
  by (auto simp: like_count_def filter_filter intro: arg_cong [where f = length] filter_cong)

lemma note_ids_update_by_id:
  "(\<And>n. note_id (f n) = note_id n) \<Longrightarrow>
   map note_id (map (\<lambda>n. if note_id n = i then f n else n) xs) = map note_id xs"
  by (induction xs) auto

lemma like_count_none: "i \<notin> noteId ` set ls \<Longrightarrow> like_count ls i = 0"
  by (auto simp: like_count_def filter_empty_conv)

lemma like_count_splice1:
  "j < length ls \<Longrightarrow>
   like_count (splice1 j ls) i = like_count ls i - (if noteId (ls ! j) = i then 1 else 0)"
  by (simp add: like_count_def count_filter_splice1)

section \<open>Frame of the operations that leave notes' ids and counters and the likes alone\<close>

lemma notes_inv_frame:
  "notes_inv s \<Longrightarrow> map note_id (allNotes t) = map note_id (allNotes s) \<Longrightarrow> likes t = likes s \<Longrightarrow>
   notes_inv t"
  by (simp add: notes_inv_def)

lemma counts_inv_frame:
  assumes "counts_inv s"
    and eq: "map (\<lambda>n. (note_id n, likeCount n)) (allNotes t) = map (\<lambda>n. (note_id n, likeCount n)) (allNotes s)"
    and "likes t = likes s"
  shows "counts_inv t"
  unfolding counts_inv_def
proof
  fix n assume "n \<in> set (allNotes t)"
  then have "(note_id n, likeCount n) \<in> set (map (\<lambda>n. (note_id n, likeCount n)) (allNotes t))"
    by simp
  then have "(note_id n, likeCount n) \<in> set (map (\<lambda>n. (note_id n, likeCount n)) (allNotes s))"
    by (simp only: eq)
  then obtain m where "m \<in> set (allNotes s)" "note_id m = note_id n" "likeCount m = likeCount n"
    by auto
  with assms(1,3) show "likeCount n = like_count (likes t) (note_id n)"
    by (auto simp: counts_inv_def)
qed

fun store_frame_op :: "op \<Rightarrow> bool" where
  "store_frame_op (FetchNotes _ _) = True"
| "store_frame_op (SearchNotes _ _ _) = True"
| "store_frame_op (GetMyNotes _ _) = True"
| "store_frame_op GetLikedNotes = True"
| "store_frame_op (Register _ _ _ _ _) = True"
| "store_frame_op (Login _ _) = True"
| "store_frame_op Logout = True"
| "store_frame_op (UpdateProfile _ _) = True"
| "store_frame_op (ChangePassword _ _) = True"
| "store_frame_op Reload = True"
| "store_frame_op _ = False"

lemma store_frame:
  assumes "store_frame_op a"
  shows "allNotes (snd (exec a s)) = allNotes s \<and> likes (snd (exec a s)) = likes s"
  using assms
  by (cases a)
     (simp_all add: fetchNotes_def searchNotes_def getMyNotes_def getLikedNotes_def register_def
        login_def logout_def updateProfile_def changePassword_def auth_init_def Let_def
        split: option.split if_split prod.split)

fun counter_frame_op :: "op \<Rightarrow> bool" where
  "counter_frame_op (GetNoteById _) = True"
| "counter_frame_op (DownloadNote _ _) = True"
| "counter_frame_op (ToggleNotePrivacy _) = True"
| "counter_frame_op _ = False"

text \<open>Viewing, downloading and switching privacy change one note in place, but
  neither its id nor its like counter.\<close>

lemma counter_frame:
  assumes "counter_frame_op a"
  shows "map (\<lambda>n. (note_id n, likeCount n)) (allNotes (snd (exec a s))) =
           map (\<lambda>n. (note_id n, likeCount n)) (allNotes s) \<and>
         likes (snd (exec a s)) = likes s"
  using assms
  by (cases a)
     (simp_all add: getNoteById_def downloadNote_def toggleNotePrivacy_def Let_def map_update_same
        split: option.split if_split)

section \<open>Each note operation keeps \<open>notes_inv\<close> and \<open>counts_inv\<close>\<close>

lemma uploadNote_inv [store_inv]:
  assumes "notes_inv s" and "clock_fresh now s"
  shows "notes_inv (snd (uploadNote now isoNow fd s)) \<and> (counts_inv s \<longrightarrow> counts_inv (snd (uploadNote now isoNow fd s)))"
proof (rule result_inv [of "\<lambda>t. notes_inv t \<and> (counts_inv s \<longrightarrow> counts_inv t)", OF _ uploadNote_Inl])
  show "notes_inv s \<and> (counts_inv s \<longrightarrow> counts_inv s)" using assms by simp
  fix v assume "fst (uploadNote now isoNow fd s) = Inr v"
  then have v: "note_id v = now" "likeCount v = 0"
    and st: "snd (uploadNote now isoNow fd s) = s\<lparr>allNotes := allNotes s @ [v]\<rparr>"
    by (simp_all add: uploadNote_Inr)
  have "like_count (likes s) now = 0"
    using assms(2) by (simp add: clock_fresh_def like_count_none)
  with assms v show "notes_inv (snd (uploadNote now isoNow fd s)) \<and>
      (counts_inv s \<longrightarrow> counts_inv (snd (uploadNote now isoNow fd s)))"
    by (auto simp: st notes_inv_def counts_inv_def clock_fresh_def)
qed

lemma deleteNote_inv [store_inv]:
  assumes "notes_inv s"
  shows "notes_inv (snd (deleteNote i s)) \<and> (counts_inv s \<longrightarrow> counts_inv (snd (deleteNote i s)))"
proof (rule result_inv [of "\<lambda>t. notes_inv t \<and> (counts_inv s \<longrightarrow> counts_inv t)", OF _ deleteNote_Inl])
  show "notes_inv s \<and> (counts_inv s \<longrightarrow> counts_inv s)" using assms by simp
  fix v assume "fst (deleteNote i s) = Inr v"
  then obtain k where k: "find_idx (\<lambda>n. note_id n = i) (allNotes s) = Some k"
    and ns: "allNotes (snd (deleteNote i s)) = splice1 k (allNotes s)"
    and ls: "likes (snd (deleteNote i s)) = filter (\<lambda>l. noteId l \<noteq> i) (likes s)"
    by (rule deleteNote_Inr)
  have d: "distinct (map note_id (allNotes s))" using assms(1) by (simp add: notes_inv_def)
  have kin: "allNotes s ! k \<in> set (allNotes s)" and ki: "note_id (allNotes s ! k) = i"
    using find_idx_nth_mem [OF k] find_idx_Some_nth [OF k] by simp_all
  have mem: "n \<in> set (allNotes s) \<and> note_id n \<noteq> i" if "n \<in> set (allNotes (snd (deleteNote i s)))" for n
  proof -
    from that have "n \<in> set (remove1 (allNotes s ! k) (allNotes s))"
      by (simp only: ns splice1_find_idx [OF k])
    with remove1_distinct_key [OF d kin, of n] ki show ?thesis by simp
  qed
  have "counts_inv s \<longrightarrow> counts_inv (snd (deleteNote i s))"
    unfolding counts_inv_def
  proof (intro impI ballI)
    fix n assume c: "\<forall>n\<in>set (allNotes s). likeCount n = like_count (likes s) (note_id n)"
      and "n \<in> set (allNotes (snd (deleteNote i s)))"
    with mem have "n \<in> set (allNotes s)" and "note_id n \<noteq> i" by blast+
    with c show "likeCount n = like_count (likes (snd (deleteNote i s))) (note_id n)"
      by (simp add: ls)
  qed
  moreover have "distinct (map note_id (splice1 k (allNotes s)))"
    using d by (simp only: map_splice1 distinct_splice1)
  then have "notes_inv (snd (deleteNote i s))"
    using assms(1) by (simp add: notes_inv_def ns ls distinct_map_filter)
  ultimately show "notes_inv (snd (deleteNote i s)) \<and> (counts_inv s \<longrightarrow> counts_inv (snd (deleteNote i s)))" by simp
qed

lemma likeNote_inv [store_inv]:
  assumes "notes_inv s"
  shows "notes_inv (snd (likeNote now isoNow i s)) \<and> (counts_inv s \<longrightarrow> counts_inv (snd (likeNote now isoNow i s)))"
proof (rule result_inv [of "\<lambda>t. notes_inv t \<and> (counts_inv s \<longrightarrow> counts_inv t)", OF _ likeNote_Inl])
  show "notes_inv s \<and> (counts_inv s \<longrightarrow> counts_inv s)" using assms by simp
  fix v assume "fst (likeNote now isoNow i s) = Inr v"
  then obtain c where new: "\<not> list_ex (is_like_of (cu_id (c :: cur_user)) i) (likes s)"
    and ls: "likes (snd (likeNote now isoNow i s)) =
           likes s @ [\<lparr>like_id = now, userId = cu_id c, noteId = i, likedAt = isoNow\<rparr>]"
    and ns0: "allNotes (snd (likeNote now isoNow i s)) =
           (case find_idx (\<lambda>n. note_id n = i) (allNotes s) of None \<Rightarrow> allNotes s
            | Some k \<Rightarrow> (allNotes s)[k := (allNotes s ! k)\<lparr>likeCount := likeCount (allNotes s ! k) + 1\<rparr>])"
    by (rule likeNote_Inr)
  have d: "distinct (map note_id (allNotes s))" using assms(1) by (simp add: notes_inv_def)
  have ns: "allNotes (snd (likeNote now isoNow i s)) =
      map (\<lambda>n. if note_id n = i then n\<lparr>likeCount := likeCount n + 1\<rparr> else n) (allNotes s)"
    using update_by_id [OF d, where i = i and f = "\<lambda>n. n\<lparr>likeCount := likeCount n + 1\<rparr>"] by (simp add: ns0)
  have "(cu_id c, i) \<notin> set (map (\<lambda>l. (userId l, noteId l)) (likes s))"
    using new by (auto simp: list_ex_iff is_like_of_def)
  with assms(1) d have "notes_inv (snd (likeNote now isoNow i s))"
    by (simp add: notes_inv_def ls ns note_ids_update_by_id del: map_map)
  moreover have "counts_inv s \<longrightarrow> counts_inv (snd (likeNote now isoNow i s))"
    by (auto simp: counts_inv_def ls ns)
  ultimately show "notes_inv (snd (likeNote now isoNow i s)) \<and> (counts_inv s \<longrightarrow> counts_inv (snd (likeNote now isoNow i s)))"
    by simp
qed

lemma unlikeNote_inv [store_inv]:
  assumes "notes_inv s"
  shows "notes_inv (snd (unlikeNote i s)) \<and> (counts_inv s \<longrightarrow> counts_inv (snd (unlikeNote i s)))"
proof (rule result_inv [of "\<lambda>t. notes_inv t \<and> (counts_inv s \<longrightarrow> counts_inv t)", OF _ unlikeNote_Inl])
  show "notes_inv s \<and> (counts_inv s \<longrightarrow> counts_inv s)" using assms by simp
  fix v assume "fst (unlikeNote i s) = Inr v"
  then obtain c j where j: "find_idx (is_like_of (cu_id (c :: cur_user)) i) (likes s) = Some j"
    and ls: "likes (snd (unlikeNote i s)) = splice1 j (likes s)"
    and ns0: "allNotes (snd (unlikeNote i s)) =
           (case find_idx (\<lambda>n. note_id n = i) (allNotes s) of None \<Rightarrow> allNotes s
            | Some k \<Rightarrow> (allNotes s)[k := (allNotes s ! k)\<lparr>likeCount := likeCount (allNotes s ! k) - 1\<rparr>])"
    by (rule unlikeNote_Inr)
  have d: "distinct (map note_id (allNotes s))" using assms(1) by (simp add: notes_inv_def)
  have ns: "allNotes (snd (unlikeNote i s)) =
      map (\<lambda>n. if note_id n = i then n\<lparr>likeCount := likeCount n - 1\<rparr> else n) (allNotes s)"
    using update_by_id [OF d, where i = i and f = "\<lambda>n. n\<lparr>likeCount := likeCount n - 1\<rparr>"] by (simp add: ns0)
  have jl: "j < length (likes s)" and ji: "noteId (likes s ! j) = i"
    using find_idx_Some_less [OF j] find_idx_Some_nth [OF j] by (simp_all add: is_like_of_def)
  have cnt: "like_count (likes (snd (unlikeNote i s))) x = like_count (likes s) x - (if i = x then 1 else 0)"
    for x using like_count_splice1 [OF jl, of x] ji by (simp add: ls)
  from assms(1) d have "notes_inv (snd (unlikeNote i s))"
    by (simp add: notes_inv_def ls ns note_ids_update_by_id map_splice1 distinct_splice1 del: map_map)
  moreover have "counts_inv s \<longrightarrow> counts_inv (snd (unlikeNote i s))"
    by (auto simp: counts_inv_def cnt ns)
  ultimately show "notes_inv (snd (unlikeNote i s)) \<and> (counts_inv s \<longrightarrow> counts_inv (snd (unlikeNote i s)))"
    by simp
qed

lemma updateNote_Inr:
  assumes "fst (updateNote i u s) = Inr v"
  obtains k where "find_idx (\<lambda>n. note_id n = i) (allNotes s) = Some k"
    and "snd (updateNote i u s) = s\<lparr>allNotes := (allNotes s)[k :=
           (spread_patch (allNotes s ! k) u)\<lparr>note_id := note_id (allNotes s ! k),
              uploadedBy := uploadedBy (allNotes s ! k), uploadedAt := uploadedAt (allNotes s ! k)\<rparr>]\<rparr>"
  using assms
  by (cases "currentUser s"; cases "find_idx (\<lambda>n. note_id n = i) (allNotes s)")
     (auto simp: updateNote_def Let_def split: if_splits)

lemma updateNote_notes_inv [store_inv]:
  assumes "notes_inv s"
  shows "notes_inv (snd (updateNote i u s))"
proof (rule result_inv [of notes_inv, OF assms updateNote_Inl])
  fix v assume "fst (updateNote i u s) = Inr v"
  then obtain k where "snd (updateNote i u s) = s\<lparr>allNotes := (allNotes s)[k :=
           (spread_patch (allNotes s ! k) u)\<lparr>note_id := note_id (allNotes s ! k),
              uploadedBy := uploadedBy (allNotes s ! k), uploadedAt := uploadedAt (allNotes s ! k)\<rparr>]\<rparr>"
    by (rule updateNote_Inr)
  with assms show "notes_inv (snd (updateNote i u s))"
    by (simp add: notes_inv_def map_update_same)
qed

lemma deleteAccount_notes_inv [store_inv]:
  assumes "notes_inv s"
  shows "notes_inv (snd (deleteAccount pw s)) \<and> (counts_inv s \<longrightarrow> counts_inv (snd (deleteAccount pw s)))"
proof (rule result_inv [of "\<lambda>t. notes_inv t \<and> (counts_inv s \<longrightarrow> counts_inv t)", OF _ deleteAccount_Inl])
  show "notes_inv s \<and> (counts_inv s \<longrightarrow> counts_inv s)" using assms by simp
  fix v assume ok: "fst (deleteAccount pw s) = Inr v"
  obtain c k where "snd (deleteAccount pw s) =
           logout (s\<lparr>allNotes := filter (\<lambda>n. uploadedBy n \<noteq> cu_id (c :: cur_user)) (allNotes s),
                     users := splice1 k (users s)\<rparr>)"
    using deleteAccount_Inr [OF ok] by metis
  with assms show "notes_inv (snd (deleteAccount pw s)) \<and>
      (counts_inv s \<longrightarrow> counts_inv (snd (deleteAccount pw s)))"
    by (simp add: notes_inv_def counts_inv_def logout_def distinct_map_filter)
qed

section \<open>Every step keeps the invariants\<close>

lemma notes_op_users_inv: "notes_op a \<Longrightarrow> users_inv s \<Longrightarrow> users_inv (snd (exec a s))"
  using notes_op_frame [of a s] by (auto intro: users_inv_frame)

lemma exec_users_inv:
  assumes "users_inv s" and "op_fresh a s"
  shows "users_inv (snd (exec a s))"
proof (cases "notes_op a")
  case True
  then show ?thesis using assms(1) by (rule notes_op_users_inv)
next
  case False
  with assms show ?thesis
    by (cases a) (simp_all add: register_users_inv login_users_inv logout_users_inv
        auth_init_users_inv updateProfile_users_inv changePassword_users_inv deleteAccount_users_inv)
qed

lemma exec_notes_inv:
  assumes "notes_inv s" and "op_fresh a s"
  shows "notes_inv (snd (exec a s)) \<and> (ui_op a \<longrightarrow> counts_inv s \<longrightarrow> counts_inv (snd (exec a s)))"
proof (cases "store_frame_op a \<or> counter_frame_op a")
  case True
  then have "map (\<lambda>n. (note_id n, likeCount n)) (allNotes (snd (exec a s))) =
               map (\<lambda>n. (note_id n, likeCount n)) (allNotes s) \<and> likes (snd (exec a s)) = likes s"
    using store_frame [of a s] counter_frame [of a s] by auto
  moreover from this have "map note_id (allNotes (snd (exec a s))) = map note_id (allNotes s)"
    by (blast dest: map_pair_fst)
  ultimately show ?thesis using assms(1)
    by (blast intro: notes_inv_frame counts_inv_frame)
next
  case False
  with assms show ?thesis
    by (cases a) (simp_all add: uploadNote_inv deleteNote_inv likeNote_inv unlikeNote_inv
        updateNote_notes_inv deleteAccount_notes_inv)
qed

section \<open>The invariants of reachable states\<close>

lemma init_invs: "users_inv init_app \<and> notes_inv init_app \<and> counts_inv init_app"
  by (simp add: init_app_def users_inv_def session_ok_def notes_inv_def counts_inv_def)

lemma reachable_invs: "reachable allowed s \<Longrightarrow> users_inv s \<and> notes_inv s"
proof (induction rule: reachable.induct)
  case reach_init
  then show ?case using init_invs by simp
next
  case (reach_step s a t)
  from \<open>step a s t\<close> show ?case
    by (cases rule: step.cases) (simp add: exec_users_inv exec_notes_inv reach_step.IH)
qed

lemma reachable_ui_counts: "reachable ui_op s \<Longrightarrow> notes_inv s \<and> counts_inv s"
proof (induction rule: reachable.induct)
  case reach_init
  then show ?case using init_invs by simp
next
  case (reach_step s a t)
  from \<open>step a s t\<close> show ?case
    using exec_notes_inv [of s a] reach_step.IH \<open>ui_op a\<close> by (cases rule: step.cases) simp
qed

end
