(* ===== verification/Pages.thy ===== *)
theory Pages
  imports Invariants
begin

text \<open>
  The handlers of the pages and of the note card that call the contexts: the note
  card (src/components/NoteCard.jsx), the listing page (src/pages/NotesList.jsx), the
  note page (src/pages/NoteDetails.jsx), the profile page (src/pages/Profile.jsx) and
  the navigation bar (src/components/Navbar.jsx).
  Each handler is a function of its component's React state and the application
  state, returning both; navigation is a value (\<open>ToLogin\<close>), toasts and rendering
  are not modelled. AuthProvider's \<open>isAuthenticated\<close> is set together with its
  \<open>user\<close> on every path (init effect, \<open>register\<close>, \<open>login\<close>, \<open>logout\<close>), so it is
  \<open>authUser \<noteq> None\<close> here.
\<close>

definition isAuthenticated :: "app \<Rightarrow> bool" where
  "isAuthenticated s \<longleftrightarrow> authUser s \<noteq> None"

datatype nav = Stay | ToLogin | ToNotes

section \<open>NoteCard\<close>

text \<open>The card's own state, initialised from the listed note:
  \<open>note.hasLiked || false\<close> (no operation sets \<open>hasLiked\<close>, so it is \<open>false\<close>),
  \<open>note.likeCount || 0\<close> and \<open>note.isPrivate || false\<close>.\<close>

record card =
  c_isLiked :: bool
  c_likeCount :: int
  c_isPrivate :: bool

definition card_init :: "note_info \<Rightarrow> card" where
  "card_init n = \<lparr>c_isLiked = False, c_likeCount = int (likeCount n), c_isPrivate = isPrivate n\<rparr>"

definition card_isOwner :: "app \<Rightarrow> note_info \<Rightarrow> bool" where
  "card_isOwner s n \<longleftrightarrow> isAuthenticated s \<and> (case authUser s of None \<Rightarrow> False | Some u \<Rightarrow> cu_id u = uploadedBy n)"

text \<open>\<open>handleDownload\<close>: a 401 answer (no stored session) sends the user to the
  login page.\<close>

definition card_handleDownload :: "note_info \<Rightarrow> app \<Rightarrow> nav \<times> app" where
  "card_handleDownload n s =
     (if \<not> isAuthenticated s then (ToLogin, s)
      else case downloadNote (note_id n) (title n) s of
        (Inl NotAuthenticated, s') \<Rightarrow> (ToLogin, s')
      | (_, s') \<Rightarrow> (Stay, s'))"

text \<open>\<open>handleLike\<close>: the card's \<open>isLiked\<close> decides between \<open>unlikeNote\<close> and
  \<open>likeNote\<close>; on success the card flips and moves its counter by one.\<close>

definition card_handleLike :: "millis \<Rightarrow> millis \<Rightarrow> note_info \<Rightarrow> card \<Rightarrow> app \<Rightarrow> (nav \<times> card) \<times> app" where
  "card_handleLike now isoNow n c s =
     (if \<not> isAuthenticated s then ((ToLogin, c), s)
      else if c_isLiked c then
        (case unlikeNote (note_id n) s of
           (Inr _, s') \<Rightarrow> ((Stay, c\<lparr>c_isLiked := False, c_likeCount := c_likeCount c - 1\<rparr>), s')
         | (Inl _, s') \<Rightarrow> ((Stay, c), s'))
      else
        (case likeNote now isoNow (note_id n) s of
           (Inr _, s') \<Rightarrow> ((Stay, c\<lparr>c_isLiked := True, c_likeCount := c_likeCount c + 1\<rparr>), s')
         | (Inl _, s') \<Rightarrow> ((Stay, c), s')))"

definition card_handleTogglePrivacy :: "note_info \<Rightarrow> card \<Rightarrow> app \<Rightarrow> card \<times> app" where
  "card_handleTogglePrivacy n c s =
     (case toggleNotePrivacy (note_id n) s of
        (Inr b, s') \<Rightarrow> (c\<lparr>c_isPrivate := b\<rparr>, s')
      | (Inl _, s') \<Rightarrow> (c, s'))"

text \<open>What the card should show for note \<open>i\<close> and user \<open>cu\<close>, read off the store:
  whether the user's like is stored, the stored counter and the stored flag.\<close>

definition card_view :: "cur_user \<Rightarrow> nid \<Rightarrow> app \<Rightarrow> card option" where
  "card_view cu i s =
     map_option (\<lambda>m. \<lparr>c_isLiked = list_ex (is_like_of (cu_id cu) i) (likes s),
                       c_likeCount = int (likeCount m), c_isPrivate = isPrivate m\<rparr>)
       (find (\<lambda>m. note_id m = i) (allNotes s))"

text \<open>\<open>handleDelete\<close> of the card: after \<open>window.confirm\<close>, the parent's
  \<open>onDelete\<close>; both parents (NotesList and Profile) pass their own \<open>handleDelete\<close>.\<close>

definition card_handleDelete :: "bool \<Rightarrow> (nid \<Rightarrow> app \<Rightarrow> app) \<Rightarrow> note_info \<Rightarrow> app \<Rightarrow> app" where
  "card_handleDelete confirmed onDelete n s = (if confirmed then onDelete (note_id n) s else s)"

section \<open>NotesList\<close>

text \<open>The page's state: the current page, the last filters and whether the listing
  is a search. The page asks for 20 notes a page (the default \<open>limit\<close>).\<close>

record notes_list =
  nl_currentPage :: int
  nl_searchQuery :: "search_filters option"
  nl_isSearching :: bool

definition notes_list_init :: notes_list where
  "notes_list_init = \<lparr>nl_currentPage = 1, nl_searchQuery = None, nl_isSearching = False\<rparr>"

text \<open>The effect that runs on mount and whenever \<open>currentPage\<close> changes.\<close>

definition notesList_load :: "notes_list \<Rightarrow> app \<Rightarrow> app" where
  "notesList_load st s =
     (case nl_searchQuery st of
        Some q \<Rightarrow> if nl_isSearching st then snd (searchNotes q (nl_currentPage st) 20 s)
                  else snd (fetchNotes (nl_currentPage st) 20 s)
      | None \<Rightarrow> snd (fetchNotes (nl_currentPage st) 20 s))"

definition has_search_criteria :: "search_filters \<Rightarrow> bool" where
  "has_search_criteria f \<longleftrightarrow> fq f \<noteq> [] \<or> fuserName f \<noteq> [] \<or> fsubject f \<noteq> [] \<or> fsemester f \<noteq> []"

text \<open>\<open>handleSearch\<close>: the handler stores the filters and loads page 1; when the
  page was not 1, \<open>setCurrentPage(1)\<close> changes \<open>currentPage\<close>, so the effect
  runs once more after the render, with the new state.\<close>

definition notesList_handleSearch :: "search_filters \<Rightarrow> notes_list \<Rightarrow> app \<Rightarrow> notes_list \<times> app" where
  "notesList_handleSearch f st s =
     (let st' = st\<lparr>nl_searchQuery := Some f, nl_isSearching := has_search_criteria f, nl_currentPage := 1\<rparr>;
          s' = (if has_search_criteria f then snd (searchNotes f 1 20 s) else snd (fetchNotes 1 20 s))
      in (st', if nl_currentPage st \<noteq> 1 then notesList_load st' s' else s'))"

text \<open>\<open>handlePageChange\<close>: \<open>setCurrentPage(page)\<close>; the effect reloads only when
  the page number changes (React skips the update of a state to its own value).\<close>

definition notesList_handlePageChange :: "int \<Rightarrow> notes_list \<Rightarrow> app \<Rightarrow> notes_list \<times> app" where
  "notesList_handlePageChange p st s =
     (if p = nl_currentPage st then (st, s)
      else let st' = st\<lparr>nl_currentPage := p\<rparr> in (st', notesList_load st' s))"

definition notesList_handleDelete :: "nid \<Rightarrow> app \<Rightarrow> app" where
  "notesList_handleDelete i s = snd (deleteNote i s)"

section \<open>NoteDetails\<close>

record details =
  d_note :: "note_info option"
  d_isPrivate :: bool

definition details_loadNote :: "nid \<Rightarrow> details \<Rightarrow> app \<Rightarrow> (nav \<times> details) \<times> app" where
  "details_loadNote i d s =
     (case getNoteById i s of
        (Inr r, s') \<Rightarrow> ((Stay, d\<lparr>d_note := Some r, d_isPrivate := isPrivate r\<rparr>), s')
      | (Inl _, s') \<Rightarrow> ((ToNotes, d), s'))"

definition details_handleDelete :: "bool \<Rightarrow> details \<Rightarrow> app \<Rightarrow> nav \<times> app" where
  "details_handleDelete confirmed d s =
     (case d_note d of
        None \<Rightarrow> (Stay, s)
      | Some n \<Rightarrow>
          if \<not> confirmed then (Stay, s)
          else case deleteNote (note_id n) s of
            (Inr _, s') \<Rightarrow> (ToNotes, s')
          | (Inl _, s') \<Rightarrow> (Stay, s'))"

definition details_handleTogglePrivacy :: "details \<Rightarrow> app \<Rightarrow> details \<times> app" where
  "details_handleTogglePrivacy d s =
     (case d_note d of
        None \<Rightarrow> (d, s)
      | Some n \<Rightarrow>
          (case toggleNotePrivacy (note_id n) s of
             (Inr b, s') \<Rightarrow> (d\<lparr>d_isPrivate := b\<rparr>, s')
           | (Inl _, s') \<Rightarrow> (d, s')))"

section \<open>Profile\<close>

text \<open>\<open>handleDelete(id)\<close>: delete, then reload the user's notes.\<close>

definition profile_handleDelete :: "nid \<Rightarrow> app \<Rightarrow> app" where
  "profile_handleDelete i s = snd (getMyNotes 1 20 (snd (deleteNote i s)))"

record password_form =
  pf_currentPassword :: string
  pf_newPassword :: string
  pf_confirmPassword :: string

text \<open>The messages of the profile forms. \<open>authAPI\<close>, which both forms call, is not
  defined anywhere: the call throws a \<open>ReferenceError\<close> inside the \<open>try\<close>, and the
  catch shows \<open>error.response?.data?.message || 'Failed to ...'\<close>, the fallback.\<close>

datatype profile_msg = PasswordsDiffer | PasswordTooShort | PasswordChangeError
  | PasswordRequired | AccountDeletionError

definition profile_handlePasswordChange :: "password_form \<Rightarrow> app \<Rightarrow> profile_msg \<times> app" where
  "profile_handlePasswordChange pd s =
     (if pf_newPassword pd \<noteq> pf_confirmPassword pd then (PasswordsDiffer, s)
      else if length (pf_newPassword pd) < 6 then (PasswordTooShort, s)
      else (PasswordChangeError, s))"

definition profile_handleAccountDeletion :: "string \<Rightarrow> app \<Rightarrow> profile_msg \<times> app" where
  "profile_handleAccountDeletion pw s =
     (if pw = [] then (PasswordRequired, s) else (AccountDeletionError, s))"

section \<open>Navbar\<close>

text \<open>The desktop links of the bar, by their targets, and \<open>handleLogout\<close>, which the
  logout confirmation runs.\<close>

definition navbar_links :: "app \<Rightarrow> string list" where
  "navbar_links s =
     ''/notes'' # (if isAuthenticated s then [''/upload'', ''/profile''] else [''/login'', ''/register''])"

definition navbar_handleLogout :: "app \<Rightarrow> nav \<times> app" where
  "navbar_handleLogout s = (ToLogin, logout s)"

section \<open>Facts for the card\<close>

lemma find_map_by_id:
  "(\<And>m. note_id (f m) = note_id m) \<Longrightarrow>
   find (\<lambda>m. note_id m = i) (map (\<lambda>m. if note_id m = i then f m else m) xs) =
   map_option f (find (\<lambda>m. note_id m = i) xs)"
  by (induction xs) auto

lemma like_unique_splice:
  assumes "distinct (map (\<lambda>l. (userId l, noteId l)) ls)" and "find_idx (is_like_of u i) ls = Some j"
  shows "\<not> list_ex (is_like_of u i) (splice1 j ls)"
proof
  assume "list_ex (is_like_of u i) (splice1 j ls)"
  then obtain l where l: "l \<in> set (remove1 (ls ! j) ls)" "is_like_of u i l"
    by (auto simp: list_ex_iff splice1_find_idx [OF assms(2)])
  have lj: "is_like_of u i (ls ! j)" "ls ! j \<in> set ls"
    using find_idx_Some_nth [OF assms(2)] find_idx_nth_mem [OF assms(2)] by simp_all
  from remove1_distinct_key [OF assms(1) lj(2) l(1)] l(2) lj(1) show False
    by (simp add: is_like_of_def)
qed

lemma liked_count_pos:
  assumes "counts_inv s" and "find (\<lambda>m. note_id m = i) (allNotes s) = Some m"
    and "list_ex (is_like_of u i) (likes s)"
  shows "1 \<le> likeCount m"
proof -
  have "m \<in> set (allNotes s)" and "note_id m = i"
    using assms(2) by (auto simp: find_Some_iff nth_mem)
  then have "likeCount m = like_count (likes s) i" using assms(1) by (simp add: counts_inv_def)
  moreover have "like_count (likes s) i \<noteq> 0"
    using assms(3) by (auto simp: like_count_def list_ex_iff is_like_of_def filter_empty_conv)
  ultimately show ?thesis by simp
qed

text \<open>On a store with unique note ids, a successful \<open>unlikeNote\<close> and \<open>likeNote\<close>
  are these updates: the like goes or comes, and the counter of the note with the id
  moves by one.\<close>

lemma unlikeNote_by_id:
  assumes d: "distinct (map note_id (allNotes s))" and cur: "currentUser s = Some cu"
    and j: "find_idx (is_like_of (cu_id cu) i) (likes s) = Some j"
  shows "unlikeNote i s = (Inr (), s\<lparr>likes := splice1 j (likes s),
      allNotes := map (\<lambda>n. if note_id n = i then n\<lparr>likeCount := likeCount n - 1\<rparr> else n) (allNotes s)\<rparr>)"
  using cur j update_by_id [OF d, where i = i and f = "\<lambda>n. n\<lparr>likeCount := likeCount n - 1\<rparr>"]
  by (simp add: unlikeNote_def Let_def del: find_idx_None_iff)

lemma likeNote_by_id:
  assumes d: "distinct (map note_id (allNotes s))" and cur: "currentUser s = Some cu"
    and fresh: "\<not> list_ex (is_like_of (cu_id cu) i) (likes s)"
  shows "likeNote now isoNow i s = (Inr (), s\<lparr>likes := likes s @
          [\<lparr>like_id = now, userId = cu_id cu, noteId = i, likedAt = isoNow\<rparr>],
        allNotes := map (\<lambda>n. if note_id n = i then n\<lparr>likeCount := likeCount n + 1\<rparr> else n) (allNotes s)\<rparr>)"
  using cur fresh update_by_id [OF d, where i = i and f = "\<lambda>n. n\<lparr>likeCount := likeCount n + 1\<rparr>"]
  by (simp add: likeNote_def Let_def del: find_idx_None_iff)

lemma session_current: "users_inv s \<Longrightarrow> authUser s = Some cu \<Longrightarrow> currentUser s = Some cu"
  by (simp add: users_inv_def session_ok_def)

section \<open>Properties of the card\<close>

text \<open>C14: the card refines the store. When the card shows what the store holds for
  its note (whether the user's like is stored, the stored counter and privacy flag),
  a click on the like button keeps it so: after \<open>handleLike\<close> the card again shows
  exactly the store's state of that note. This needs the store invariants (unique
  ids and likes, counters equal to the stored likes) and a consistent session.\<close>

theorem card_handleLike_refines:
  assumes inv: "users_inv s" "notes_inv s" "counts_inv s"
    and cu: "authUser s = Some cu" and view: "card_view cu (note_id n) s = Some c"
  shows "card_view cu (note_id n) (snd (card_handleLike now isoNow n c s)) =
           Some (snd (fst (card_handleLike now isoNow n c s)))"
proof -
  define i where "i = note_id n"
  have cur: "currentUser s = Some cu" using session_current [OF inv(1) cu] .
  have auth: "isAuthenticated s" using cu by (simp add: isAuthenticated_def)
  have d: "distinct (map note_id (allNotes s))"
    and dl: "distinct (map (\<lambda>l. (userId l, noteId l)) (likes s))"
    using inv(2) by (simp_all add: notes_inv_def)
  from view obtain m where m: "find (\<lambda>m. note_id m = i) (allNotes s) = Some m"
    and c: "c = \<lparr>c_isLiked = list_ex (is_like_of (cu_id cu) i) (likes s),
                 c_likeCount = int (likeCount m), c_isPrivate = isPrivate m\<rparr>"
    by (auto simp: card_view_def i_def)
  show ?thesis
  proof (cases "list_ex (is_like_of (cu_id cu) i) (likes s)")
    case True
    then obtain j where j: "find_idx (is_like_of (cu_id cu) i) (likes s) = Some j"
      using find_idx_exists [where xs = "likes s" and P = "is_like_of (cu_id cu) i"] by (auto simp: list_ex_iff)
    have "c_isLiked c" using True c by simp
    with auth unlikeNote_by_id [OF d cur j] have "card_handleLike now isoNow n c s =
        ((Stay, c\<lparr>c_isLiked := False, c_likeCount := c_likeCount c - 1\<rparr>),
         s\<lparr>likes := splice1 j (likes s),
           allNotes := map (\<lambda>n. if note_id n = i then n\<lparr>likeCount := likeCount n - 1\<rparr> else n) (allNotes s)\<rparr>)"
      by (simp add: card_handleLike_def i_def)
    then show ?thesis
      using liked_count_pos [OF inv(3) m True] m like_unique_splice [OF dl j]
      by (simp add: c i_def [symmetric] card_view_def find_map_by_id of_nat_diff)
  next
    case False
    have "\<not> c_isLiked c" using False c by simp
    with auth likeNote_by_id [OF d cur False] have "card_handleLike now isoNow n c s =
        ((Stay, c\<lparr>c_isLiked := True, c_likeCount := c_likeCount c + 1\<rparr>),
         s\<lparr>likes := likes s @ [\<lparr>like_id = now, userId = cu_id cu, noteId = i, likedAt = isoNow\<rparr>],
           allNotes := map (\<lambda>n. if note_id n = i then n\<lparr>likeCount := likeCount n + 1\<rparr> else n) (allNotes s)\<rparr>)"
      by (simp add: card_handleLike_def i_def)
    then show ?thesis
      using m by (simp add: c i_def [symmetric] card_view_def find_map_by_id is_like_of_def)
  qed
qed

text \<open>C27: a card mounted for a note its user has already liked starts as not liked
  (\<open>hasLiked\<close> is never set), so its like button calls \<open>likeNote\<close>, which refuses:
  the click changes neither the card nor the store, and the user cannot unlike the
  note from a card.\<close>

theorem card_fresh_liked_stuck:
  assumes "authUser s \<noteq> None" and "currentUser s = Some c"
    and "list_ex (is_like_of (cu_id c) (note_id n)) (likes s)"
  shows "card_handleLike now isoNow n (card_init n) s = ((Stay, card_init n), s)"
  using assms by (simp add: card_handleLike_def card_init_def isAuthenticated_def likeNote_def)

lemma listing_reload:
  "snd (fetchNotes p l (snd (fetchNotes p' l' s))) = snd (fetchNotes p l s)"
  "snd (searchNotes f p l (snd (searchNotes f' p' l' s))) = snd (searchNotes f p l s)"
  "snd (fetchNotes p l (snd (searchNotes f' p' l' s))) = snd (fetchNotes p l s)"
  "snd (searchNotes f p l (snd (fetchNotes p' l' s))) = snd (searchNotes f p l s)"
  by (simp_all add: fetchNotes_def searchNotes_def Let_def split: prod.split)

text \<open>The second load that \<open>handleSearch\<close> causes off page 1 repeats the first.\<close>

lemma notesList_handleSearch_snd:
  "snd (notesList_handleSearch f st s) =
     (if has_search_criteria f then snd (searchNotes f 1 20 s) else snd (fetchNotes 1 20 s))"
  by (simp add: notesList_handleSearch_def notesList_load_def Let_def listing_reload)

section \<open>Properties of the pages\<close>

text \<open>the listing page runs a search only when the query, the uploader, the
  subject or the semester is set. A submit of the SearchBar with only a sort choice
  shows the date-sorted listing of \<open>fetchNotes\<close>, whatever key and order were
  chosen.\<close>

theorem notesList_sort_only_ignored:
  assumes "js_trim q = []" and "b_userName b = []" and "b_subject b = []" and "b_semester b = []"
  shows "snd (notesList_handleSearch (searchbar_submit q b) st s) = snd (fetchNotes 1 20 s)"
  using assms by (simp add: notesList_handleSearch_snd has_search_criteria_def searchbar_submit_def)

lemma deleteNote_currentUser: "currentUser (snd (deleteNote i s)) = currentUser s"
  by (simp add: deleteNote_def split: option.split)

text \<open>After \<open>deleteNote\<close>, whether it succeeded or not, no note of the user has the
  id asked for.\<close>

lemma deleteNote_owned_gone:
  assumes cur: "currentUser s = Some c" and inv: "notes_inv s"
    and m: "m \<in> set (allNotes (snd (deleteNote i s)))" and own: "uploadedBy m = cu_id c"
  shows "note_id m \<noteq> i"
proof (cases "find_idx (\<lambda>n. note_id n = i) (allNotes s)")
  case None
  with cur m show ?thesis by (simp add: deleteNote_def del: find_idx_None_iff) auto
next
  case (Some k)
  have d: "distinct (map note_id (allNotes s))" using inv by (simp add: notes_inv_def)
  have kin: "allNotes s ! k \<in> set (allNotes s)" and ki: "note_id (allNotes s ! k) = i"
    and kl: "k < length (allNotes s)"
    using find_idx_nth_mem [OF Some] find_idx_Some_nth [OF Some] find_idx_Some_less [OF Some] by simp_all
  show ?thesis
  proof (cases "uploadedBy (allNotes s ! k) = cu_id c")
    case True
    with cur Some have "allNotes (snd (deleteNote i s)) = remove1 (allNotes s ! k) (allNotes s)"
      by (simp add: deleteNote_def splice1_find_idx [OF Some])
    with m remove1_distinct_key [OF d kin, of m] ki show ?thesis by simp
  next
    case False
    with cur Some have "allNotes (snd (deleteNote i s)) = allNotes s" by (simp add: deleteNote_def)
    with m have "m \<in> set (allNotes s)" by simp
    show ?thesis
    proof
      assume "note_id m = i"
      with d \<open>m \<in> set (allNotes s)\<close> kl ki have "allNotes s ! k = m" by (simp add: distinct_id_nth)
      with False own show False by simp
    qed
  qed
qed

lemma getMyNotes_shown:
  assumes "currentUser s = Some c" and "n \<in> set (shown (snd (getMyNotes p l s)))"
  shows "\<exists>m\<in>set (allNotes s). uploadedBy m = cu_id c \<and> note_id n = note_id m"
proof -
  let ?xs = "map (\<lambda>n. note_obj.extend n (note_info.fields (cu_name c) (cu_email c) None))
              (filter (\<lambda>n. uploadedBy n = cu_id c) (allNotes s))"
  have "shown (snd (getMyNotes p l s)) = fst (calculatePagination (js_sort date_desc_cmp ?xs) p l)"
    using assms(1) by (simp add: getMyNotes_def Let_def split: prod.split)
  then have "n \<in> set ?xs"
    using assms(2) set_calculatePagination [of "js_sort date_desc_cmp ?xs" p l] by auto
  then show ?thesis by (auto simp: note_obj.defs)
qed

text \<open>The Profile page's delete removes the note from the user's list: after
  \<open>handleDelete(id)\<close> (\<open>deleteNote\<close> then \<open>getMyNotes\<close>) no listed note has that
  id, for a logged-in user in a store with unique note ids.\<close>

theorem profile_handleDelete_gone:
  assumes "currentUser s = Some c" and "notes_inv s"
  shows "i \<notin> note_id ` set (shown (profile_handleDelete i s))"
proof
  assume "i \<in> note_id ` set (shown (profile_handleDelete i s))"
  then obtain n where n: "n \<in> set (shown (snd (getMyNotes 1 20 (snd (deleteNote i s)))))" "note_id n = i"
    by (auto simp: profile_handleDelete_def)
  have "currentUser (snd (deleteNote i s)) = Some c" using assms(1) by (simp add: deleteNote_currentUser)
  from getMyNotes_shown [OF this n(1)] obtain m where
    "m \<in> set (allNotes (snd (deleteNote i s)))" "uploadedBy m = cu_id c" "note_id n = note_id m" by blast
  with deleteNote_owned_gone [OF assms] n(2) show False by auto
qed

text \<open>The Profile page's password and account forms never reach the store:
  even a valid password change (matching confirmation, at least 6 characters) and a
  non-empty deletion password end with the fallback error and an unchanged state,
  because \<open>authAPI\<close> is undefined.\<close>

theorem profile_forms_always_fail:
  assumes "pf_newPassword pd = pf_confirmPassword pd" and "6 \<le> length (pf_newPassword pd)" and "pw \<noteq> []"
  shows "profile_handlePasswordChange pd s = (PasswordChangeError, s) \<and>
         profile_handleAccountDeletion pw s = (AccountDeletionError, s)"
  using assms by (simp add: profile_handlePasswordChange_def profile_handleAccountDeletion_def)

end
