(* ===== verification/Views.thy ===== *)
theory Views
  imports Pages
begin

text \<open>
  What the note card (src/components/NoteCard.jsx) and the note page
  (src/pages/NoteDetails.jsx) render, as the list of the elements they show, in
  document order: the texts and tags read off the note, the counters, and the
  buttons with their labels. The yellow privacy badge with its lock icon is a
  \<open>Badge\<close>, apart from the tags of the note's fields. Class names, icons, emoji, the date format of
  \<open>toLocaleDateString\<close> and the privacy confirmation modal are left out; what is kept
  decides which controls a user is offered. The properties connect the rendered
  controls to the handlers and the context operations they run.
\<close>

datatype widget =
    Heading string
  | Para string
  | Tag string
  | Badge string
  | Stat string int
  | LinkTo string
  | NoteLink nid
  | Btn string
  | Spinner
  | Input string
  | CardOf nid
  | Pager "control list"
  | Select string "(string \<times> string) list"
  | Alert string

section \<open>NoteCard\<close>

definition card_render :: "app \<Rightarrow> note_info \<Rightarrow> card \<Rightarrow> widget list" where
  "card_render s n c =
     [Heading (title n), Para (js_or (description n) ''No description provided'')] @
     (if schoolName n \<noteq> [] then [Tag (schoolName n)] else []) @
     (if disciplineName n \<noteq> [] then [Tag (disciplineName n)] else []) @
     [Tag (subject n), Tag (''Sem '' @ semester n)] @
     (if c_isPrivate c then [Badge ''Private''] else []) @
     [Stat ''views'' (int (viewCount n)), Stat ''downloads'' (int (downloads n)),
      Stat ''likes'' (c_likeCount c),
      Para (''By '' @ js_or (uploaderName n) ''Anonymous''),
      NoteLink (note_id n),
      Btn (if c_isLiked c then ''Unlike'' else ''Like''), Btn ''Download''] @
     (if card_isOwner s n
      then [Btn (if c_isPrivate c then ''Make Public'' else ''Make Private''), Btn ''Delete'']
      else [])"

section \<open>NoteDetails\<close>

definition details_isOwner :: "app \<Rightarrow> note_info \<Rightarrow> bool" where
  "details_isOwner s n \<longleftrightarrow>
     isAuthenticated s \<and> (case authUser s of None \<Rightarrow> False | Some u \<Rightarrow> cu_id u = uploadedBy n)"

text \<open>The page once \<open>loadNote\<close> has finished (\<open>loading\<close> is false again).\<close>

definition details_render :: "app \<Rightarrow> details \<Rightarrow> widget list" where
  "details_render s d =
     (case d_note d of
        None \<Rightarrow> [Para ''Note not found'', LinkTo ''/notes'']
      | Some n \<Rightarrow>
          [LinkTo ''/notes'', Heading (title n), Tag (subject n), Tag (''Semester '' @ semester n)] @
          (if d_isPrivate d then [Badge ''Private''] else []) @
          [Stat ''downloads'' (int (downloads n)),
           Para (js_or (description n) ''No description provided''),
           Para (uploaderName n), Para (subject n), Para (semester n),
           Btn ''Download PDF''] @
          (if details_isOwner s n
           then [Btn (if d_isPrivate d then ''Make Public'' else ''Make Private''), Btn ''Delete'']
           else []))"

section \<open>Facts\<close>

lemma card_render_delete: "Btn ''Delete'' \<in> set (card_render s n c) \<longleftrightarrow> card_isOwner s n"
  by (simp add: card_render_def)

lemma details_render_delete:
  "Btn ''Delete'' \<in> set (details_render s d) \<longleftrightarrow>
     (\<exists>n. d_note d = Some n \<and> details_isOwner s n)"
  by (simp add: details_render_def split: option.split)

lemma details_render_private:
  "d_note d = Some n \<Longrightarrow> Badge ''Private'' \<in> set (details_render s d) \<longleftrightarrow> d_isPrivate d"
  by (simp add: details_render_def)

text \<open>With a consistent session, the owner test of the pages is the owner test of
  \<open>deleteNote\<close>: the stored session user is the uploader.\<close>

lemma owner_session:
  assumes "users_inv s" and "isAuthenticated s \<and> (case authUser s of None \<Rightarrow> False | Some u \<Rightarrow> cu_id u = uploadedBy n)"
  obtains u where "currentUser s = Some u" and "cu_id u = uploadedBy n"
  using assms session_current [OF assms(1)] by (auto split: option.splits)

text \<open>A stored note whose uploader is the session user is deleted by \<open>deleteNote\<close>,
  and no stored note keeps its id.\<close>

lemma deleteNote_by_owner:
  assumes "notes_inv s" and "currentUser s = Some u"
    and "m \<in> set (allNotes s)" and "note_id m = i" and "uploadedBy m = cu_id u"
  shows "fst (deleteNote i s) = Inr () \<and> i \<notin> note_id ` set (allNotes (snd (deleteNote i s)))"
proof -
  have d: "distinct (map note_id (allNotes s))" using assms(1) by (simp add: notes_inv_def)
  have "\<exists>x\<in>set (allNotes s). note_id x = i" using assms(3,4) by blast
  then obtain k where k: "find_idx (\<lambda>x. note_id x = i) (allNotes s) = Some k"
    using find_idx_exists [where xs = "allNotes s" and P = "\<lambda>x. note_id x = i"] by blast
  have km: "allNotes s ! k = m"
    using distinct_id_nth [OF d assms(3) find_idx_Some_less [OF k]] find_idx_Some_nth [OF k] assms(4)
    by simp
  then have del: "deleteNote i s = (Inr (), s\<lparr>allNotes := remove1 m (allNotes s),
      likes := filter (\<lambda>l. noteId l \<noteq> i) (likes s), shown := filter (\<lambda>n. note_id n \<noteq> i) (shown s)\<rparr>)"
    using assms(2,5) k splice1_find_idx [OF k] by (simp add: deleteNote_def del: find_idx_None_iff)
  have "i \<notin> note_id ` set (remove1 m (allNotes s))"
  proof
    assume "i \<in> note_id ` set (remove1 m (allNotes s))"
    then obtain x where "x \<in> set (remove1 m (allNotes s))" "note_id x = i" by blast
    with remove1_distinct_key [OF d assms(3), of x] assms(4) show False by simp
  qed
  with del show ?thesis by simp
qed

lemma getNoteById_authUser: "authUser (snd (getNoteById i s)) = authUser s"
  by (simp add: getNoteById_def Let_def split: option.split)

section \<open>Properties\<close>

text \<open>C15: the Delete button of a note card works. A card shows Delete only to the
  uploader, and in a consistent state (one session, unique ids) a confirmed click,
  which runs the listing page's \<open>handleDelete\<close>, deletes the stored note: the
  \<open>deleteNote\<close> call succeeds and no stored note keeps the id.\<close>

theorem card_delete_button_works:
  assumes "Invariants.users_inv s" and "Invariants.notes_inv s"
    and shown: "Btn ''Delete'' \<in> set (card_render s n c)"
    and m: "m \<in> set (allNotes s)" "note_id m = note_id n" "uploadedBy m = uploadedBy n"
  shows "fst (deleteNote (note_id n) s) = Inr () \<and>
         note_id n \<notin> note_id ` set (allNotes (card_handleDelete True notesList_handleDelete n s))"
proof -
  from shown have "card_isOwner s n" by (simp add: card_render_delete)
  then obtain u where "currentUser s = Some u" "cu_id u = uploadedBy n"
    using owner_session [OF assms(1)] by (auto simp: card_isOwner_def)
  with deleteNote_by_owner [OF assms(2) _ m(1,2)] m(3) show ?thesis
    by (simp add: card_handleDelete_def notesList_handleDelete_def)
qed

text \<open>C16: the note page shows the store. After \<open>loadNote\<close> succeeds on a stored
  note (unique ids), the page stays, shows the privacy badge exactly when the stored
  note is private, and offers Delete exactly when the logged-in user of the tab is
  the uploader.\<close>

theorem details_load_shows_store:
  assumes "Invariants.notes_inv s" and m: "m \<in> set (allNotes s)" "note_id m = i"
    and ok: "fst (getNoteById i s) = Inr r"
  shows "fst (fst (details_loadNote i d s)) = Stay \<and>
         (Badge ''Private'' \<in> set (details_render (snd (details_loadNote i d s)) (snd (fst (details_loadNote i d s))))
            \<longleftrightarrow> isPrivate m) \<and>
         (Btn ''Delete'' \<in> set (details_render (snd (details_loadNote i d s)) (snd (fst (details_loadNote i d s))))
            \<longleftrightarrow> (\<exists>u. authUser s = Some u \<and> cu_id u = uploadedBy m))"
proof -
  have dn: "distinct (map note_id (allNotes s))" using assms(1) by (simp add: notes_inv_def)
  obtain k where k: "find_idx (\<lambda>n. note_id n = i) (allNotes s) = Some k"
    and r: "r = (with_user_info (users s) ((allNotes s ! k)\<lparr>viewCount := viewCount (allNotes s ! k) + 1\<rparr>))
               \<lparr>isLiked := (case currentUser s of None \<Rightarrow> None
                  | Some cu \<Rightarrow> Some (list_ex (is_like_of (cu_id cu) (note_id (allNotes s ! k))) (likes s)))\<rparr>"
    using getNoteById_Inr [OF ok] by blast
  have "allNotes s ! k = m"
    using distinct_id_nth [OF dn m(1) find_idx_Some_less [OF k]] find_idx_Some_nth [OF k] m(2) by simp
  then have rm: "isPrivate r = isPrivate m" "uploadedBy r = uploadedBy m" by (simp_all add: r)
  obtain s' where g: "getNoteById i s = (Inr r, s')" using ok by (cases "getNoteById i s") simp
  then have au: "authUser s' = authUser s" using getNoteById_authUser [of i s] by simp
  define d' where "d' = d\<lparr>d_note := Some r, d_isPrivate := isPrivate r\<rparr>"
  have dl: "details_loadNote i d s = ((Stay, d'), s')" using g by (simp add: details_loadNote_def d'_def)
  have "Badge ''Private'' \<in> set (details_render s' d') \<longleftrightarrow> isPrivate m"
    using details_render_private [of d' r s'] rm by (simp add: d'_def)
  moreover have "details_isOwner s' r \<longleftrightarrow> (\<exists>u. authUser s = Some u \<and> cu_id u = uploadedBy m)"
    using au rm by (simp add: details_isOwner_def isAuthenticated_def split: option.split)
  then have "Btn ''Delete'' \<in> set (details_render s' d') \<longleftrightarrow> (\<exists>u. authUser s = Some u \<and> cu_id u = uploadedBy m)"
    using details_render_delete [of s' d'] by (simp add: d'_def)
  ultimately show ?thesis unfolding dl fst_conv snd_conv by blast
qed

end
