(* ===== verification/ListPage.thy ===== *)
theory ListPage
  imports Views
begin

text \<open>
  The listing page (src/pages/NotesList.jsx) as a state machine over the application
  state: its mount effect, its events (a SearchBar submit, a page change from the
  Pagination component, and the like, download, privacy and delete buttons of its
  note cards) and what it renders. The cards' own state is not tracked: a card event
  carries any card state, so the properties hold whatever the cards show.
\<close>

section \<open>SearchBar\<close>

text \<open>The SearchBar's own state (src/components/SearchBar.jsx: \<open>query\<close>,
  \<open>showFilters\<close>, \<open>filters\<close>), its events, and what it hands to \<open>onSearch\<close>
  (nothing, or the filters of a submit or a clear).\<close>

record bar =
  bar_query :: string
  bar_showFilters :: bool
  bar_f :: bar_filters

definition bar_init :: bar where
  "bar_init = \<lparr>bar_query = [], bar_showFilters = False, bar_f = bar_initial\<rparr>"

datatype bar_event = SetQuery string | ToggleFilters | FilterChange string string | SubmitSearch | ClearSearch

fun searchbar_step :: "bar_event \<Rightarrow> bar \<Rightarrow> bar \<times> search_filters option" where
  "searchbar_step (SetQuery v) b = (b\<lparr>bar_query := v\<rparr>, None)"
| "searchbar_step ToggleFilters b = (b\<lparr>bar_showFilters := \<not> bar_showFilters b\<rparr>, None)"
| "searchbar_step (FilterChange nm v) b = (b\<lparr>bar_f := searchbar_filterChange nm v (bar_f b)\<rparr>, None)"
| "searchbar_step SubmitSearch b = (b, Some (searchbar_submit (bar_query b) (bar_f b)))"
| "searchbar_step ClearSearch b =
     (case searchbar_handleClear of (q, f, sf) \<Rightarrow> (b\<lparr>bar_query := q, bar_f := f\<rparr>, Some sf))"

definition searchbar_render :: "bar \<Rightarrow> widget list" where
  "searchbar_render b =
     [Input ''Search''] @
     (if bar_query b \<noteq> [] \<or> b_userName (bar_f b) \<noteq> [] \<or> b_subject (bar_f b) \<noteq> [] \<or>
         b_semester (bar_f b) \<noteq> []
      then [Btn ''Clear''] else []) @
     [Btn ''Filters'', Btn ''Search''] @
     (if bar_showFilters b
      then [Heading ''Advanced Filters'', Input ''userName'', Input ''subject'', Input ''semester'',
            Select ''sortBy'' [(''uploadedAt'', ''Date Uploaded''), (''downloads'', ''Downloads''),
                               (''views'', ''Views''), (''likes'', ''Likes''), (''popularity'', ''Popularity'')],
            Select ''sortOrder'' [(''DESC'', ''Highest First''), (''ASC'', ''Lowest First'')]]
      else [])"

section \<open>NotesList\<close>

definition dq :: char where
  "dq = CHR 0x22"

definition notesList_render :: "app \<Rightarrow> notes_list \<Rightarrow> widget list" where
  "notesList_render s st =
     [Heading ''Browse Notes'', Para ''Explore and download educational resources shared by students'',
      Input ''Search by title, subject, or semester...''] @
     (if nl_isSearching st
      then [Para (''Showing search results'' @
                  (case nl_searchQuery st of None \<Rightarrow> []
                   | Some f \<Rightarrow> if fq f \<noteq> [] then '' for '' @ [dq] @ fq f @ [dq] else []) @
                  '' ('' @ (if length (shown s) = 0 then ''0'' else ''n'') @ '' found)'')]
      else []) @
     (if shown s \<noteq> []
      then map (\<lambda>n. CardOf (note_id n)) (shown s) @
           (if 1 < totalPages (pag s) then [Pager (pagination_controls (nl_currentPage st) (totalPages (pag s)))]
            else [])
      else [Heading ''No notes found'',
            Para (if nl_isSearching st then ''Try adjusting your search query'' else ''Be the first to upload notes!'')])"

definition notesList_mount :: "app \<Rightarrow> notes_list \<times> app" where
  "notesList_mount s = (notes_list_init, notesList_load notes_list_init s)"

datatype list_event =
    NLSearch search_filters
  | NLPage int
  | NLCardLike millis millis note_info card
  | NLCardDownload note_info
  | NLCardToggle note_info card
  | NLCardDelete bool note_info

fun list_event_step :: "list_event \<Rightarrow> notes_list \<times> app \<Rightarrow> notes_list \<times> app" where
  "list_event_step (NLSearch f) (st, s) = notesList_handleSearch f st s"
| "list_event_step (NLPage p) (st, s) = notesList_handlePageChange p st s"
| "list_event_step (NLCardLike now isoNow n c) (st, s) = (st, snd (card_handleLike now isoNow n c s))"
| "list_event_step (NLCardDownload n) (st, s) = (st, snd (card_handleDownload n s))"
| "list_event_step (NLCardToggle n c) (st, s) = (st, snd (card_handleTogglePrivacy n c s))"
| "list_event_step (NLCardDelete confirmed n) (st, s) = (st, card_handleDelete confirmed notesList_handleDelete n s)"

fun list_events :: "list_event list \<Rightarrow> notes_list \<times> app \<Rightarrow> notes_list \<times> app" where
  "list_events [] ps = ps"
| "list_events (e # es) ps = list_events es (list_event_step e ps)"

text \<open>The page with its SearchBar: a bar event that calls \<open>onSearch\<close> runs the
  page's \<open>handleSearch\<close> with the filters it hands over.\<close>

datatype page_event = PBar bar_event | PList list_event

fun listpage_step :: "page_event \<Rightarrow> bar \<times> notes_list \<times> app \<Rightarrow> bar \<times> notes_list \<times> app" where
  "listpage_step (PBar e) (b, st, s) =
     (case searchbar_step e b of
        (b', None) \<Rightarrow> (b', st, s)
      | (b', Some f) \<Rightarrow> (b', notesList_handleSearch f st s))"
| "listpage_step (PList e) (b, st, s) = (b, list_event_step e (st, s))"

text \<open>Every listed note has the id of a stored note the session user may see.\<close>

definition listing_ok :: "app \<Rightarrow> bool" where
  "listing_ok s \<longleftrightarrow>
     (\<forall>n\<in>set (shown s). \<exists>m\<in>set (allNotes s). note_id m = note_id n \<and> visible (currentUser s) m)"

text \<open>A step that keeps the listing and the session, and changes at most one stored
  note, keeping its id and, if it was visible, its visibility.\<close>

definition vis_step :: "app \<Rightarrow> app \<Rightarrow> bool" where
  "vis_step s t \<longleftrightarrow> shown t = shown s \<and> currentUser t = currentUser s \<and>
     (allNotes t = allNotes s \<or>
      (\<exists>k<length (allNotes s). \<exists>y. allNotes t = (allNotes s)[k := y] \<and>
         note_id y = note_id (allNotes s ! k) \<and>
         (visible (currentUser s) (allNotes s ! k) \<longrightarrow> visible (currentUser s) y)))"

section \<open>Facts\<close>

lemma vis_step_refl: "vis_step s s"
  by (simp add: vis_step_def)

lemma vis_step_upd:
  assumes "find_idx P (allNotes s) = Some k" and "allNotes t = (allNotes s)[k := y]"
    and "shown t = shown s" and "currentUser t = currentUser s"
    and "note_id y = note_id (allNotes s ! k)"
    and "visible (currentUser s) (allNotes s ! k) \<Longrightarrow> visible (currentUser s) y"
  shows "vis_step s t"
  using assms find_idx_Some_less [OF assms(1)] unfolding vis_step_def by blast

lemma listing_ok_vis_step:
  assumes ok: "listing_ok s" and st: "vis_step s t"
  shows "listing_ok t"
  unfolding listing_ok_def
proof
  fix n assume "n \<in> set (shown t)"
  with st ok obtain m where m: "m \<in> set (allNotes s)" "note_id m = note_id n" "visible (currentUser s) m"
    by (auto simp: vis_step_def listing_ok_def)
  then obtain j where j: "j < length (allNotes s)" "allNotes s ! j = m" by (auto simp: in_set_conv_nth)
  from st show "\<exists>m\<in>set (allNotes t). note_id m = note_id n \<and> visible (currentUser t) m"
    unfolding vis_step_def
  proof (elim conjE disjE exE)
    assume "allNotes t = allNotes s" "currentUser t = currentUser s"
    with m show ?thesis by auto
  next
    fix k y assume c: "currentUser t = currentUser s" and k: "k < length (allNotes s)"
      and y: "allNotes t = (allNotes s)[k := y]" "note_id y = note_id (allNotes s ! k)"
        "visible (currentUser s) (allNotes s ! k) \<longrightarrow> visible (currentUser s) y"
    show ?thesis
    proof (cases "j = k")
      case True
      with j k y m have "y \<in> set (allNotes t)" "note_id y = note_id n" "visible (currentUser s) y"
        by (auto simp: set_update_memI)
      with c show ?thesis by auto
    next
      case False
      with j y have "m \<in> set (allNotes t)" by (metis length_list_update nth_list_update_neq nth_mem)
      with c m show ?thesis by auto
    qed
  qed
qed

lemma vis_step_likeNote: "vis_step s (snd (likeNote now isoNow i s))"
proof (cases "currentUser s")
  case (Some cu)
  show ?thesis
  proof (cases "find_idx (\<lambda>n. note_id n = i) (allNotes s)")
    case (Some k)
    with \<open>currentUser s = Some cu\<close> show ?thesis
      by (auto simp: likeNote_def Let_def visible_def vis_step_refl intro: vis_step_upd [OF Some])
  qed (use Some in \<open>simp add: likeNote_def Let_def vis_step_def del: find_idx_None_iff\<close>)
qed (simp add: likeNote_def vis_step_refl)

lemma vis_step_unlikeNote: "vis_step s (snd (unlikeNote i s))"
proof (cases "currentUser s")
  case (Some cu)
  show ?thesis
  proof (cases "find_idx (\<lambda>n. note_id n = i) (allNotes s)")
    case (Some k)
    with \<open>currentUser s = Some cu\<close> show ?thesis
      by (auto simp: unlikeNote_def Let_def visible_def vis_step_refl intro: vis_step_upd [OF Some]
          split: option.split)
  qed (use Some in \<open>simp add: unlikeNote_def Let_def vis_step_def del: find_idx_None_iff split: option.split\<close>)
qed (simp add: unlikeNote_def vis_step_refl)

lemma vis_step_downloadNote: "vis_step s (snd (downloadNote i ttl s))"
proof (cases "currentUser s")
  case (Some cu)
  show ?thesis
  proof (cases "find_idx (\<lambda>n. note_id n = i) (allNotes s)")
    case (Some k)
    with \<open>currentUser s = Some cu\<close> show ?thesis
      by (auto simp: downloadNote_def Let_def visible_def vis_step_refl intro: vis_step_upd [OF Some])
  qed (use Some in \<open>simp add: downloadNote_def vis_step_refl del: find_idx_None_iff\<close>)
qed (simp add: downloadNote_def vis_step_refl)

lemma vis_step_toggleNotePrivacy: "vis_step s (snd (toggleNotePrivacy i s))"
proof (cases "currentUser s")
  case (Some cu)
  show ?thesis
  proof (cases "find_idx (\<lambda>n. note_id n = i) (allNotes s)")
    case (Some k)
    with \<open>currentUser s = Some cu\<close> show ?thesis
      by (auto simp: toggleNotePrivacy_def Let_def visible_def vis_step_refl intro: vis_step_upd [OF Some])
  qed (use Some in \<open>simp add: toggleNotePrivacy_def vis_step_refl del: find_idx_None_iff\<close>)
qed (simp add: toggleNotePrivacy_def vis_step_refl)

lemma card_handlers_snd:
  "snd (card_handleLike now isoNow n c s) =
     (if \<not> isAuthenticated s then s else if c_isLiked c then snd (unlikeNote (note_id n) s)
      else snd (likeNote now isoNow (note_id n) s))"
  "snd (card_handleDownload n s) = (if \<not> isAuthenticated s then s else snd (downloadNote (note_id n) (title n) s))"
  "snd (card_handleTogglePrivacy n c s) = snd (toggleNotePrivacy (note_id n) s)"
  by (simp_all add: card_handleLike_def card_handleDownload_def card_handleTogglePrivacy_def
        split: prod.split sum.split err.split)

lemma vis_step_cards:
  "vis_step s (snd (card_handleLike now isoNow n c s))"
  "vis_step s (snd (card_handleDownload n s))"
  "vis_step s (snd (card_handleTogglePrivacy n c s))"
  by (simp_all add: card_handlers_snd vis_step_refl vis_step_likeNote vis_step_unlikeNote
        vis_step_downloadNote vis_step_toggleNotePrivacy)

lemma listing_ok_deleteNote:
  assumes ok: "listing_ok s"
  shows "listing_ok (snd (deleteNote i s))"
proof (cases "fst (deleteNote i s)")
  case (Inl e)
  then have "snd (deleteNote i s) = s"
    by (auto simp: deleteNote_def simp del: find_idx_None_iff split: option.splits if_splits)
  with ok show ?thesis by simp
next
  case (Inr v)
  then obtain k where k: "find_idx (\<lambda>n. note_id n = i) (allNotes s) = Some k"
    and an: "allNotes (snd (deleteNote i s)) = splice1 k (allNotes s)"
    using deleteNote_Inr by blast
  have sh: "shown (snd (deleteNote i s)) = filter (\<lambda>n. note_id n \<noteq> i) (shown s)"
    and cu: "currentUser (snd (deleteNote i s)) = currentUser s"
    using k Inr by (auto simp: deleteNote_def split: option.splits if_splits)
  have ki: "note_id (allNotes s ! k) = i" using find_idx_Some_nth [OF k] by simp
  show ?thesis unfolding listing_ok_def
  proof
    fix n assume "n \<in> set (shown (snd (deleteNote i s)))"
    with sh have n: "n \<in> set (shown s)" "note_id n \<noteq> i" by auto
    with ok obtain m where m: "m \<in> set (allNotes s)" "note_id m = note_id n" "visible (currentUser s) m"
      by (auto simp: listing_ok_def)
    with n ki have "m \<noteq> allNotes s ! k" by auto
    with m have "m \<in> set (allNotes (snd (deleteNote i s)))"
      by (simp add: an splice1_find_idx [OF k])
    with m cu show "\<exists>m\<in>set (allNotes (snd (deleteNote i s))). note_id m = note_id n \<and>
        visible (currentUser (snd (deleteNote i s))) m" by auto
  qed
qed

lemma listing_ok_listed:
  assumes "shown t = fst (calculatePagination (js_sort cmp (map (with_user_info (users s)) ns)) page limit)"
    and "set ns \<subseteq> set (filter (visible (currentUser s)) (allNotes s))"
    and "allNotes t = allNotes s" and "currentUser t = currentUser s"
  shows "listing_ok t"
  unfolding listing_ok_def
proof
  fix n assume "n \<in> set (shown t)"
  with assms(1) listed_from_visible [of n cmp "users s" ns page limit]
  obtain m where "m \<in> set ns" "n = with_user_info (users s) m" by auto
  with assms(2-4) show "\<exists>m\<in>set (allNotes t). note_id m = note_id n \<and> visible (currentUser t) m"
    by auto
qed

lemma listing_ok_fetch_search:
  "listing_ok (snd (fetchNotes p l s))"
  "listing_ok (snd (searchNotes f p l s))"
proof -
  let ?vis = "filter (visible (currentUser s)) (allNotes s)"
  show "listing_ok (snd (fetchNotes p l s))"
    by (rule listing_ok_listed [where s = s and cmp = date_desc_cmp and ns = ?vis and page = p and limit = l])
       (simp_all add: fetchNotes_def Let_def split: prod.split)
  show "listing_ok (snd (searchNotes f p l s))"
    by (rule listing_ok_listed [where s = s and ns = "apply_search_filters f (users s) ?vis" and page = p and limit = l
          and cmp = "search_cmp (js_or (fsortBy f) ''uploadedAt'') (js_or (fsortOrder f) ''desc'')"])
       (auto simp: searchNotes_def Let_def apply_search_filters_filter split: prod.split)
qed

lemma listing_ok_load: "listing_ok (notesList_load st s)"
  by (simp add: notesList_load_def listing_ok_fetch_search split: option.split)

lemma listing_ok_event:
  "listing_ok (snd ps) \<Longrightarrow> listing_ok (snd (list_event_step e ps))"
proof (cases ps)
  case (Pair st s)
  assume ok: "listing_ok (snd ps)"
  with Pair show ?thesis
    by (cases e)
       (simp_all add: notesList_handleSearch_snd notesList_handlePageChange_def Let_def listing_ok_load
          listing_ok_fetch_search card_handleDelete_def notesList_handleDelete_def listing_ok_deleteNote
          listing_ok_vis_step [OF _ vis_step_cards(1)] listing_ok_vis_step [OF _ vis_step_cards(2)]
          listing_ok_vis_step [OF _ vis_step_cards(3)])
qed

lemma listing_ok_events: "listing_ok (snd ps) \<Longrightarrow> listing_ok (snd (list_events es ps))"
  by (induction es arbitrary: ps) (simp_all add: listing_ok_event)

lemma listing_ok_listpage_step:
  "listing_ok (snd (snd x)) \<Longrightarrow> listing_ok (snd (snd (listpage_step e x)))"
proof (cases x)
  case (fields b st s)
  assume ok: "listing_ok (snd (snd x))"
  show ?thesis
  proof (cases e)
    case (PBar be)
    then show ?thesis using fields ok
      by (cases "searchbar_step be b")
         (auto simp: notesList_handleSearch_snd listing_ok_fetch_search split: option.split)
  next
    case (PList le)
    then show ?thesis using fields ok listing_ok_event [of "(st, s)" le] by simp
  qed
qed

text \<open>The Clear button resets the bar and shows the unfiltered listing again, from
  its first page.\<close>

lemma listpage_clear:
  "listpage_step (PBar ClearSearch) (b, st, s) =
     (b\<lparr>bar_query := [], bar_f := bar_initial\<rparr>,
      st\<lparr>nl_searchQuery := Some (snd (snd searchbar_handleClear)), nl_isSearching := False, nl_currentPage := 1\<rparr>,
      snd (fetchNotes 1 20 s))"
  by (simp add: searchbar_handleClear_def notesList_handleSearch_def has_search_criteria_def notesList_load_def
      Let_def listing_reload)

lemma notesList_render_cards:
  "CardOf i \<in> set (notesList_render s st) \<Longrightarrow> i \<in> note_id ` set (shown s)"
  by (auto simp: notesList_render_def split: if_splits)

section \<open>Properties\<close>

text \<open>C28: the listing page shows only notes its user may see. From the mount effect
  on, after any sequence of the page's events (searches, page changes, and like,
  download, privacy and delete clicks on its cards, whatever the cards show), every
  card on the page is a stored note that is public or uploaded by the session user.\<close>

theorem notesList_cards_visible:
  assumes "CardOf i \<in> set (notesList_render (snd (list_events es (notesList_mount s))) (fst (list_events es (notesList_mount s))))"
  shows "\<exists>m\<in>set (allNotes (snd (list_events es (notesList_mount s)))).
           note_id m = i \<and> visible (currentUser (snd (list_events es (notesList_mount s)))) m"
proof -
  have "listing_ok (snd (list_events es (notesList_mount s)))"
    by (rule listing_ok_events) (simp add: notesList_mount_def listing_ok_load)
  with notesList_render_cards [OF assms] show ?thesis by (auto simp: listing_ok_def)
qed

end
