(* ===== verification/ProfilePage.thy ===== *)
theory ProfilePage
  imports ListPage
begin

text \<open>
  The Profile page (src/pages/Profile.jsx) as a state machine: its React state
  (record \<open>profile_page\<close>), the mount effect, one event per control of the page, and
  what it renders. The statistics and both account forms go through \<open>authAPI\<close>,
  which is not defined anywhere: each call throws inside its \<open>try\<close>, so the
  statistics stay \<open>null\<close> and the success branches of the forms (hide and reset the
  form, log out and leave) are never taken. The note list is NotesProvider's
  \<open>notes\<close> (field \<open>shown\<close>), loaded by \<open>getMyNotes\<close>; its cards are NoteCards,
  whose like, download and privacy buttons run the card handlers of Pages and whose
  delete button goes through the page's \<open>handleDelete\<close>.
\<close>

record profile_page =
  pp_stats :: "(string \<times> int) list option"
  pp_loadingStats :: bool
  pp_showPasswordForm :: bool
  pp_showDeleteConfirm :: bool
  pp_passwordData :: password_form
  pp_deletePassword :: string

definition empty_password_form :: password_form where
  "empty_password_form = \<lparr>pf_currentPassword = [], pf_newPassword = [], pf_confirmPassword = []\<rparr>"

definition profile_page_init :: profile_page where
  "profile_page_init =
     \<lparr>pp_stats = None, pp_loadingStats = True, pp_showPasswordForm = False,
      pp_showDeleteConfirm = False, pp_passwordData = empty_password_form, pp_deletePassword = []\<rparr>"

text \<open>\<open>loadProfile\<close>: \<open>authAPI.getProfile()\<close> throws, the catch only logs, and the
  \<open>finally\<close> clears \<open>loadingStats\<close>.\<close>

definition profile_loadProfile :: "profile_page \<Rightarrow> profile_page" where
  "profile_loadProfile p = p\<lparr>pp_loadingStats := False\<rparr>"

text \<open>The mount effect: \<open>loadProfile()\<close> and \<open>getMyNotes()\<close> (page 1, limit 20).\<close>

definition profile_mount :: "app \<Rightarrow> profile_page \<times> app" where
  "profile_mount s = (profile_loadProfile profile_page_init, snd (getMyNotes 1 20 s))"

datatype profile_event =
    TogglePasswordForm
  | ShowDeleteConfirm
  | SetCurrentPassword string
  | SetNewPassword string
  | SetConfirmPassword string
  | CancelPasswordForm
  | SubmitPasswordForm
  | SetDeletePassword string
  | CancelDelete
  | SubmitDeletion
  | CardLike millis millis note_info card
  | CardDownload note_info
  | CardToggle note_info card
  | CardDelete bool note_info

fun profile_event_step :: "profile_event \<Rightarrow> profile_page \<times> app \<Rightarrow> profile_page \<times> app" where
  "profile_event_step TogglePasswordForm (p, s) = (p\<lparr>pp_showPasswordForm := \<not> pp_showPasswordForm p\<rparr>, s)"
| "profile_event_step ShowDeleteConfirm (p, s) = (p\<lparr>pp_showDeleteConfirm := True\<rparr>, s)"
| "profile_event_step (SetCurrentPassword v) (p, s) =
     (p\<lparr>pp_passwordData := (pp_passwordData p)\<lparr>pf_currentPassword := v\<rparr>\<rparr>, s)"
| "profile_event_step (SetNewPassword v) (p, s) =
     (p\<lparr>pp_passwordData := (pp_passwordData p)\<lparr>pf_newPassword := v\<rparr>\<rparr>, s)"
| "profile_event_step (SetConfirmPassword v) (p, s) =
     (p\<lparr>pp_passwordData := (pp_passwordData p)\<lparr>pf_confirmPassword := v\<rparr>\<rparr>, s)"
| "profile_event_step CancelPasswordForm (p, s) =
     (p\<lparr>pp_showPasswordForm := False, pp_passwordData := empty_password_form\<rparr>, s)"
| "profile_event_step SubmitPasswordForm (p, s) = (p, snd (profile_handlePasswordChange (pp_passwordData p) s))"
| "profile_event_step (SetDeletePassword v) (p, s) = (p\<lparr>pp_deletePassword := v\<rparr>, s)"
| "profile_event_step CancelDelete (p, s) = (p\<lparr>pp_showDeleteConfirm := False, pp_deletePassword := []\<rparr>, s)"
| "profile_event_step SubmitDeletion (p, s) = (p, snd (profile_handleAccountDeletion (pp_deletePassword p) s))"
| "profile_event_step (CardLike now isoNow n c) (p, s) = (p, snd (card_handleLike now isoNow n c s))"
| "profile_event_step (CardDownload n) (p, s) = (p, snd (card_handleDownload n s))"
| "profile_event_step (CardToggle n c) (p, s) = (p, snd (card_handleTogglePrivacy n c s))"
| "profile_event_step (CardDelete confirmed n) (p, s) = (p, card_handleDelete confirmed profile_handleDelete n s)"

fun profile_events :: "profile_event list \<Rightarrow> profile_page \<times> app \<Rightarrow> profile_page \<times> app" where
  "profile_events [] ps = ps"
| "profile_events (e # es) ps = profile_events es (profile_event_step e ps)"

text \<open>What the page shows once the notes are loaded (\<open>loading\<close> is false); the
  header reads AuthProvider's \<open>user\<close>.\<close>

definition profile_render :: "app \<Rightarrow> profile_page \<Rightarrow> widget list" where
  "profile_render s p =
     (case authUser s of None \<Rightarrow> [Heading [], Para []]
      | Some u \<Rightarrow> [Heading (cu_name u), Para (cu_email u)]) @
     (if pp_loadingStats p then [Spinner]
      else case pp_stats p of None \<Rightarrow> [] | Some st \<Rightarrow> map (\<lambda>(k, v). Stat k v) st) @
     [Btn ''Change Password'', Btn ''Delete Account''] @
     (if pp_showPasswordForm p
      then [Input ''currentPassword'', Input ''newPassword'', Input ''confirmPassword'',
            Btn ''Update Password'', Btn ''Cancel'']
      else []) @
     (if pp_showDeleteConfirm p
      then [Input ''deletePassword'', Btn ''Delete Account'', Btn ''Cancel'']
      else []) @
     [Heading ''My Uploaded Notes''] @
     (if shown s \<noteq> [] then map (\<lambda>n. CardOf (note_id n)) (shown s)
      else [Para ''No notes uploaded yet'', LinkTo ''/upload''])"

text \<open>Whether an element is a statistics counter, and the property of a listing
  that every listed note is a stored note of user \<open>c\<close>.\<close>

fun is_stat :: "widget \<Rightarrow> bool" where
  "is_stat (Stat _ _) = True"
| "is_stat _ = False"

definition own_listing :: "cur_user \<Rightarrow> app \<Rightarrow> bool" where
  "own_listing c s \<longleftrightarrow>
     list_all (\<lambda>n. list_ex (\<lambda>m. uploadedBy m = cu_id c \<and> note_id m = note_id n) (allNotes s)) (shown s)"

section \<open>Facts\<close>

lemma profile_ops_frame:
  "users (snd (deleteNote i s)) = users s \<and> currentUser (snd (deleteNote i s)) = currentUser s \<and>
     authUser (snd (deleteNote i s)) = authUser s"
  "users (snd (getMyNotes pg l s)) = users s \<and> currentUser (snd (getMyNotes pg l s)) = currentUser s \<and>
     authUser (snd (getMyNotes pg l s)) = authUser s"
  using notes_op_frame [of "DeleteNote i" s] notes_op_frame [of "GetMyNotes pg l" s] by simp_all

text \<open>The card buttons keep the account and the session, and keep the id and the
  uploader of every stored note.\<close>

lemma card_ops_frame:
  "users (snd (card_handleLike now isoNow n c s)) = users s \<and>
     currentUser (snd (card_handleLike now isoNow n c s)) = currentUser s \<and>
     authUser (snd (card_handleLike now isoNow n c s)) = authUser s"
  "users (snd (card_handleDownload n s)) = users s \<and>
     currentUser (snd (card_handleDownload n s)) = currentUser s \<and>
     authUser (snd (card_handleDownload n s)) = authUser s"
  "users (snd (card_handleTogglePrivacy n c s)) = users s \<and>
     currentUser (snd (card_handleTogglePrivacy n c s)) = currentUser s \<and>
     authUser (snd (card_handleTogglePrivacy n c s)) = authUser s"
  using notes_op_frame [of "LikeNote now isoNow (note_id n)" s] notes_op_frame [of "UnlikeNote (note_id n)" s]
    notes_op_frame [of "DownloadNote (note_id n) (title n)" s] notes_op_frame [of "ToggleNotePrivacy (note_id n)" s]
  by (simp_all add: card_handlers_snd)

lemma card_ops_owners:
  "map (\<lambda>m. (note_id m, uploadedBy m)) (allNotes (snd (card_handleLike now isoNow n c s))) =
     map (\<lambda>m. (note_id m, uploadedBy m)) (allNotes s)"
  "map (\<lambda>m. (note_id m, uploadedBy m)) (allNotes (snd (card_handleDownload n s))) =
     map (\<lambda>m. (note_id m, uploadedBy m)) (allNotes s)"
  "map (\<lambda>m. (note_id m, uploadedBy m)) (allNotes (snd (card_handleTogglePrivacy n c s))) =
     map (\<lambda>m. (note_id m, uploadedBy m)) (allNotes s)"
  by (auto simp: card_handlers_snd likeNote_def unlikeNote_def downloadNote_def toggleNotePrivacy_def
        Let_def map_update_same split: option.split)

lemma own_listing_owners:
  assumes "own_listing c s" and "shown t = shown s"
    and "map (\<lambda>m. (note_id m, uploadedBy m)) (allNotes t) = map (\<lambda>m. (note_id m, uploadedBy m)) (allNotes s)"
  shows "own_listing c t"
proof -
  have "(\<exists>m\<in>set (allNotes t). uploadedBy m = u \<and> note_id m = i) \<longleftrightarrow>
        (\<exists>m\<in>set (allNotes s). uploadedBy m = u \<and> note_id m = i)" for u i
  proof -
    have "(i, u) \<in> set (map (\<lambda>m. (note_id m, uploadedBy m)) (allNotes t)) \<longleftrightarrow>
          (i, u) \<in> set (map (\<lambda>m. (note_id m, uploadedBy m)) (allNotes s))"
      using assms(3) by simp
    then show ?thesis by auto
  qed
  with assms(1,2) show ?thesis by (simp add: own_listing_def list_all_iff list_ex_iff)
qed

lemma profile_event_frame:
  "pp_stats (fst (profile_event_step e ps)) = pp_stats (fst ps) \<and>
   pp_loadingStats (fst (profile_event_step e ps)) = pp_loadingStats (fst ps) \<and>
   users (snd (profile_event_step e ps)) = users (snd ps) \<and>
   currentUser (snd (profile_event_step e ps)) = currentUser (snd ps) \<and>
   authUser (snd (profile_event_step e ps)) = authUser (snd ps)"
  by (cases ps; cases e)
     (simp_all add: profile_handlePasswordChange_def profile_handleAccountDeletion_def
        card_handleDelete_def profile_handleDelete_def profile_ops_frame card_ops_frame)

lemma profile_events_frame:
  "pp_stats (fst (profile_events es ps)) = pp_stats (fst ps) \<and>
   pp_loadingStats (fst (profile_events es ps)) = pp_loadingStats (fst ps) \<and>
   users (snd (profile_events es ps)) = users (snd ps) \<and>
   currentUser (snd (profile_events es ps)) = currentUser (snd ps) \<and>
   authUser (snd (profile_events es ps)) = authUser (snd ps)"
proof (induction es arbitrary: ps)
  case Nil
  then show ?case by simp
next
  case (Cons e es)
  then show ?case using profile_event_frame [of e ps] by simp
qed

lemma getMyNotes_allNotes: "allNotes (snd (getMyNotes pg l s)) = allNotes s"
  by (simp add: getMyNotes_def Let_def split: option.split prod.split)

lemma getMyNotes_own_listing:
  assumes "currentUser s = Some c"
  shows "own_listing c (snd (getMyNotes 1 20 s))"
  unfolding own_listing_def getMyNotes_allNotes list_all_iff list_ex_iff
  using getMyNotes_shown [OF assms, of _ 1 20] by (metis (mono_tags))

lemma profile_event_own_listing:
  assumes "currentUser (snd ps) = Some c" and "own_listing c (snd ps)"
  shows "own_listing c (snd (profile_event_step e ps))"
proof (cases ps)
  case (Pair p s)
  have "currentUser (snd (deleteNote i s)) = Some c" for i
    using assms(1) Pair profile_ops_frame(1) [of i s] by simp
  moreover have "own_listing c (snd (card_handleLike now isoNow n cd s))"
    "own_listing c (snd (card_handleDownload n s))"
    "own_listing c (snd (card_handleTogglePrivacy n cd s))" for now isoNow n cd
    using assms(2) Pair vis_step_cards [of s] card_ops_owners
    by (auto intro: own_listing_owners simp: vis_step_def)
  ultimately show ?thesis using assms Pair
    by (cases e)
       (simp_all add: profile_handlePasswordChange_def profile_handleAccountDeletion_def
          card_handleDelete_def profile_handleDelete_def getMyNotes_own_listing)
qed

lemma profile_events_own_listing:
  "currentUser (snd ps) = Some c \<Longrightarrow> own_listing c (snd ps) \<Longrightarrow> own_listing c (snd (profile_events es ps))"
proof (induction es arbitrary: ps)
  case Nil
  then show ?case by simp
next
  case (Cons e es)
  have "currentUser (snd (profile_event_step e ps)) = Some c"
    using Cons.prems(1) profile_event_frame [of e ps] by simp
  with Cons profile_event_own_listing [OF Cons.prems] show ?case by simp
qed

lemma profile_render_cards: "CardOf i \<in> set (profile_render s p) \<Longrightarrow> i \<in> note_id ` set (shown s)"
  by (auto simp: profile_render_def split: if_splits option.splits)

lemma profile_render_no_stats:
  "\<not> pp_loadingStats p \<Longrightarrow> pp_stats p = None \<Longrightarrow> \<not> list_ex is_stat (profile_render s p)"
  by (auto simp: profile_render_def list_ex_iff split: option.splits)

section \<open>Properties\<close>

text \<open>C29: no use of the Profile page changes the account: from the mounted page,
  after any sequence of its events (both account forms submitted, with any inputs,
  and the cards' like, download, privacy and delete buttons), the stored users, the stored session and the
  React user are those before, and the page never shows statistics.\<close>

theorem profile_page_account_unreachable:
  "users (snd (profile_events es (profile_mount s))) = users s \<and>
   currentUser (snd (profile_events es (profile_mount s))) = currentUser s \<and>
   authUser (snd (profile_events es (profile_mount s))) = authUser s \<and>
   \<not> list_ex is_stat (profile_render (snd (profile_events es (profile_mount s))) (fst (profile_events es (profile_mount s))))"
proof -
  have m: "pp_stats (fst (profile_mount s)) = None" "\<not> pp_loadingStats (fst (profile_mount s))"
    "users (snd (profile_mount s)) = users s" "currentUser (snd (profile_mount s)) = currentUser s"
    "authUser (snd (profile_mount s)) = authUser s"
    using profile_ops_frame(2) [of 1 20 s]
    by (simp_all add: profile_mount_def profile_loadProfile_def profile_page_init_def)
  with profile_events_frame [of es "profile_mount s"] profile_render_no_stats show ?thesis by simp
qed

text \<open>C30: the Profile page lists only the user's own notes: for a logged-in user,
  after mounting and any sequence of the page's events, every card on the page is a
  stored note uploaded by that user.\<close>

theorem profile_cards_own:
  assumes "currentUser s = Some c"
    and "CardOf i \<in> set (profile_render (snd (profile_events es (profile_mount s))) (fst (profile_events es (profile_mount s))))"
  shows "\<exists>m\<in>set (allNotes (snd (profile_events es (profile_mount s)))). uploadedBy m = cu_id c \<and> note_id m = i"
proof -
  have "own_listing c (snd (profile_mount s))"
    using getMyNotes_own_listing [OF assms(1)] by (simp add: profile_mount_def)
  moreover have "currentUser (snd (profile_mount s)) = Some c"
    using assms(1) profile_ops_frame(2) [of 1 20 s] by (simp add: profile_mount_def)
  ultimately have "own_listing c (snd (profile_events es (profile_mount s)))"
    using profile_events_own_listing by blast
  with profile_render_cards [OF assms(2)] show ?thesis
    by (auto simp: own_listing_def list_all_iff list_ex_iff)
qed

end
