(* ===== verification/Navigation.thy ===== *)
theory Navigation
  imports Views
begin

text \<open>
  The confirmation dialog (src/components/ConfirmModal.jsx) and the navigation bar
  (src/components/Navbar.jsx). The dialog is generic in the state its callbacks act
  on: a click on its confirm button runs \<open>onConfirm\<close> and then \<open>onClose\<close>, a click
  on cancel or on the backdrop itself runs \<open>onClose\<close>, a click inside the dialog
  does nothing. The bar's state is whether the mobile menu and the logout dialog
  are open; its logout dialog confirms into \<open>handleLogout\<close>. The theme toggle
  calls the missing \<open>useTheme\<close> hook and is not modelled.
\<close>

section \<open>ConfirmModal\<close>

definition confirm_modal_render :: "bool \<Rightarrow> string \<Rightarrow> string \<Rightarrow> string \<Rightarrow> string \<Rightarrow> widget list" where
  "confirm_modal_render isOpen ttl msg confirmText cancelText =
     (if \<not> isOpen then [] else [Heading ttl, Para msg, Btn cancelText, Btn confirmText])"

datatype modal_click = ModalCancel | ModalConfirm | ModalBackdrop | ModalInside

fun confirm_modal_click :: "modal_click \<Rightarrow> ('a \<Rightarrow> 'a) \<Rightarrow> ('a \<Rightarrow> 'a) \<Rightarrow> 'a \<Rightarrow> 'a" where
  "confirm_modal_click ModalCancel onClose onConfirm x = onClose x"
| "confirm_modal_click ModalConfirm onClose onConfirm x = onClose (onConfirm x)"
| "confirm_modal_click ModalBackdrop onClose onConfirm x = onClose x"
| "confirm_modal_click ModalInside onClose onConfirm x = x"

section \<open>Navbar\<close>

record navbar =
  nb_mobileMenuOpen :: bool
  nb_showLogoutModal :: bool

definition navbar_init :: navbar where
  "navbar_init = \<lparr>nb_mobileMenuOpen = False, nb_showLogoutModal = False\<rparr>"

text \<open>The links of the bar, desktop or mobile, by their targets, then the greeting and
  the logout button for a logged-in user.\<close>

definition navbar_menu :: "app \<Rightarrow> widget list" where
  "navbar_menu s =
     map LinkTo (navbar_links s) @
     (if isAuthenticated s
      then [Para (''Hi, '' @ (case authUser s of None \<Rightarrow> [] | Some u \<Rightarrow> cu_name u)), Btn ''Logout'']
      else [])"

definition navbar_render :: "app \<Rightarrow> navbar \<Rightarrow> widget list" where
  "navbar_render s nb =
     [LinkTo ''/'', Btn ''Toggle dark mode''] @ navbar_menu s @ [Btn ''Toggle dark mode'', Btn ''Toggle menu''] @
     (if nb_mobileMenuOpen nb then navbar_menu s else []) @
     confirm_modal_render (nb_showLogoutModal nb) ''Confirm Logout''
       (''Are you sure you want to logout? You'' @ [CHR 0x27] @ ''ll need to sign in again to access your account.'')
       ''Yes, Logout'' ''Cancel''"

datatype navbar_event = ToggleMenu | MenuLink | LogoutClick | LogoutModal modal_click

text \<open>One event on the bar: the new bar state, the navigation it asks for, and the
  application state. \<open>handleLogout\<close> logs out, closes the menu and navigates to
  \<open>/login\<close>; the dialog's \<open>onClose\<close> then hides it. The dialog's buttons exist
  only while it is open (\<open>if (!isOpen) return null\<close>).\<close>

fun navbar_step :: "navbar_event \<Rightarrow> navbar \<times> nav \<times> app \<Rightarrow> navbar \<times> nav \<times> app" where
  "navbar_step ToggleMenu (nb, v, s) = (nb\<lparr>nb_mobileMenuOpen := \<not> nb_mobileMenuOpen nb\<rparr>, v, s)"
| "navbar_step MenuLink (nb, v, s) = (nb\<lparr>nb_mobileMenuOpen := False\<rparr>, v, s)"
| "navbar_step LogoutClick (nb, v, s) = (nb\<lparr>nb_showLogoutModal := True\<rparr>, v, s)"
| "navbar_step (LogoutModal k) (nb, v, s) =
     (if \<not> nb_showLogoutModal nb then (nb, v, s) else
     confirm_modal_click k
       (\<lambda>(nb, v, s). (nb\<lparr>nb_showLogoutModal := False\<rparr>, v, s))
       (\<lambda>(nb, v, s). case navbar_handleLogout s of (v', s') \<Rightarrow> (nb\<lparr>nb_mobileMenuOpen := False\<rparr>, v', s'))
       (nb, v, s))"

fun navbar_events :: "navbar_event list \<Rightarrow> navbar \<times> nav \<times> app \<Rightarrow> navbar \<times> nav \<times> app" where
  "navbar_events [] x = x"
| "navbar_events (e # es) x = navbar_events es (navbar_step e x)"

section \<open>Dashboard\<close>

text \<open>The home page (src/pages/Dashboard.jsx): the call to action depends on the
  session, and a logged-in user is greeted and offered the profile.\<close>

definition dashboard_render :: "app \<Rightarrow> widget list" where
  "dashboard_render s =
     [Heading ''Welcome to NotesBuddy'',
      Para ''Your one-stop platform for sharing and accessing educational resources.''] @
     (if isAuthenticated s then [LinkTo ''/notes'', LinkTo ''/upload''] else [LinkTo ''/register'', LinkTo ''/login'']) @
     [Heading ''Easy Upload'', Heading ''Smart Search'', Heading ''Free Downloads''] @
     (if isAuthenticated s
      then [Heading (''Welcome back, '' @ (case authUser s of None \<Rightarrow> [] | Some u \<Rightarrow> cu_name u) @ ''!''),
            LinkTo ''/profile'']
      else [])"

section \<open>Facts\<close>

lemma logout_idem [simp]: "logout (logout s) = logout s"
  by (simp add: logout_def)

lemma navbar_step_app:
  "snd (snd (navbar_step e x)) = snd (snd x) \<or>
   (e = LogoutModal ModalConfirm \<and> snd (snd (navbar_step e x)) = logout (snd (snd x)))"
proof (cases e)
  case (LogoutModal k)
  then show ?thesis by (cases x; cases k) (auto simp: navbar_handleLogout_def)
qed (cases x; simp)+

lemma navbar_events_no_confirm:
  "LogoutModal ModalConfirm \<notin> set es \<Longrightarrow> snd (snd (navbar_events es x)) = snd (snd x)"
proof (induction es arbitrary: x)
  case Nil
  then show ?case by simp
next
  case (Cons e es)
  then have "snd (snd (navbar_step e x)) = snd (snd x)" using navbar_step_app [of e x] by auto
  with Cons show ?case by simp
qed

section \<open>Properties\<close>

text \<open>The bar logs out only through its confirmation dialog. Any sequence of bar
  events without a confirm click leaves the application state as it was; opening the
  dialog and confirming logs out in both session stores, closes the menu and the
  dialog and navigates to the login page, after which the bar offers the notes,
  login and register links and no logout button.\<close>

lemma navbar_logout_only_confirmed:
  "(LogoutModal ModalConfirm \<notin> set es \<longrightarrow> snd (snd (navbar_events es (nb, v, s))) = s) \<and>
   navbar_events [LogoutClick, LogoutModal ModalConfirm] (nb, v, s) =
     (nb\<lparr>nb_mobileMenuOpen := False, nb_showLogoutModal := False\<rparr>, ToLogin, logout s) \<and>
   navbar_menu (logout s) = [LinkTo ''/notes'', LinkTo ''/login'', LinkTo ''/register'']"
  using navbar_events_no_confirm [of es "(nb, v, s)"]
  by (simp add: navbar_handleLogout_def navbar_menu_def navbar_links_def isAuthenticated_def logout_def)

end
