(* ===== verification/Routes.thy ===== *)
theory Routes
  imports ProfilePage ListPage Navigation
begin

text \<open>
  The route table of src/App.jsx and the links the components render. The table maps
  path patterns to pages; \<open>/upload\<close> and \<open>/profile\<close> are wrapped in ProtectedRoute,
  whose module is missing from the repository, so the model only records the
  wrapping; \<open>*\<close> redirects to \<open>/\<close>. Path matching is react-router's: a path is split
  into its non-empty segments, a pattern segment is a literal, a parameter (\<open>:id\<close>)
  or the splat (\<open>*\<close>), and among the matching routes the most specific wins (a
  literal segment outranks a parameter, which outranks the splat; the table has no
  two routes of equal rank that match one path).
\<close>

datatype page = DashboardPg | LoginPg | RegisterPg | NotesListPg | NoteDetailsPg | UploadPg | ProfilePg

datatype route_el = Public page | Protected page | RedirectHome

datatype seg = Lit string | Param string | Splat

definition app_routes :: "(seg list \<times> route_el) list" where
  "app_routes =
     [([], Public DashboardPg), ([Lit ''login''], Public LoginPg), ([Lit ''register''], Public RegisterPg),
      ([Lit ''notes''], Public NotesListPg), ([Lit ''notes'', Param ''id''], Public NoteDetailsPg),
      ([Lit ''upload''], Protected UploadPg), ([Lit ''profile''], Protected ProfilePg),
      ([Splat], RedirectHome)]"

section \<open>Matching\<close>

fun path_segs_acc :: "string \<Rightarrow> string \<Rightarrow> string list" where
  "path_segs_acc [] cur = (if cur = [] then [] else [rev cur])"
| "path_segs_acc (c # cs) cur =
     (if c = CHR ''/'' then (if cur = [] then path_segs_acc cs [] else rev cur # path_segs_acc cs [])
      else path_segs_acc cs (c # cur))"

definition path_segs :: "string \<Rightarrow> string list" where
  "path_segs p = path_segs_acc p []"

fun seg_match :: "seg list \<Rightarrow> string list \<Rightarrow> bool" where
  "seg_match [] [] = True"
| "seg_match (Splat # _) _ = True"
| "seg_match (Lit a # ps) (x # xs) = (a = x \<and> seg_match ps xs)"
| "seg_match (Param _ # ps) (x # xs) = seg_match ps xs"
| "seg_match _ _ = False"

fun seg_score :: "seg \<Rightarrow> int" where
  "seg_score (Lit _) = 10"
| "seg_score (Param _) = 3"
| "seg_score Splat = -2"

definition route_score :: "seg list \<Rightarrow> int" where
  "route_score ps = sum_list (map seg_score ps)"

definition resolve :: "string \<Rightarrow> route_el option" where
  "resolve p =
     map_option snd
       (find (\<lambda>(ps, _). seg_match ps (path_segs p)) (sort_key (\<lambda>(ps, _). - route_score ps) app_routes))"

section \<open>Links\<close>

fun show_nat :: "nat \<Rightarrow> string" where
  "show_nat n = (if n < 10 then [char_of (48 + n)] else show_nat (n div 10) @ [char_of (48 + n mod 10)])"

declare show_nat.simps [simp del]

definition show_int :: "int \<Rightarrow> string" where
  "show_int i = (if i < 0 then ''-'' @ show_nat (nat (- i)) else show_nat (nat i))"

text \<open>The path a rendered element links to: a \<open>Link\<close> by its \<open>to\<close>, the card's
  \<open>View Details\<close> link by \<open>/notes/${note.id}\<close>; and the path a handler navigates to.\<close>

definition note_path :: "nid \<Rightarrow> string" where
  "note_path i = ''/notes/'' @ show_int i"

fun widget_target :: "widget \<Rightarrow> string option" where
  "widget_target (LinkTo p) = Some p"
| "widget_target (NoteLink i) = Some (note_path i)"
| "widget_target _ = None"

fun nav_target :: "nav \<Rightarrow> string option" where
  "nav_target Stay = None"
| "nav_target ToLogin = Some ''/login''"
| "nav_target ToNotes = Some ''/notes''"

text \<open>A target is declared when the route it resolves to is a page, not the
  fallback redirect.\<close>

definition declared :: "string \<Rightarrow> bool" where
  "declared p \<longleftrightarrow> resolve p \<noteq> Some RedirectHome \<and> resolve p \<noteq> None"

definition links_declared :: "widget list \<Rightarrow> bool" where
  "links_declared ws \<longleftrightarrow> list_all (\<lambda>w. pred_option declared (widget_target w)) ws"

section \<open>Facts\<close>

lemma digit_not_slash:
  assumes "(k::nat) < 10" shows "char_of (48 + k) \<noteq> CHR ''/''"
proof
  assume "char_of (48 + k) = CHR ''/''"
  then have "of_char (char_of (48 + k) :: char) = (of_char (CHR ''/'') :: nat)" by simp
  with assms show False by (simp add: of_char_of)
qed
lemma show_nat_ok: "show_nat n \<noteq> [] \<and> CHR ''/'' \<notin> set (show_nat n)"
proof (induction n rule: show_nat.induct)
  case (1 n)
  show ?case
  proof (cases "n < 10")
    case True
    then show ?thesis using digit_not_slash [of n] by (simp add: show_nat.simps [of n])
  next
    case False
    with 1 show ?thesis using digit_not_slash [of "n mod 10"] by (simp add: show_nat.simps [of n])
  qed
qed
lemma path_segs_acc_plain:
  "CHR ''/'' \<notin> set x \<Longrightarrow> path_segs_acc x cur = (if rev cur @ x = [] then [] else [rev cur @ x])"
  by (induction x arbitrary: cur) auto
lemma resolve_note: "resolve (note_path i) = Some (Public NoteDetailsPg)"
proof -
  have "show_int i \<noteq> [] \<and> CHR ''/'' \<notin> set (show_int i)"
    using show_nat_ok by (simp add: show_int_def)
  then have "path_segs (note_path i) = [''notes'', show_int i]"
    by (simp add: note_path_def path_segs_def path_segs_acc_plain)
  then show ?thesis by (simp add: resolve_def app_routes_def route_score_def)
qed
lemma declared_paths:
  "declared ''/''" "declared ''/notes''" "declared ''/login''" "declared ''/register''"
  "declared ''/upload''" "declared ''/profile''"
  by (simp_all add: declared_def resolve_def path_segs_def app_routes_def route_score_def)

lemma declared_note: "declared (note_path i)"
  by (simp add: declared_def resolve_note)

lemma links_declared_append [simp]: "links_declared (xs @ ys) \<longleftrightarrow> links_declared xs \<and> links_declared ys"
  by (simp add: links_declared_def)

lemma links_declared_simps [simp]:
  "links_declared []"
  "links_declared (w # ws) \<longleftrightarrow> pred_option declared (widget_target w) \<and> links_declared ws"
  "links_declared (map (\<lambda>n. CardOf (f n)) xs)"
  "links_declared (map LinkTo ps) \<longleftrightarrow> list_all declared ps"
  "links_declared (map (\<lambda>(k, v). Stat k v) kvs)"
  by (simp_all add: links_declared_def list_all_iff split_def)

lemma links_declared_if [simp]:
  "links_declared (if b then xs else ys) \<longleftrightarrow> (if b then links_declared xs else links_declared ys)"
  by simp

section \<open>Properties\<close>

text \<open>C17: no link of the application is dangling. Every link the navigation bar, the home page,
  a note card, the note page, the profile page and the listing page render, the
  card's \<open>/notes/${note.id}\<close> link for every id included, and every navigation a
  handler asks for, resolves in the route table of App.jsx to a declared page, not
  to the \<open>*\<close> fallback.\<close>

theorem links_all_declared:
  "links_declared (navbar_render s nb) \<and> links_declared (dashboard_render s) \<and> links_declared (card_render s n c) \<and>
   links_declared (details_render s d) \<and> links_declared (profile_render s p) \<and>
   links_declared (notesList_render s st) \<and> pred_option declared (nav_target v)"
proof -
  have "links_declared (navbar_render s nb)"
    by (simp add: navbar_render_def navbar_menu_def navbar_links_def confirm_modal_render_def declared_paths)
  moreover have "links_declared (dashboard_render s)"
    by (simp add: dashboard_render_def declared_paths)
  moreover have "links_declared (card_render s n c)"
    by (simp add: card_render_def declared_note)
  moreover have "links_declared (details_render s d)"
    by (simp add: details_render_def declared_paths split: option.split)
  moreover have "links_declared (profile_render s p)"
    by (simp add: profile_render_def declared_paths split: option.split)
  moreover have "links_declared (notesList_render s st)"
    by (simp add: notesList_render_def)
  moreover have "pred_option declared (nav_target v)"
    by (cases v) (simp_all add: declared_paths)
  ultimately show ?thesis by blast
qed

end
