(* ===== verification/UploadPage.thy ===== *)
theory UploadPage
  imports Notes
begin

text \<open>
  The Upload page (src/pages/Upload.jsx) with its file picker
  (src/components/FileUpload.jsx), and the alternative page src/UPDATE_Upload.jsx.
  The page checks its form (\<open>validateForm\<close>), builds a \<open>FormData\<close> of the trimmed
  fields and the file and calls \<open>uploadNote\<close> of NotesProvider; the file picker
  accepts a file only through \<open>validateFile\<close>. \<open>UPDATE_Upload\<close> sends a plain object
  instead, which \<open>uploadNote\<close> cannot read. String lengths count characters (the
  code's \<open>.length\<close> counts UTF-16 code units; the two agree on the BMP).
\<close>

section \<open>FileUpload\<close>

text \<open>A browser \<open>File\<close>: its name, MIME type and size, and the data URL
  \<open>FileReader.readAsDataURL\<close> produces for it.\<close>

record file_obj =
  f_name :: string
  f_type :: string
  f_size :: nat
  f_data :: string

datatype file_error = NoFileSelected | NotPdf | FileTooLarge nat

text \<open>The default \<open>maxSize\<close> prop: 10 MB.\<close>

definition defaultMaxSize :: nat where
  "defaultMaxSize = 10485760"

definition validateFile :: "nat \<Rightarrow> file_obj option \<Rightarrow> file_error option" where
  "validateFile maxSize file =
     (case file of
        None \<Rightarrow> Some NoFileSelected
      | Some f \<Rightarrow>
          if \<not> js_includes (f_type f) ''pdf'' then Some NotPdf
          else if maxSize < f_size f then Some (FileTooLarge maxSize)
          else None)"

text \<open>\<open>handleFile\<close>: a valid file is selected and handed to \<open>onFileSelect\<close>.\<close>

definition handleFile :: "nat \<Rightarrow> file_obj \<Rightarrow> file_error + file_obj" where
  "handleFile maxSize f = (case validateFile maxSize (Some f) of None \<Rightarrow> Inr f | Some e \<Rightarrow> Inl e)"

section \<open>The Upload page\<close>

text \<open>The page's \<open>formData\<close> state and its initial value.\<close>

record upload_page =
  p_title :: string
  p_description :: string
  p_schoolName :: string
  p_disciplineName :: string
  p_subject :: string
  p_semester :: string
  p_isPrivate :: bool

definition upload_page_init :: upload_page where
  "upload_page_init = \<lparr>p_title = [], p_description = [], p_schoolName = [], p_disciplineName = [],
     p_subject = [], p_semester = [], p_isPrivate = False\<rparr>"

text \<open>The keys of \<open>newErrors\<close>, in the order \<open>validateForm\<close> sets them.\<close>

datatype upload_field = ETitle | EDescription | ESchoolName | EDisciplineName | ESubject | ESemester | EFile

definition validateForm :: "upload_page \<Rightarrow> file_obj option \<Rightarrow> upload_field list" where
  "validateForm fd file =
     (if p_title fd = [] \<or> length (js_trim (p_title fd)) < 3 then [ETitle] else []) @
     (if p_description fd \<noteq> [] \<and> 2000 < length (p_description fd) then [EDescription] else []) @
     (if p_schoolName fd = [] \<or> length (js_trim (p_schoolName fd)) < 2 then [ESchoolName] else []) @
     (if p_disciplineName fd = [] \<or> length (js_trim (p_disciplineName fd)) < 2
      then [EDisciplineName] else []) @
     (if p_subject fd = [] \<or> length (js_trim (p_subject fd)) < 2 then [ESubject] else []) @
     (if p_semester fd = [] \<or> length (js_trim (p_semester fd)) < 1 then [ESemester] else []) @
     (if file = None then [EFile] else [])"

text \<open>\<open>FormData.append\<close> turns the boolean \<open>isPrivate\<close> into its string.\<close>

definition form_bool :: "bool \<Rightarrow> string" where
  "form_bool b = (if b then ''true'' else ''false'')"

definition upload_formdata :: "upload_page \<Rightarrow> file_obj \<Rightarrow> upload_form" where
  "upload_formdata fd f =
     \<lparr>form_title = js_trim (p_title fd), form_description = js_trim (p_description fd),
      form_schoolName = js_trim (p_schoolName fd), form_disciplineName = js_trim (p_disciplineName fd),
      form_subject = js_trim (p_subject fd), form_semester = js_trim (p_semester fd),
      form_isPrivate = form_bool (p_isPrivate fd), form_file = Some (f_name f, f_data f)\<rparr>"

text \<open>What a submit ends with: the form's errors, the context's failure, or the
  stored note (after which the page navigates to \<open>/notes\<close>).\<close>

datatype upload_outcome = FormInvalid "upload_field list" | UploadRejected err | Uploaded note_obj

definition upload_handleSubmit ::
  "millis \<Rightarrow> millis \<Rightarrow> upload_page \<Rightarrow> file_obj option \<Rightarrow> app \<Rightarrow> upload_outcome \<times> app" where
  "upload_handleSubmit now isoNow fd file s =
     (let errs = validateForm fd file
      in if errs \<noteq> [] then (FormInvalid errs, s)
         else case file of
           None \<Rightarrow> (FormInvalid [EFile], s)
         | Some f \<Rightarrow>
             (case uploadNote now isoNow (upload_formdata fd f) s of
                (Inl e, s') \<Rightarrow> (UploadRejected e, s')
              | (Inr n, s') \<Rightarrow> (Uploaded n, s')))"

section \<open>UPDATE_Upload\<close>

text \<open>\<open>uploadNote(noteData)\<close> with a plain object: after the login check,
  \<open>formData.get('file')\<close> throws a \<open>TypeError\<close> (a plain object has no \<open>get\<close>), and
  the catch branch answers "Upload failed".\<close>

definition uploadNote_plain :: "app \<Rightarrow> note_obj result" where
  "uploadNote_plain s =
     (case currentUser s of None \<Rightarrow> (Inl NotAuthenticated, s) | Some _ \<Rightarrow> (Inl UploadFailed, s))"

definition update_upload_handleSubmit ::
  "upload_page \<Rightarrow> file_obj option \<Rightarrow> app \<Rightarrow> upload_outcome \<times> app" where
  "update_upload_handleSubmit fd file s =
     (let errs = validateForm fd file
      in if errs \<noteq> [] then (FormInvalid errs, s)
         else case uploadNote_plain s of
           (Inl e, s') \<Rightarrow> (UploadRejected e, s')
         | (Inr n, s') \<Rightarrow> (Uploaded n, s'))"

section \<open>The page's events\<close>

text \<open>The picker's own state (FileUpload.jsx: \<open>dragActive\<close>, \<open>selectedFile\<close>,
  \<open>error\<close>) and its events. \<open>picker_step\<close> returns the new state and what it hands
  to \<open>onFileSelect\<close>: nothing (\<open>None\<close>) or a file or \<open>null\<close>. A drop or a file
  input change without a file does nothing; a file goes through \<open>handleFile\<close> with
  the default \<open>maxSize\<close>, which Upload does not override.\<close>

record picker =
  fu_dragActive :: bool
  fu_selectedFile :: "file_obj option"
  fu_error :: "file_error option"

definition picker_init :: picker where
  "picker_init = \<lparr>fu_dragActive = False, fu_selectedFile = None, fu_error = None\<rparr>"

definition picker_handleFile :: "file_obj \<Rightarrow> picker \<Rightarrow> picker \<times> file_obj option option" where
  "picker_handleFile f p =
     (case handleFile defaultMaxSize f of
        Inl e \<Rightarrow> (p\<lparr>fu_error := Some e\<rparr>, None)
      | Inr g \<Rightarrow> (p\<lparr>fu_error := None, fu_selectedFile := Some g\<rparr>, Some (Some g)))"

datatype picker_event = DragEnter | DragOver | DragLeave | Drop "file_obj option"
  | PickChange "file_obj option" | Remove

fun picker_step :: "picker_event \<Rightarrow> picker \<Rightarrow> picker \<times> file_obj option option" where
  "picker_step DragEnter p = (p\<lparr>fu_dragActive := True\<rparr>, None)"
| "picker_step DragOver p = (p\<lparr>fu_dragActive := True\<rparr>, None)"
| "picker_step DragLeave p = (p\<lparr>fu_dragActive := False\<rparr>, None)"
| "picker_step (Drop fo) p =
     (let p' = p\<lparr>fu_dragActive := False\<rparr>
      in case fo of None \<Rightarrow> (p', None) | Some f \<Rightarrow> picker_handleFile f p')"
| "picker_step (PickChange fo) p = (case fo of None \<Rightarrow> (p, None) | Some f \<Rightarrow> picker_handleFile f p)"
| "picker_step Remove p = (p\<lparr>fu_selectedFile := None, fu_error := None\<rparr>, Some None)"

text \<open>The Upload page's state: the form, the file, the fields whose error message is
  set (a message cleared to \<open>''\<close> is not shown), and the picker it renders.\<close>

record upload_view =
  u_form :: upload_page
  u_file :: "file_obj option"
  u_errors :: "upload_field list"
  u_picker :: picker

definition upload_view_init :: upload_view where
  "upload_view_init = \<lparr>u_form = upload_page_init, u_file = None, u_errors = [], u_picker = picker_init\<rparr>"

text \<open>An input of the form: a text field by its name, or the privacy checkbox.\<close>

datatype form_input = ITitle string | IDescription string | ISchoolName string
  | IDisciplineName string | ISubject string | ISemester string | IPrivate bool

fun input_field :: "form_input \<Rightarrow> upload_field option" where
  "input_field (ITitle _) = Some ETitle"
| "input_field (IDescription _) = Some EDescription"
| "input_field (ISchoolName _) = Some ESchoolName"
| "input_field (IDisciplineName _) = Some EDisciplineName"
| "input_field (ISubject _) = Some ESubject"
| "input_field (ISemester _) = Some ESemester"
| "input_field (IPrivate _) = None"

fun apply_input :: "form_input \<Rightarrow> upload_page \<Rightarrow> upload_page" where
  "apply_input (ITitle v) fd = fd\<lparr>p_title := v\<rparr>"
| "apply_input (IDescription v) fd = fd\<lparr>p_description := v\<rparr>"
| "apply_input (ISchoolName v) fd = fd\<lparr>p_schoolName := v\<rparr>"
| "apply_input (IDisciplineName v) fd = fd\<lparr>p_disciplineName := v\<rparr>"
| "apply_input (ISubject v) fd = fd\<lparr>p_subject := v\<rparr>"
| "apply_input (ISemester v) fd = fd\<lparr>p_semester := v\<rparr>"
| "apply_input (IPrivate b) fd = fd\<lparr>p_isPrivate := b\<rparr>"

definition upload_handleChange :: "form_input \<Rightarrow> upload_view \<Rightarrow> upload_view" where
  "upload_handleChange i st =
     st\<lparr>u_form := apply_input i (u_form st),
        u_errors := (case input_field i of None \<Rightarrow> u_errors st | Some k \<Rightarrow> removeAll k (u_errors st))\<rparr>"

definition upload_handleFileSelect :: "file_obj option \<Rightarrow> upload_view \<Rightarrow> upload_view" where
  "upload_handleFileSelect fo st = st\<lparr>u_file := fo, u_errors := removeAll EFile (u_errors st)\<rparr>"

datatype upload_event = FormInput form_input | PickerEvent picker_event | SubmitForm millis millis

fun upload_event_step :: "upload_event \<Rightarrow> upload_view \<times> app \<Rightarrow> upload_view \<times> app" where
  "upload_event_step (FormInput i) (st, s) = (upload_handleChange i st, s)"
| "upload_event_step (PickerEvent e) (st, s) =
     (case picker_step e (u_picker st) of
        (p', None) \<Rightarrow> (st\<lparr>u_picker := p'\<rparr>, s)
      | (p', Some fo) \<Rightarrow> (upload_handleFileSelect fo (st\<lparr>u_picker := p'\<rparr>), s))"
| "upload_event_step (SubmitForm now isoNow) (st, s) =
     (st\<lparr>u_errors := validateForm (u_form st) (u_file st)\<rparr>,
      snd (upload_handleSubmit now isoNow (u_form st) (u_file st) s))"

fun upload_events :: "upload_event list \<Rightarrow> upload_view \<times> app \<Rightarrow> upload_view \<times> app" where
  "upload_events [] ps = ps"
| "upload_events (e # es) ps = upload_events es (upload_event_step e ps)"

text \<open>UPDATE_Upload has the same state, \<open>validateForm\<close>, \<open>handleChange\<close> and
  \<open>handleFileSelect\<close> (its lines 30 to 81 repeat Upload's) and its own submit.\<close>

fun update_upload_event_step :: "upload_event \<Rightarrow> upload_view \<times> app \<Rightarrow> upload_view \<times> app" where
  "update_upload_event_step (SubmitForm _ _) (st, s) =
     (st\<lparr>u_errors := validateForm (u_form st) (u_file st)\<rparr>,
      snd (update_upload_handleSubmit (u_form st) (u_file st) s))"
| "update_upload_event_step e ps = upload_event_step e ps"

fun update_upload_events :: "upload_event list \<Rightarrow> upload_view \<times> app \<Rightarrow> upload_view \<times> app" where
  "update_upload_events [] ps = ps"
| "update_upload_events (e # es) ps = update_upload_events es (update_upload_event_step e ps)"

text \<open>The page's file is the picker's selected file, and it passed the picker's check.\<close>

definition file_sync :: "upload_view \<Rightarrow> bool" where
  "file_sync st \<longleftrightarrow>
     u_file st = fu_selectedFile (u_picker st) \<and> pred_option (\<lambda>f. handleFile defaultMaxSize f = Inr f) (u_file st)"

section \<open>Facts\<close>

lemma js_trim_Nil [simp]: "js_trim [] = []"
  by (simp add: js_trim_def)

lemma length_js_trim: "length (js_trim s) \<le> length s"
proof -
  have "length (dropWhile js_space (rev (dropWhile js_space s))) \<le> length (rev (dropWhile js_space s))"
    by (rule length_dropWhile_le)
  also have "\<dots> \<le> length s" by (simp add: length_dropWhile_le)
  finally show ?thesis by (simp add: js_trim_def)
qed

lemma form_bool_true [simp]: "(form_bool b = ''true'') \<longleftrightarrow> b"
  by (simp add: form_bool_def)

text \<open>The form passes \<open>validateForm\<close> exactly when every trimmed field is long
  enough, the description is at most 2000 characters and a file is chosen.\<close>

lemma validateForm_Nil:
  "validateForm fd file = [] \<longleftrightarrow>
     3 \<le> length (js_trim (p_title fd)) \<and> length (p_description fd) \<le> 2000 \<and>
     2 \<le> length (js_trim (p_schoolName fd)) \<and> 2 \<le> length (js_trim (p_disciplineName fd)) \<and>
     2 \<le> length (js_trim (p_subject fd)) \<and> 1 \<le> length (js_trim (p_semester fd)) \<and> file \<noteq> None"
  by (auto simp: validateForm_def not_less Suc_le_eq)

lemma upload_handleSubmit_Uploaded:
  assumes "fst (upload_handleSubmit now isoNow fd file s) = Uploaded n"
  obtains f c where "validateForm fd file = []" and "file = Some f" and "currentUser s = Some c"
    and "n = \<lparr>note_id = now, title = js_trim (p_title fd),
               description = js_or (js_trim (p_description fd)) [],
               schoolName = js_trim (p_schoolName fd), disciplineName = js_trim (p_disciplineName fd),
               subject = js_trim (p_subject fd), semester = js_trim (p_semester fd),
               filePath = f_data f, fileName = f_name f, uploadedBy = cu_id c, uploaderName = cu_name c,
               isPrivate = p_isPrivate fd, downloads = 0, viewCount = 0, likeCount = 0,
               uploadedAt = isoNow\<rparr>"
    and "snd (upload_handleSubmit now isoNow fd file s) = s\<lparr>allNotes := allNotes s @ [n]\<rparr>"
proof -
  have v: "validateForm fd file = []"
    using assms by (auto simp: upload_handleSubmit_def Let_def split: if_splits)
  then obtain f where f: "file = Some f" by (auto simp: validateForm_Nil)
  obtain c where c: "currentUser s = Some c"
    using assms v f by (cases "currentUser s") (auto simp: upload_handleSubmit_def uploadNote_def)
  from assms v f c show ?thesis
    by (intro that [OF v f c])
       (auto simp: upload_handleSubmit_def uploadNote_def upload_formdata_def Let_def)
qed

lemma handleFile_Inr: "handleFile m f = Inr g \<Longrightarrow> g = f"
  by (simp add: handleFile_def split: option.splits)

lemma picker_handleFile_sync:
  assumes "picker_handleFile f p = (p', sel)"
  shows "(sel = None \<and> fu_selectedFile p' = fu_selectedFile p) \<or>
         (sel = Some (Some f) \<and> fu_selectedFile p' = Some f \<and> handleFile defaultMaxSize f = Inr f)"
  using assms handleFile_Inr [of defaultMaxSize f]
  by (auto simp: picker_handleFile_def split: sum.splits)

lemma picker_step_sync:
  assumes "picker_step e p = (p', sel)" and "u_file st = fu_selectedFile p"
    and "pred_option (\<lambda>f. handleFile defaultMaxSize f = Inr f) (u_file st)"
  shows "file_sync (case sel of None \<Rightarrow> st\<lparr>u_picker := p'\<rparr>
                     | Some fo \<Rightarrow> upload_handleFileSelect fo (st\<lparr>u_picker := p'\<rparr>))"
proof (cases e)
  case (Drop fo)
  show ?thesis
  proof (cases fo)
    case (Some f)
    with Drop assms(1) have "picker_handleFile f (p\<lparr>fu_dragActive := False\<rparr>) = (p', sel)" by simp
    from picker_handleFile_sync [OF this] assms(2,3) show ?thesis
      by (auto simp: file_sync_def upload_handleFileSelect_def)
  qed (use Drop assms in \<open>auto simp: file_sync_def\<close>)
next
  case (PickChange fo)
  show ?thesis
  proof (cases fo)
    case (Some f)
    with PickChange assms(1) have "picker_handleFile f p = (p', sel)" by simp
    from picker_handleFile_sync [OF this] assms(2,3) show ?thesis
      by (auto simp: file_sync_def upload_handleFileSelect_def)
  qed (use PickChange assms in \<open>auto simp: file_sync_def\<close>)
qed (use assms in \<open>auto simp: file_sync_def upload_handleFileSelect_def\<close>)

lemma upload_event_sync: "file_sync (fst ps) \<Longrightarrow> file_sync (fst (upload_event_step e ps))"
proof (cases ps)
  case (Pair st s)
  assume sync: "file_sync (fst ps)"
  show ?thesis
  proof (cases e)
    case (PickerEvent pe)
    obtain p' sel where "picker_step pe (u_picker st) = (p', sel)" by (cases "picker_step pe (u_picker st)")
    with sync Pair PickerEvent picker_step_sync [OF this, of st] show ?thesis
      by (cases sel) (auto simp: file_sync_def)
  qed (use sync Pair in \<open>auto simp: file_sync_def upload_handleChange_def\<close>)
qed

lemma upload_events_sync: "file_sync (fst ps) \<Longrightarrow> file_sync (fst (upload_events es ps))"
  by (induction es arbitrary: ps) (simp_all add: upload_event_sync)

text \<open>The file picker accepts a file exactly when its MIME type contains
  \<open>pdf\<close> and its size is at most the limit.\<close>

lemma validateFile_accepts:
  "handleFile maxSize f = Inr f \<longleftrightarrow> sublist ''pdf'' (f_type f) \<and> f_size f \<le> maxSize"
  by (auto simp: handleFile_def validateFile_def js_includes_sublist not_less split: option.split)

section \<open>Properties\<close>

text \<open>C22: a submit that stores a note stores it as the last note, from a form that
  passed validation: the title is the trimmed title, at least 3 characters long, the
  other text fields are trimmed and non-empty, the description is at most 2000
  characters, the privacy choice survives its trip through the \<open>FormData\<close> string,
  and the file and uploader are the chosen file and the logged-in user.\<close>

theorem upload_handleSubmit_stores:
  assumes "fst (upload_handleSubmit now isoNow fd file s) = Uploaded n"
  shows "\<exists>f c. file = Some f \<and> currentUser s = Some c \<and>
           allNotes (snd (upload_handleSubmit now isoNow fd file s)) = allNotes s @ [n] \<and>
           title n = js_trim (p_title fd) \<and> 3 \<le> length (title n) \<and>
           length (description n) \<le> 2000 \<and> 2 \<le> length (schoolName n) \<and>
           2 \<le> length (disciplineName n) \<and> 2 \<le> length (subject n) \<and> 1 \<le> length (semester n) \<and>
           isPrivate n = p_isPrivate fd \<and> fileName n = f_name f \<and> filePath n = f_data f \<and>
           uploadedBy n = cu_id c \<and> note_id n = now"
proof -
  obtain f c where v: "validateForm fd file = []" and f: "file = Some f" and c: "currentUser s = Some c"
    and n: "n = \<lparr>note_id = now, title = js_trim (p_title fd),
               description = js_or (js_trim (p_description fd)) [],
               schoolName = js_trim (p_schoolName fd), disciplineName = js_trim (p_disciplineName fd),
               subject = js_trim (p_subject fd), semester = js_trim (p_semester fd),
               filePath = f_data f, fileName = f_name f, uploadedBy = cu_id c, uploaderName = cu_name c,
               isPrivate = p_isPrivate fd, downloads = 0, viewCount = 0, likeCount = 0,
               uploadedAt = isoNow\<rparr>"
    and st: "snd (upload_handleSubmit now isoNow fd file s) = s\<lparr>allNotes := allNotes s @ [n]\<rparr>"
    using upload_handleSubmit_Uploaded [OF assms] by blast
  have "length (js_or (js_trim (p_description fd)) []) \<le> 2000"
    using v length_js_trim [of "p_description fd"] by (auto simp: validateForm_Nil js_or_def)
  with v f c n st show ?thesis by (simp add: validateForm_Nil)
qed

text \<open>C23: a note stored through the Upload page is a PDF within the size limit: after
  any sequence of the page's events (form inputs, the picker's drag, drop, change and
  remove, earlier submits), a submit that stores a note stores the file the picker
  accepted, whose MIME type contains \<open>pdf\<close> and whose size is at most 10 MB.\<close>

theorem upload_page_pdf_only:
  assumes "upload_events es (upload_view_init, s0) = (st, s)"
    and "fst (upload_handleSubmit now isoNow (u_form st) (u_file st) s) = Uploaded n"
  shows "\<exists>f :: file_obj. fileName n = f_name f \<and> filePath n = f_data f \<and>
           sublist ''pdf'' (f_type f) \<and> f_size f \<le> defaultMaxSize"
proof -
  have "file_sync (fst (upload_events es (upload_view_init, s0)))"
    by (rule upload_events_sync) (simp add: file_sync_def upload_view_init_def picker_init_def)
  then have sync: "file_sync st" using assms(1) by simp
  obtain f c where f: "u_file st = Some f"
    and n: "n = \<lparr>note_id = now, title = js_trim (p_title (u_form st)),
               description = js_or (js_trim (p_description (u_form st))) [],
               schoolName = js_trim (p_schoolName (u_form st)), disciplineName = js_trim (p_disciplineName (u_form st)),
               subject = js_trim (p_subject (u_form st)), semester = js_trim (p_semester (u_form st)),
               filePath = f_data f, fileName = f_name f, uploadedBy = cu_id (c :: cur_user), uploaderName = cu_name c,
               isPrivate = p_isPrivate (u_form st), downloads = 0, viewCount = 0, likeCount = 0,
               uploadedAt = isoNow\<rparr>"
    using upload_handleSubmit_Uploaded [OF assms(2)] by blast
  from sync f have "handleFile defaultMaxSize f = Inr f" by (simp add: file_sync_def)
  then have "sublist ''pdf'' (f_type f) \<and> f_size f \<le> defaultMaxSize" by (simp add: validateFile_accepts)
  moreover have "fileName n = f_name f \<and> filePath n = f_data f" using n by simp
  ultimately show ?thesis by blast
qed

text \<open>UPDATE_Upload never stores a note: whatever the form, the file and the
  state, its submit changes nothing and never ends with an upload; so no session of
  the page, whatever its events, changes the application state.\<close>

theorem update_upload_never_uploads:
  "snd (update_upload_handleSubmit fd file s) = s \<and> (\<nexists>n. fst (update_upload_handleSubmit fd file s) = Uploaded n)"
  by (simp add: update_upload_handleSubmit_def uploadNote_plain_def Let_def split: option.split)

lemma update_upload_events_state: "snd (update_upload_events es ps) = snd ps"
proof (induction es arbitrary: ps)
  case Nil
  then show ?case by simp
next
  case (Cons e es)
  have "snd (update_upload_event_step e ps) = snd ps"
    using update_upload_never_uploads
    by (cases ps; cases e) (auto split: prod.split option.split)
  with Cons.IH show ?case by simp
qed

end
