(* ===== verification/UploadView.thy ===== *)
theory UploadView
  imports Routes UploadPage
begin

text \<open>
  What the Upload page (src/pages/Upload.jsx) and its file picker
  (src/components/FileUpload.jsx) render: the form's inputs with the red message of
  each field whose error is set (an \<open>Alert\<close>), the description's character count,
  the picker's prompt or selected file and its own message, and the buttons. The
  selected file's size (\<open>toFixed(2)\<close> of megabytes) is left out.
\<close>

definition field_message :: "upload_field \<Rightarrow> string" where
  "field_message k =
     (case k of
        ETitle \<Rightarrow> ''Title must be at least 3 characters''
      | EDescription \<Rightarrow> ''Description must not exceed 2000 characters''
      | ESchoolName \<Rightarrow> ''School name is required''
      | EDisciplineName \<Rightarrow> ''Discipline name is required''
      | ESubject \<Rightarrow> ''Subject is required''
      | ESemester \<Rightarrow> ''Semester is required''
      | EFile \<Rightarrow> ''Please select a PDF file'')"

text \<open>The picker's messages; \<open>${maxSize / 1048576}\<close> is a whole number for the
  default \<open>maxSize\<close>, the only one the application uses.\<close>

definition file_error_message :: "file_error \<Rightarrow> string" where
  "file_error_message e =
     (case e of
        NoFileSelected \<Rightarrow> ''Please select a file''
      | NotPdf \<Rightarrow> ''Only PDF files are allowed''
      | FileTooLarge m \<Rightarrow> ''File size must not exceed '' @ show_nat (m div 1048576) @ ''MB'')"

definition picker_render :: "picker \<Rightarrow> widget list" where
  "picker_render p =
     Input ''File upload'' #
     (case fu_selectedFile p of
        None \<Rightarrow> [Btn ''Click to upload'', Para ''or drag and drop'',
                 Para (''PDF files only, max '' @ show_nat (defaultMaxSize div 1048576) @ ''MB'')]
      | Some f \<Rightarrow> [Para (f_name f), Btn ''Remove file'']) @
     (case fu_error p of None \<Rightarrow> [] | Some e \<Rightarrow> [Alert (file_error_message e)])"

definition field_errors :: "upload_view \<Rightarrow> upload_field \<Rightarrow> widget list" where
  "field_errors st k = (if k \<in> set (u_errors st) then [Alert (field_message k)] else [])"

definition upload_render :: "upload_view \<Rightarrow> widget list" where
  "upload_render st =
     [Heading ''Upload Notes'', Para ''Share your educational resources with fellow students'',
      Input ''title''] @ field_errors st ETitle @
     [Input ''description''] @ field_errors st EDescription @
     [Para (show_nat (length (p_description (u_form st))) @ ''/2000 characters'')] @
     [Input ''schoolName''] @ field_errors st ESchoolName @
     [Input ''disciplineName''] @ field_errors st EDisciplineName @
     [Input ''subject''] @ field_errors st ESubject @
     [Input ''semester''] @ field_errors st ESemester @
     picker_render (u_picker st) @ field_errors st EFile @
     [Input ''isPrivate'', Btn ''Upload Notes'', Btn ''Cancel'']"

text \<open>src/UPDATE_Upload.jsx renders the same elements; its render differs from
  Upload's only in class names.\<close>

definition update_upload_render :: "upload_view \<Rightarrow> widget list" where
  "update_upload_render st = upload_render st"

section \<open>Facts\<close>

lemma field_message_inj: "field_message k = field_message k' \<longleftrightarrow> k = k'"
  by (cases k; cases k') (simp_all add: field_message_def)

lemma field_message_not_file: "field_message k \<noteq> file_error_message e"
  by (cases k; cases e) (simp_all add: field_message_def file_error_message_def)

lemma picker_render_alert: "Alert (field_message k) \<notin> set (picker_render p)"
  using field_message_not_file [of k]
  by (auto simp: picker_render_def split: option.splits)

lemma field_errors_alert:
  "Alert (field_message k) \<in> set (field_errors st k') \<longleftrightarrow> k' = k \<and> k \<in> set (u_errors st)"
  by (auto simp: field_errors_def field_message_inj)

lemma upload_render_alert:
  "Alert (field_message k) \<in> set (upload_render st) \<longleftrightarrow> k \<in> set (u_errors st)"
  by (cases k) (auto simp: upload_render_def field_errors_alert picker_render_alert)

text \<open>A file dropped after a valid one and rejected leaves the valid one selected:
  the picker shows the rejection and the old file's name together, and does not
  call \<open>onFileSelect\<close>, so the page keeps the old file for its next submit.\<close>

lemma picker_rejected_drop_keeps_file:
  assumes "fu_selectedFile p = Some f" and "handleFile defaultMaxSize g = Inl e"
  shows "picker_step (Drop (Some g)) p = (p\<lparr>fu_dragActive := False, fu_error := Some e\<rparr>, None) \<and>
         Para (f_name f) \<in> set (picker_render (fst (picker_step (Drop (Some g)) p))) \<and>
         Alert (file_error_message e) \<in> set (picker_render (fst (picker_step (Drop (Some g)) p)))"
  using assms by (simp add: picker_handleFile_def picker_render_def)

section \<open>Properties\<close>

text \<open>C25: a submit shows what is wrong: after the Upload page's submit, the page
  shows the red message of a field exactly when \<open>validateForm\<close> rejects that field,
  and when it rejects any, nothing is stored and the state is unchanged.\<close>

theorem upload_submit_shows_errors:
  "(Alert (field_message k) \<in> set (upload_render (fst (upload_event_step (SubmitForm now isoNow) (st, s))))
      \<longleftrightarrow> k \<in> set (validateForm (u_form st) (u_file st))) \<and>
   (validateForm (u_form st) (u_file st) \<noteq> [] \<longrightarrow> snd (upload_event_step (SubmitForm now isoNow) (st, s)) = s)"
  by (simp add: upload_render_alert upload_handleSubmit_def Let_def)

end
