(* ===== verification/Tabs.thy ===== *)
theory Tabs
  imports Invariants
begin

text \<open>
  Two browser tabs of the application. Both read and write the one localStorage (the
  fields \<open>users\<close>, \<open>allNotes\<close>, \<open>likes\<close> and \<open>currentUser\<close> of \<open>app\<close>), but each
  has its own React state: AuthProvider's \<open>user\<close> (\<open>authUser\<close>) and NotesProvider's
  \<open>notes\<close> and \<open>pagination\<close> (\<open>shown\<close>, \<open>pag\<close>). Neither provider listens for the
  \<open>storage\<close> event, so a write in one tab changes the other tab's store but not its
  React state. A step runs one operation in one tab; the runs are all interleavings
  of the two tabs' operations.
\<close>

type_synonym tabs = "app \<times> app"

datatype tab = Tab1 | Tab2

text \<open>The shared localStorage of \<open>s\<close> under the React state of \<open>t\<close>.\<close>

definition share :: "app \<Rightarrow> app \<Rightarrow> app" where
  "share s t = t\<lparr>users := users s, allNotes := allNotes s, likes := likes s, currentUser := currentUser s\<rparr>"

fun tab_state :: "tab \<Rightarrow> tabs \<Rightarrow> app" where
  "tab_state Tab1 ts = fst ts"
| "tab_state Tab2 ts = snd ts"

fun tab_exec :: "tab \<Rightarrow> op \<Rightarrow> tabs \<Rightarrow> tabs" where
  "tab_exec Tab1 a (s1, s2) = (let s1' = snd (exec a s1) in (s1', share s1' s2))"
| "tab_exec Tab2 a (s1, s2) = (let s2' = snd (exec a s2) in (share s2' s1, s2'))"

inductive reachable2 :: "(op \<Rightarrow> bool) \<Rightarrow> tabs \<Rightarrow> bool" for allowed where
  tabs_init: "reachable2 allowed (init_app, init_app)"
| tabs_step: "reachable2 allowed ts \<Longrightarrow> allowed a \<Longrightarrow> op_fresh a (tab_state t ts) \<Longrightarrow>
              reachable2 allowed (tab_exec t a ts)"

fun run2 :: "(tab \<times> op) list \<Rightarrow> tabs \<Rightarrow> tabs" where
  "run2 [] ts = ts"
| "run2 ((t, a) # xs) ts = run2 xs (tab_exec t a ts)"

fun runs2_fresh :: "(tab \<times> op) list \<Rightarrow> tabs \<Rightarrow> bool" where
  "runs2_fresh [] ts = True"
| "runs2_fresh ((t, a) # xs) ts = (op_fresh a (tab_state t ts) \<and> runs2_fresh xs (tab_exec t a ts))"

definition same_store :: "app \<Rightarrow> app \<Rightarrow> bool" where
  "same_store s t \<longleftrightarrow>
     users s = users t \<and> allNotes s = allNotes t \<and> likes s = likes t \<and> currentUser s = currentUser t"

section \<open>Facts\<close>

lemma reachable2_run:
  "reachable2 allowed ts \<Longrightarrow> list_all (allowed \<circ> snd) xs \<Longrightarrow> runs2_fresh xs ts \<Longrightarrow>
   reachable2 allowed (run2 xs ts)"
proof (induction xs arbitrary: ts)
  case Nil
  then show ?case by simp
next
  case (Cons x xs)
  obtain t a where x: "x = (t, a)" by (cases x)
  with Cons.prems have "reachable2 allowed (tab_exec t a ts)" by (auto intro: tabs_step)
  with Cons x show ?case by simp
qed

lemma same_store_share: "same_store s (share s t)"
  and same_store_share': "same_store (share s t) s"
  and share_notes_inv [simp]: "notes_inv (share s t) = notes_inv s"
  and share_counts_inv [simp]: "counts_inv (share s t) = counts_inv s"
  by (simp_all add: same_store_def share_def notes_inv_def counts_inv_def)

lemma same_store_invs:
  "same_store s t \<Longrightarrow> notes_inv t = notes_inv s \<and> counts_inv t = counts_inv s"
  by (simp add: same_store_def notes_inv_def counts_inv_def)

text \<open>One step in either tab keeps the shared store the same in both tabs and keeps
  the store invariants, as the step of one tab does.\<close>

lemma tab_exec_invs:
  assumes "same_store s1 s2" and "notes_inv s1" and "counts_inv s1"
    and "ui_op a" and "op_fresh a (tab_state t (s1, s2))"
  shows "same_store (fst (tab_exec t a (s1, s2))) (snd (tab_exec t a (s1, s2))) \<and>
         notes_inv (fst (tab_exec t a (s1, s2))) \<and> counts_inv (fst (tab_exec t a (s1, s2)))"
proof (cases t)
  case Tab1
  with assms exec_notes_inv [of s1 a] show ?thesis by (simp add: Let_def same_store_share)
next
  case Tab2
  with assms(1,2,3) same_store_invs [OF assms(1)] have "notes_inv s2" "counts_inv s2" by simp_all
  with Tab2 assms(4,5) exec_notes_inv [of s2 a] show ?thesis
    by (simp add: Let_def same_store_share')
qed

section \<open>Properties\<close>

text \<open>C4: however the two tabs' operations interleave (the operations the pages
  call, each reading a fresh clock), both tabs see the same store, note ids and likes
  stay unique and every like counter equals the stored likes of its note.\<close>

theorem tabs_store_invs:
  "reachable2 ui_op ts \<Longrightarrow> same_store (fst ts) (snd ts) \<and> Invariants.notes_inv (fst ts) \<and> Invariants.counts_inv (fst ts)"
proof (induction rule: reachable2.induct)
  case tabs_init
  then show ?case using init_invs by (simp add: same_store_def)
next
  case (tabs_step ts a t)
  obtain s1 s2 where ts: "ts = (s1, s2)" by (cases ts)
  with tabs_step show ?case using tab_exec_invs [of s1 s2 a t] by simp
qed

end
