(* ===== verification/Spec2Isabelle.thy ===== *)
theory Spec2Isabelle
  imports Routes UploadView Tabs
begin

text \<open>
  A verification model of notesBuddy (the standalone, browser-only build): a React
  single-page application in which users register and log in, upload PDF notes, browse,
  search and page through a shared listing, like, download and delete notes and switch
  their privacy. There is no server: the two React contexts
  (src/context/AuthContext.jsx and src/context/NotesContext.jsx) keep every user, note
  and like in the browser's localStorage and act on it directly; the pages and
  components call the contexts' operations and render their results.

  Theories, in import order:
  \<^item> Prelude: the JavaScript built-ins the contexts use (\<open>findIndex\<close>,
    \<open>splice\<close>, \<open>||\<close> on strings) and shared list lemmas.
  \<^item> Store: the objects the code stores (records \<open>user\<close>, \<open>cur_user\<close>,
    \<open>note_obj\<close>, \<open>note_info\<close>, \<open>like\<close>), the localStorage contents
    (record \<open>store\<close>) and the React state of both providers (record \<open>app\<close>,
    which extends \<open>store\<close>), the error messages of the contexts (datatype
    \<open>err\<close>), and the helpers \<open>getUserById\<close>, the privacy filter and the
    uploader display fields.
  \<^item> Pagination: \<open>calculatePagination\<close> of NotesContext.jsx (with the semantics of
    \<open>Array.prototype.slice\<close> and \<open>Math.ceil\<close>) and the Pagination component
    (components/Pagination.jsx: the page window, the \<open>for\<close> loop that pushes its
    page numbers as the recursion \<open>push_pages\<close>, and the controls). Proved: the content
    of each page, that the pages concatenate back to the listing, that a page is
    non-empty exactly up to \<open>totalPages\<close>, the size bounds, the shape of the page
    window, that every enabled control stays in range when the current page is, and
    that a current page past the end keeps Next enabled; the loop terminates (measure
    \<open>endPage + 1 - i\<close>) and pushes exactly \<open>[startPage..endPage]\<close>.
  \<^item> Search: the string built-ins of \<open>searchNotes\<close> (\<open>toLowerCase\<close>,
    \<open>includes\<close>, \<open>trim\<close>), the field values and comparators of its sort,
    \<open>Array.prototype.sort\<close> as a stable insertion sort (proved equal to
    \<open>sort_key\<close> for comparators that order by a key), the filter chain of
    \<open>searchNotes\<close>, and the SearchBar component (components/SearchBar.jsx: filter
    state, \<open>handleFilterChange\<close>, \<open>handleSubmit\<close>, \<open>handleClear\<close>). It also
    states the search bar's promise apart from the code (\<open>search_spec\<close>: each
    filled-in text is found, ignoring case, in one of the fields it names). Proved:
    the filter chain is one filter by that specification, a numeric sort is a
    permutation ordered by the key, the comparator on a note field reads values of the
    field's type (\<open>note_schema\<close>), flips its sign on swapped notes with different
    values and is transitive, but answers -1 both ways on ties (an inconsistent
    comparator), and the sort keys \<open>views\<close>, \<open>likes\<close> and \<open>popularity\<close> the bar
    offers are not note fields.
  \<^item> Notes: every exported operation of NotesProvider (context/NotesContext.jsx:
    \<open>fetchNotes\<close>, \<open>searchNotes\<close>, \<open>uploadNote\<close>, \<open>getNoteById\<close>,
    \<open>downloadNote\<close>, \<open>deleteNote\<close>, \<open>getMyNotes\<close>, \<open>likeNote\<close>,
    \<open>unlikeNote\<close>, \<open>getLikedNotes\<close>, \<open>toggleNotePrivacy\<close>, \<open>updateNote\<close>), each
    a function from the state to its result (\<open>Inl\<close> of the error message on a
    \<open>{ success: false }\<close> return) and the state after it. Proved: the listings and
    \<open>getNoteById\<close> and \<open>downloadNote\<close> respect privacy; \<open>deleteNote\<close>,
    \<open>getNoteById\<close> and \<open>updateNote\<close> on their success branches; like then unlike
    and two privacy switches are round trips; \<open>likeNote\<close> accepts ids no note has;
    \<open>getLikedNotes\<close> lists private notes; the SearchBar's ASC and DESC give the same
    search; on a page that holds every note, \<open>searchNotes\<close> lists exactly the
    visible notes meeting \<open>search_spec\<close>, each once.
  \<^item> Auth: every exported operation of AuthProvider (context/AuthContext.jsx: the
    init effect, \<open>register\<close>, \<open>login\<close>, \<open>logout\<close>, \<open>updateProfile\<close>,
    \<open>changePassword\<close>, \<open>deleteAccount\<close>), with the React \<open>user\<close> (field
    \<open>authUser\<close>) kept apart from the stored session (field \<open>currentUser\<close>) that
    NotesProvider reads. Proved: register then login is a round trip, login succeeds
    exactly with the stored password, a changed password is the one that logs in,
    and what \<open>deleteAccount\<close> removes (not the likes).
  \<^item> App: the application as a state machine: datatype \<open>op\<close> has one constructor
    per exported operation of the two providers and \<open>Reload\<close> (a page load: the
    providers' React state starts again, \<open>auth_init\<close> and \<open>notes_init\<close>); \<open>exec\<close> runs one; \<open>step\<close> is the step relation,
    \<open>reachable\<close> the states reachable from the empty browser by steps whose
    operations satisfy a predicate (\<open>ui_op\<close>: every exported operation but
    \<open>updateNote\<close>, which no page calls; it includes \<open>getLikedNotes\<close>,
    \<open>updateProfile\<close>, \<open>changePassword\<close> and \<open>deleteAccount\<close>, which no page calls
    either but any client of the providers may); \<open>run\<close> runs a list of operations. Proved: a failing operation
    changes nothing.
  \<^item> Invariants: \<open>users_inv\<close> (unique user ids and e-mails, the two session users
    agree and are a stored user without the password), \<open>notes_inv\<close> (unique note ids,
    at most one like per user and note) and \<open>counts_inv\<close> (each counter equals the
    stored likes of its note), with one preservation lemma per operation and their
    rule induction over \<open>reachable\<close>.
  \<^item> Tabs: two browser tabs over one localStorage. A tab's state is an \<open>app\<close>;
    \<open>tab_exec\<close> runs an operation in one tab and copies the stored fields
    (\<open>share\<close>) into the other, whose React state (\<open>authUser\<close>, the listing)
    stays as it was, since neither provider listens for the \<open>storage\<close> event;
    \<open>reachable2\<close> holds the states of every interleaving. Proved: both tabs keep
    one store and the note invariants hold in every interleaving.
  \<^item> UploadPage: the Upload page (pages/Upload.jsx: its state, \<open>handleChange\<close>,
    \<open>handleFileSelect\<close>, \<open>validateForm\<close>, \<open>handleSubmit\<close> and the \<open>FormData\<close> it
    builds), the file picker (components/FileUpload.jsx: its state, the drag, drop,
    change and remove handlers, \<open>handleFile\<close>, \<open>validateFile\<close>), the two composed
    through \<open>onFileSelect\<close> as one event machine (\<open>upload_event_step\<close>), and
    src/UPDATE_Upload.jsx (the same handlers with its own submit). Proved: what a
    submit stores; after any session of events, a stored note's file is the PDF of
    at most 10 MB the picker accepted; UPDATE_Upload never changes the state.
  \<^item> UploadView: what the Upload page and its picker render: the inputs, the red
    message of each field whose error is set, the picker's prompt, file and message.
    Proved: after a submit the page shows a field's message exactly when
    \<open>validateForm\<close> rejects the field, and then nothing is stored.
  \<^item> Pages: the handlers of NoteCard, NotesList, NoteDetails, Profile and Navbar
    that call the contexts, each a function of the component's React state and the application
    state. Proved: the note card refines the store (after a like click it again shows
    the store's state of its note, given the invariants); a fresh card of a liked
    note is stuck; a sort-only search is ignored; Profile's delete removes the note
    from the user's list; Profile's password and account forms never reach the store.
  \<^item> Views: what the note card and the note page render (\<open>card_render\<close>,
    \<open>details_render\<close>): the elements they show, in order, with the owner-only
    controls. Proved: a Delete button shown on a card works (with one session, the
    confirmed click deletes the stored note), and after loading, the note page shows
    the privacy badge and Delete exactly as the store and the tab's user say.
  \<^item> ProfilePage: the Profile page (pages/Profile.jsx) as a state machine: its state
    (\<open>profile_page\<close>), the mount effect (\<open>loadProfile\<close> and \<open>getMyNotes\<close>), one
    event per control (\<open>profile_event\<close>, \<open>profile_event_step\<close>: the password and
    account forms, and the like, download, privacy and delete buttons of its cards)
    and the render.
    Proved over every sequence of events: the account is never changed and no
    statistics are shown (\<open>authAPI\<close> is undefined), and every card is a stored note
    of the logged-in user.
  \<^item> ListPage: the listing page (pages/NotesList.jsx) as a state machine: its mount
    effect, its events (a SearchBar submit, which reloads once more off page 1, a
    page change, which reloads only to another page, and the like, download,
    privacy and delete clicks of its cards, for any card state) and its render with
    the cards and the Pagination controls. Proved over every sequence of events:
    every card shown is a stored note the session user may see. The SearchBar
    (components/SearchBar.jsx) has its own state, events and render, and is
    composed with the page through \<open>onSearch\<close> (\<open>listpage_step\<close>); its Clear
    button shows the unfiltered first page again.
  \<^item> Navigation: the confirmation dialog (components/ConfirmModal.jsx: confirm runs
    \<open>onConfirm\<close> then \<open>onClose\<close>) and the navigation bar (components/Navbar.jsx:
    its menu and dialog state, events and render), and the home page
    (pages/Dashboard.jsx, its render). Proved: the bar logs out only
    through a confirmed dialog, and then offers the login and register links.
  \<^item> Routes: the route table of App.jsx (\<open>app_routes\<close>) and react-router's
    resolution of a path (segments, literal, parameter and splat patterns, the most
    specific match first). Proved: every link the bar, the cards and the pages render,
    and every navigation of a handler, resolves to a declared page.
  \<^item> Spec2Isabelle (this theory): the properties of reachable states (the
    invariants, and the liveness of login: every stored user can log in from every
    reachable state), the scenario runs that exhibit the findings (the leak of
    \<open>getLikedNotes\<close>, the counters of \<open>updateNote\<close>, and with two tabs a like
    stored for another user than the tab shows and two users with one e-mail), and
    the witnesses of the properties of the
    component theories.

  How the parts interact. Pages and components call the providers' operations through
  the contexts; the providers share the one localStorage, so the model has one state
  \<open>app\<close> that every operation reads and returns. The properties of every
  reachable state are proved by rule induction over \<open>reachable\<close> from the
  per-operation preservation lemmas of Invariants. With several tabs open, each tab
  has its own provider state and the store is shared: the session of a tab's
  AuthProvider can then differ from the stored session the note operations read, and
  \<open>users_inv\<close> holds for one tab but not for two.

  Modelling choices. JavaScript numbers that hold ids, timestamps and page numbers are
  \<open>int\<close> (no value the code computes comes near \<open>2^53\<close>); counters that only
  grow by one or fall to at least 0 are \<open>nat\<close>. Timestamps are the milliseconds that
  \<open>Date.now()\<close> returns and that \<open>new Date(iso)\<close> reads back from the ISO string
  the code stores; they are parameters of the operations. The code takes the ids it
  creates with \<open>Date.now()\<close> to be fresh: a step of \<open>UploadNote\<close> or \<open>Register\<close>
  requires its clock reading to differ from every stored id (\<open>op_fresh\<close>); two
  creations in the same millisecond would break the uniqueness of ids. There is no
  loop that may run forever: every loop of the code is a traversal of a stored array,
  modelled by structural recursion, or the counting loop of Pagination, a
  \<open>function\<close> with a measure; so no fuel is needed. String lengths count
  characters (\<open>.length\<close> counts UTF-16 code units) and \<open>toLowerCase\<close> and
  \<open>trim\<close> act on ASCII.

  Not modelled. The transient \<open>loading\<close> flags, toasts, scrolling and DOM
  effects (the download link): they change no stored data. JSON parse failures and
  storage exceptions, which only the catch branches handle: the model's store is
  always well formed and never full, so an upload whose data URL exceeds the browser's
  storage quota, which fails in the code (\<open>setItem\<close> throws), succeeds in the
  model. CSS classes, among them the ones that hide some page buttons on small
  screens. Rendering-only code: Loader, the Navbar's theme toggle (it uses
  the missing useTheme hook), the providers and the toaster of App.jsx, and the
  useNotes hook (it only reads the context). src/CHANGES_NEEDED.js is a snippet of the
  submit of UPDATE_Upload that the application does not load. The modules the pages
  import from hooks/useAuth and hooks/useTheme, and App.jsx's ProtectedRoute, Login
  and Register, are not in the repository; the model takes \<open>useAuth()\<close> to be
  AuthProvider's context value and records ProtectedRoute only as a wrapper.
\<close>

section \<open>Scenario data\<close>

text \<open>Concrete sessions used by the scenario theorems and the witnesses: a public
  note upload form, and two runs of page operations from an empty browser.\<close>

definition form_pub :: upload_form where
  "form_pub = \<lparr>form_title = ''t'', form_description = [], form_schoolName = ''s'',
     form_disciplineName = ''d'', form_subject = ''x'', form_semester = ''1'',
     form_isPrivate = ''false'', form_file = Some (''f.pdf'', ''data'')\<rparr>"

text \<open>B registers and uploads a public note; A registers, likes it; B logs back in
  and makes the note private; A logs back in.\<close>

definition leak_run :: "op list" where
  "leak_run = [Register 1 1 ''B'' ''b'' ''pb'', UploadNote 2 2 form_pub,
               Register 3 3 ''A'' ''a'' ''pa'', LikeNote 4 4 2, Login ''b'' ''pb'',
               ToggleNotePrivacy 2, Login ''a'' ''pa'']"

definition no_patch :: note_patch where
  "no_patch = \<lparr>upd_id = None, upd_title = None, upd_description = None, upd_schoolName = None,
     upd_disciplineName = None, upd_subject = None, upd_semester = None, upd_filePath = None,
     upd_fileName = None, upd_uploadedBy = None, upd_uploaderName = None, upd_isPrivate = None,
     upd_downloads = None, upd_viewCount = None, upd_likeCount = None, upd_uploadedAt = None\<rparr>"

text \<open>B registers, uploads a note and calls \<open>updateNote\<close> with a like count of 7.\<close>

definition counter_run :: "op list" where
  "counter_run = [Register 1 1 ''B'' ''b'' ''pb'', UploadNote 2 2 form_pub,
                  UpdateNote 2 (no_patch\<lparr>upd_likeCount := Some 7\<rparr>)]"

text \<open>B registers and uploads a public note, and stays logged in.\<close>

definition upload_run :: "op list" where
  "upload_run = [Register 1 1 ''B'' ''b'' ''pb'', UploadNote 2 2 form_pub]"

abbreviation upload_state :: app where "upload_state \<equiv> run upload_run init_app"
abbreviation leak_state :: app where "leak_state \<equiv> run leak_run init_app"
abbreviation userB :: cur_user where "userB \<equiv> \<lparr>cu_id = 1, cu_name = ''B'', cu_email = ''b'', cu_createdAt = 1\<rparr>"
abbreviation userA :: cur_user where "userA \<equiv> \<lparr>cu_id = 3, cu_name = ''A'', cu_email = ''a'', cu_createdAt = 3\<rparr>"

text \<open>A valid Upload form (the title with surrounding blanks) and a small PDF.\<close>

definition page_form :: upload_page where
  "page_form = \<lparr>p_title = '' Linear Algebra '', p_description = ''Chapter 1'', p_schoolName = ''MIT'',
     p_disciplineName = ''Math'', p_subject = ''Algebra'', p_semester = ''2'', p_isPrivate = True\<rparr>"

definition pdf_file :: file_obj where
  "pdf_file = \<lparr>f_name = ''la.pdf'', f_type = ''application/pdf'', f_size = 2048, f_data = ''data:pdf''\<rparr>"

text \<open>Two tabs. Tab 1 registers A and uploads a note; tab 2 opens (AuthProvider
  mounts), logs out and registers B; tab 1, whose React state still shows A, likes the
  note.\<close>

definition stale_run :: "(tab \<times> op) list" where
  "stale_run = [(Tab1, Register 1 1 ''A'' ''a'' ''pa''), (Tab1, UploadNote 2 2 form_pub),
                (Tab2, Reload), (Tab2, Logout), (Tab2, Register 3 3 ''B'' ''b'' ''pb''),
                (Tab1, LikeNote 4 4 2)]"

text \<open>Two tabs. Tab 1 registers A with e-mail a; tab 2 opens, changes A's e-mail to
  a2, logs out and registers B with the e-mail a, now free; tab 1, whose React state
  still holds A with e-mail a, saves its profile form with the e-mail a.\<close>

definition email_run :: "(tab \<times> op) list" where
  "email_run = [(Tab1, Register 1 1 ''A'' ''a'' ''pa''), (Tab2, Reload), (Tab2, UpdateProfile [] ''a2''),
                (Tab2, Logout), (Tab2, Register 3 3 ''B'' ''a'' ''pb''), (Tab1, UpdateProfile [] ''a'')]"

abbreviation stale_tabs :: tabs where "stale_tabs \<equiv> run2 stale_run (init_app, init_app)"
abbreviation email_tabs :: tabs where "email_tabs \<equiv> run2 email_run (init_app, init_app)"

text \<open>A session of the Upload page over \<open>upload_state\<close>: the user types the form
  of \<open>page_form\<close> field by field and drags \<open>pdf_file\<close> onto the picker.\<close>

definition upload_es :: "upload_event list" where
  "upload_es = [FormInput (ITitle '' Linear Algebra ''), FormInput (ISchoolName ''MIT''),
                FormInput (IDisciplineName ''Math''), FormInput (ISubject ''Algebra''),
                FormInput (ISemester ''2''), PickerEvent DragEnter, PickerEvent (Drop (Some pdf_file))]"

abbreviation upload_st :: "upload_view \<times> app" where
  "upload_st \<equiv> upload_events upload_es (upload_view_init, upload_state)"

text \<open>The state of \<open>leak_run\<close> after A has liked B's note.\<close>

text \<open>B's note as the listing shows it in \<open>upload_state\<close>, and a note page before
  loading.\<close>

abbreviation note2 :: note_info where "note2 \<equiv> with_user_info (users upload_state) (hd (allNotes upload_state))"
abbreviation details0 :: details where "details0 \<equiv> \<lparr>d_note = None, d_isPrivate = False\<rparr>"

abbreviation liked_state :: app where "liked_state \<equiv> run (take 4 leak_run) init_app"

lemmas scenario_simps = form_pub_def init_app_def clock_fresh_def register_def uploadNote_def
  likeNote_def login_def toggleNotePrivacy_def updateNote_def spread_patch_def no_patch_def
  Let_def without_password_def is_like_of_def

lemmas s1_simps = upload_run_def scenario_simps

lemmas listing_simps = js_sort_def calculatePagination_def js_slice_def js_rel_index_def ceil_div_def
  date_desc_cmp_def

lemma leak_run_reachable: "reachable ui_op (run leak_run init_app)"
  by (rule reachable_run [OF reach_init]) (simp_all add: leak_run_def scenario_simps)

lemma counter_run_reachable: "reachable (\<lambda>_. True) (run counter_run init_app)"
  by (rule reachable_run [OF reach_init]) (simp_all add: counter_run_def scenario_simps)

lemmas tabs_simps = scenario_simps share_def logout_def auth_init_def updateProfile_def js_or_def

lemma stale_run_reachable: "reachable2 ui_op stale_tabs"
  by (rule reachable2_run [OF tabs_init]) (simp_all add: stale_run_def tabs_simps)

lemma email_run_reachable: "reachable2 ui_op email_tabs"
  by (rule reachable2_run [OF tabs_init]) (simp_all add: email_run_def tabs_simps)

lemma upload_page_state: "\<exists>n. fst (upload_handleSubmit 5 5 page_form (Some pdf_file) upload_state) = Uploaded n"
  by (simp add: upload_handleSubmit_def validateForm_def page_form_def pdf_file_def js_trim_def js_space_def
        upload_formdata_def s1_simps)

lemma upload_state_invs:
  "users_inv upload_state \<and> notes_inv upload_state \<and> counts_inv upload_state"
  by (simp add: s1_simps users_inv_def session_ok_def notes_inv_def counts_inv_def like_count_def)

section \<open>Invariants of every reachable state\<close>

text \<open>C1: in every state reachable by any operations (each reading a fresh clock),
  user ids and e-mails are unique and the session user of localStorage and of the
  React state agree and are a stored user, without the password.\<close>

theorem reachable_users_inv: "reachable allowed s \<Longrightarrow> Invariants.users_inv s"
  using reachable_invs by blast

text \<open>C2: in every reachable state note ids are unique and no user has liked the
  same note twice, whatever operations ran, \<open>updateNote\<close> included.\<close>

theorem reachable_notes_inv: "reachable allowed s \<Longrightarrow> Invariants.notes_inv s"
  using reachable_invs by blast

text \<open>C3: when every operation but \<open>updateNote\<close> may run, every stored note's
  \<open>likeCount\<close> equals the number of stored likes of its id.\<close>

theorem reachable_like_counts: "reachable ui_op s \<Longrightarrow> Invariants.counts_inv s"
  using reachable_ui_counts by blast

text \<open>C24: \<open>updateNote\<close>, which NotesProvider exports, breaks that consistency: a
  reachable run ends with a note whose counter says 7 likes and no stored like.\<close>

theorem updateNote_breaks_like_counts:
  "reachable (\<lambda>_. True) (run counter_run init_app) \<and> \<not> Invariants.counts_inv (run counter_run init_app)"
proof -
  have "\<not> counts_inv (run counter_run init_app)"
    by (simp add: counter_run_def scenario_simps counts_inv_def like_count_def)
  with counter_run_reachable show ?thesis by simp
qed

text \<open>C10: \<open>getLikedNotes\<close> leaks private notes in a reachable run: after its
  uploader makes a note private, the user who liked it still gets it, file included,
  from \<open>getLikedNotes\<close>, an exported operation of NotesProvider that no page of the
  repository calls yet.\<close>

theorem getLikedNotes_leak_reachable:
  "reachable ui_op (run leak_run init_app) \<and>
   (case fst (getLikedNotes (run leak_run init_app)) of Inl _ \<Rightarrow> False
    | Inr ns \<Rightarrow> list_ex (\<lambda>n. \<not> may_view (currentUser (run leak_run init_app)) n) ns)"
proof -
  have "case fst (getLikedNotes (run leak_run init_app)) of Inl _ \<Rightarrow> False
        | Inr ns \<Rightarrow> list_ex (\<lambda>n. \<not> may_view (currentUser (run leak_run init_app)) n) ns"
    by (simp add: leak_run_def scenario_simps getLikedNotes_def may_view_def js_sort_def getUserById_def)
  with leak_run_reachable show ?thesis by simp
qed

text \<open>C11: a stale tab acts for another user: after the interleaving \<open>stale_run\<close>
  tab 1 still shows A (id 1) as its logged-in user, the like it issued is stored for B
  (id 3), and the session invariant of a single tab fails in tab 1.\<close>

theorem tabs_stale_session:
  "reachable2 ui_op stale_tabs \<and> authUser (fst stale_tabs) = Some \<lparr>cu_id = 1, cu_name = ''A'', cu_email = ''a'', cu_createdAt = 1\<rparr> \<and>
   map userId (likes (fst stale_tabs)) = [3] \<and> \<not> Invariants.users_inv (fst stale_tabs)"
proof -
  have "authUser (fst stale_tabs) = Some \<lparr>cu_id = 1, cu_name = ''A'', cu_email = ''a'', cu_createdAt = 1\<rparr>"
    "map userId (likes (fst stale_tabs)) = [3]" "\<not> users_inv (fst stale_tabs)"
    by (simp_all add: stale_run_def tabs_simps users_inv_def session_ok_def)
  with stale_run_reachable show ?thesis by simp
qed

text \<open>C12: two tabs break the uniqueness of e-mails: \<open>updateProfile\<close> skips the
  check when the new e-mail equals the e-mail of its React user, which in a stale tab is
  no longer the stored one, so after \<open>email_run\<close> A and B share the e-mail a.\<close>

theorem tabs_duplicate_email:
  "reachable2 ui_op email_tabs \<and> map email (users (fst email_tabs)) = [''a'', ''a''] \<and>
   \<not> Invariants.users_inv (fst email_tabs)"
proof -
  have "map email (users (fst email_tabs)) = [''a'', ''a'']"
    by (simp add: email_run_def tabs_simps)
  then have "\<not> users_inv (fst email_tabs)" by (simp add: users_inv_def)
  with email_run_reachable \<open>map email _ = _\<close> show ?thesis by simp
qed

text \<open>C5: whatever operations ran, every stored user can still log in: the login
  with the stored e-mail and password is a step, succeeds, and makes that user, without
  the password, the logged-in user.\<close>

theorem login_always_possible:
  assumes "reachable allowed s" and "u \<in> set (users s)"
  shows "step (Login (email u) (password u)) s (snd (exec (Login (email u) (password u)) s)) \<and>
         fst (exec (Login (email u) (password u)) s) = None \<and>
         authUser (snd (exec (Login (email u) (password u)) s)) = Some (without_password u)"
proof -
  from reachable_invs [OF assms(1)] have d: "distinct (map email (users s))"
    by (simp add: users_inv_def)
  have "step (Login (email u) (password u)) s (snd (exec (Login (email u) (password u)) s))"
    by (rule exec_step) simp
  then show ?thesis using login_find [OF d assms(2), of "password u"]
    by (simp add: login_def err_of_def)
qed

section \<open>Witnesses\<close>



theorem fetchNotes_private_safe_witness:
  "case fst (fetchNotes 1 20 upload_state) of Inl _ \<Rightarrow> False
   | Inr ns \<Rightarrow> ns \<noteq> [] \<and> list_all (may_view (currentUser upload_state)) ns"
proof -
  obtain ns where ns: "fst (fetchNotes 1 20 upload_state) = Inr ns"
    by (simp add: fetchNotes_result)
  have "ns \<noteq> []" using ns by (auto simp: fetchNotes_result s1_simps listing_simps)
  with ns show ?thesis
    using Notes.fetchNotes_private_safe [OF ns] by (simp add: list_all_iff)
qed

theorem searchNotes_private_safe_witness:
  "case fst (searchNotes (searchbar_submit [] bar_initial) 1 20 upload_state) of Inl _ \<Rightarrow> False
   | Inr ns \<Rightarrow> ns \<noteq> [] \<and> list_all (may_view (currentUser upload_state)) ns"
proof -
  obtain ns where ns: "fst (searchNotes (searchbar_submit [] bar_initial) 1 20 upload_state) = Inr ns"
    by (simp add: searchNotes_result)
  have "ns \<noteq> []" using ns
    by (auto simp: searchNotes_result s1_simps listing_simps searchbar_submit_def bar_initial_def
          apply_search_filters_filter note_matches_def js_trim_def)
  with ns show ?thesis
    using Notes.searchNotes_private_safe [OF ns] by (simp add: list_all_iff)
qed

lemma getNoteById_upload_state: "\<exists>r. fst (getNoteById 2 upload_state) = Inr r"
  by (simp add: s1_simps getNoteById_def)

theorem getNoteById_private_safe_witness:
  "case fst (getNoteById 2 upload_state) of Inl _ \<Rightarrow> False
   | Inr r \<Rightarrow> may_view (currentUser upload_state) r \<and> note_id r = 2"
proof -
  obtain r where r: "fst (getNoteById 2 upload_state) = Inr r"
    using getNoteById_upload_state ..
  with Notes.getNoteById_private_safe [OF r] show ?thesis by simp
qed

theorem getNoteById_counts_view_witness:
  "sum_list (map viewCount (allNotes (snd (getNoteById 2 upload_state)))) =
   sum_list (map viewCount (allNotes upload_state)) + 1"
proof -
  obtain r where r: "fst (getNoteById 2 upload_state) = Inr r"
    using getNoteById_upload_state ..
  then show ?thesis by (rule Notes.getNoteById_counts_view)
qed

theorem downloadNote_authorized_witness:
  "\<exists>c n. currentUser upload_state = Some c \<and> n \<in> set (allNotes upload_state) \<and> note_id n = 2 \<and>
     ''data'' = filePath n \<and> ''t.pdf'' = ''t'' @ ''.pdf'' \<and> may_view (Some c) n"
  by (rule Notes.downloadNote_authorized [of 2 "''t''" upload_state "''data''" "''t.pdf''"])
     (simp add: s1_simps downloadNote_def)

theorem deleteNote_spec_witness:
  "\<exists>c n. currentUser upload_state = Some c \<and> n \<in> set (allNotes upload_state) \<and> note_id n = 2 \<and>
     uploadedBy n = cu_id c \<and>
     allNotes (snd (deleteNote 2 upload_state)) = remove1 n (allNotes upload_state) \<and>
     likes (snd (deleteNote 2 upload_state)) = filter (\<lambda>l. noteId l \<noteq> 2) (likes upload_state) \<and>
     users (snd (deleteNote 2 upload_state)) = users upload_state"
  by (rule Notes.deleteNote_spec) (simp add: s1_simps deleteNote_def)

theorem like_unlike_roundtrip_witness:
  "snd (unlikeNote 2 (snd (likeNote 5 5 2 upload_state))) = upload_state"
  by (rule Notes.like_unlike_roundtrip [where c = userB]) (simp_all add: s1_simps)

theorem toggleNotePrivacy_twice_witness:
  "(\<exists>c n. currentUser upload_state = Some c \<and> n \<in> set (allNotes upload_state) \<and> note_id n = 2 \<and>
          uploadedBy n = cu_id c \<and> True = (\<not> isPrivate n)) \<and>
   snd (toggleNotePrivacy 2 (snd (toggleNotePrivacy 2 upload_state))) = upload_state"
  by (rule Notes.toggleNotePrivacy_twice) (simp add: s1_simps)

theorem likeNote_missing_note_witness:
  "fst (likeNote 5 5 99 upload_state) = Inr () \<and>
   likes (snd (likeNote 5 5 99 upload_state)) =
     likes upload_state @ [\<lparr>like_id = 5, userId = cu_id userB, noteId = 99, likedAt = 5\<rparr>] \<and>
   allNotes (snd (likeNote 5 5 99 upload_state)) = allNotes upload_state"
  by (rule Notes.likeNote_missing_note) (simp_all add: s1_simps)

theorem getLikedNotes_lists_liked_witness:
  "\<exists>ns. fst (getLikedNotes leak_state) = Inr ns \<and> hd (allNotes leak_state) \<in> stored_note ` set ns"
  by (rule Notes.getLikedNotes_lists_liked [where c = userA]) (simp_all add: leak_run_def scenario_simps)

theorem updateNote_overwrites_counters_witness:
  "\<exists>k. k < length (allNotes upload_state) \<and> note_id (allNotes upload_state ! k) = 2 \<and>
     (let n = allNotes upload_state ! k;
          n' = allNotes (snd (updateNote 2 (no_patch\<lparr>upd_likeCount := Some 7\<rparr>) upload_state)) ! k
      in note_id n' = note_id n \<and> uploadedBy n' = uploadedBy n \<and> uploadedAt n' = uploadedAt n \<and>
         likeCount n' = (case upd_likeCount (no_patch\<lparr>upd_likeCount := Some 7\<rparr>) of None \<Rightarrow> likeCount n | Some v \<Rightarrow> v) \<and>
         downloads n' = (case upd_downloads (no_patch\<lparr>upd_likeCount := Some 7\<rparr>) of None \<Rightarrow> downloads n | Some v \<Rightarrow> v) \<and>
         viewCount n' = (case upd_viewCount (no_patch\<lparr>upd_likeCount := Some 7\<rparr>) of None \<Rightarrow> viewCount n | Some v \<Rightarrow> v))"
  by (rule Notes.updateNote_overwrites_counters) (simp add: s1_simps)

theorem register_login_roundtrip_witness:
  "login ''a'' ''pa'' (snd (register 3 3 ''A'' ''a'' ''pa'' upload_state)) =
   (Inr (), snd (register 3 3 ''A'' ''a'' ''pa'' upload_state))"
  by (rule Auth.register_login_roundtrip) (simp add: s1_simps)

theorem login_correct_witness:
  "fst (login ''b'' ''pb'' upload_state) = Inr () \<and>
   currentUser (snd (login ''b'' ''pb'' upload_state)) = Some userB \<and>
   fst (login ''b'' ''wrong'' upload_state) \<noteq> Inr ()"
proof -
  have u: "distinct (map email (users upload_state))" "hd (users upload_state) \<in> set (users upload_state)"
    by (simp_all add: s1_simps)
  have "email (hd (users upload_state)) = ''b''" "password (hd (users upload_state)) = ''pb''"
    "without_password (hd (users upload_state)) = userB"
    by (simp_all add: s1_simps)
  with Auth.login_correct [OF u, of "''pb''"] Auth.login_correct [OF u, of "''wrong''"]
  show ?thesis by simp
qed

theorem changePassword_login_witness:
  "\<exists>u\<in>set (users upload_state). password u = ''pb'' \<and>
     fst (login (email u) ''pc'' (snd (changePassword ''pb'' ''pc'' upload_state))) = Inr () \<and>
     fst (login (email u) ''pb'' (snd (changePassword ''pb'' ''pc'' upload_state))) = Inl InvalidCredentials"
  by (rule Auth.changePassword_login) (simp_all add: s1_simps changePassword_def)

theorem deleteAccount_spec_witness:
  "\<exists>c u. authUser upload_state = Some c \<and> u \<in> set (users upload_state) \<and> user_id u = cu_id c \<and>
     password u = ''pb'' \<and>
     allNotes (snd (deleteAccount ''pb'' upload_state)) = filter (\<lambda>n. uploadedBy n \<noteq> cu_id c) (allNotes upload_state) \<and>
     users (snd (deleteAccount ''pb'' upload_state)) = remove1 u (users upload_state) \<and>
     currentUser (snd (deleteAccount ''pb'' upload_state)) = None \<and>
     authUser (snd (deleteAccount ''pb'' upload_state)) = None \<and>
     likes (snd (deleteAccount ''pb'' upload_state)) = likes upload_state"
  by (rule Auth.deleteAccount_spec) (simp add: s1_simps deleteAccount_def)

theorem exec_error_frame_witness:
  "fst (exec (DeleteNote 5) init_app) = Some NotAuthenticated \<and> snd (exec (DeleteNote 5) init_app) = init_app"
proof -
  have e: "fst (exec (DeleteNote 5) init_app) = Some NotAuthenticated"
    by (simp add: init_app_def deleteNote_def err_of_def)
  with App.exec_error_frame [OF e] show ?thesis by simp
qed

theorem reachable_users_inv_witness: "Invariants.users_inv (run leak_run init_app)"
  by (rule reachable_users_inv [OF leak_run_reachable])

theorem reachable_notes_inv_witness: "Invariants.notes_inv (run counter_run init_app)"
  by (rule reachable_notes_inv [OF counter_run_reachable])

theorem reachable_like_counts_witness: "Invariants.counts_inv (run leak_run init_app)"
  by (rule reachable_like_counts [OF leak_run_reachable])

theorem upload_handleSubmit_stores_witness:
  "case fst (upload_handleSubmit 5 5 page_form (Some pdf_file) upload_state) of
     Uploaded n \<Rightarrow> title n = ''Linear Algebra'' \<and> isPrivate n \<and> fileName n = ''la.pdf''
   | _ \<Rightarrow> False"
proof -
  obtain n where n: "fst (upload_handleSubmit 5 5 page_form (Some pdf_file) upload_state) = Uploaded n"
    using upload_page_state ..
  from UploadPage.upload_handleSubmit_stores [OF n] n show ?thesis
    by (auto simp: page_form_def pdf_file_def js_trim_def js_space_def)
qed

theorem card_handleLike_refines_witness:
  "card_view userB 2 (snd (card_handleLike 5 5 (with_user_info (users upload_state) (hd (allNotes upload_state)))
       \<lparr>c_isLiked = False, c_likeCount = 0, c_isPrivate = False\<rparr> upload_state)) =
   Some (snd (fst (card_handleLike 5 5 (with_user_info (users upload_state) (hd (allNotes upload_state)))
       \<lparr>c_isLiked = False, c_likeCount = 0, c_isPrivate = False\<rparr> upload_state)))"
proof -
  have n: "note_id (with_user_info (users upload_state) (hd (allNotes upload_state))) = 2"
    by (simp add: s1_simps)
  have "card_view userB (note_id (with_user_info (users upload_state) (hd (allNotes upload_state))))
          (snd (card_handleLike 5 5 (with_user_info (users upload_state) (hd (allNotes upload_state)))
            \<lparr>c_isLiked = False, c_likeCount = 0, c_isPrivate = False\<rparr> upload_state)) =
        Some (snd (fst (card_handleLike 5 5 (with_user_info (users upload_state) (hd (allNotes upload_state)))
            \<lparr>c_isLiked = False, c_likeCount = 0, c_isPrivate = False\<rparr> upload_state)))"
    using upload_state_invs
    by (intro Pages.card_handleLike_refines) (simp_all add: s1_simps card_view_def)
  then show ?thesis by (simp only: n)
qed

theorem card_fresh_liked_stuck_witness:
  "card_handleLike 6 6 (with_user_info (users liked_state) (hd (allNotes liked_state)))
     (card_init (with_user_info (users liked_state) (hd (allNotes liked_state)))) liked_state =
   ((Stay, card_init (with_user_info (users liked_state) (hd (allNotes liked_state)))), liked_state)"
  by (rule Pages.card_fresh_liked_stuck [where c = userA]) (simp_all add: leak_run_def scenario_simps)

theorem notesList_sort_only_ignored_witness:
  "snd (notesList_handleSearch (searchbar_submit [] (bar_initial\<lparr>b_sortBy := ''downloads'', b_sortOrder := ''ASC''\<rparr>))
     notes_list_init upload_state) = snd (fetchNotes 1 20 upload_state)"
  by (rule Pages.notesList_sort_only_ignored) (simp_all add: bar_initial_def)

theorem tabs_store_invs_witness:
  "same_store (fst stale_tabs) (snd stale_tabs) \<and> Invariants.notes_inv (fst stale_tabs) \<and>
   Invariants.counts_inv (fst stale_tabs)"
  by (rule Tabs.tabs_store_invs [OF stale_run_reachable])

theorem login_always_possible_witness:
  "step (Login ''b'' ''pb'') leak_state (snd (exec (Login ''b'' ''pb'') leak_state)) \<and>
   fst (exec (Login ''b'' ''pb'') leak_state) = None \<and>
   authUser (snd (exec (Login ''b'' ''pb'') leak_state)) = Some userB"
proof -
  have u: "hd (users leak_state) \<in> set (users leak_state)"
    and e: "email (hd (users leak_state)) = ''b''" "password (hd (users leak_state)) = ''pb''"
      "without_password (hd (users leak_state)) = userB"
    by (simp_all add: leak_run_def scenario_simps)
  from login_always_possible [OF leak_run_reachable u] e show ?thesis by simp
qed

theorem profile_handleDelete_gone_witness:
  "2 \<notin> note_id ` set (shown (profile_handleDelete 2 upload_state))"
  by (rule Pages.profile_handleDelete_gone [where c = userB]) (simp_all add: s1_simps notes_inv_def)
theorem card_delete_button_works_witness:
  "fst (deleteNote (note_id note2) upload_state) = Inr () \<and>
   note_id note2 \<notin> note_id ` set (allNotes (card_handleDelete True notesList_handleDelete note2 upload_state))"
proof -
  have inv: "users_inv upload_state" "notes_inv upload_state" using upload_state_invs by simp_all
  have "Btn ''Delete'' \<in> set (card_render upload_state note2 (card_init note2))"
    and "hd (allNotes upload_state) \<in> set (allNotes upload_state)"
    by (simp_all add: s1_simps card_render_def card_isOwner_def isAuthenticated_def)
  from Views.card_delete_button_works [OF inv this(1) this(2)] show ?thesis by simp
qed

theorem details_load_shows_store_witness:
  "fst (fst (details_loadNote 2 details0 upload_state)) = Stay \<and>
   (Badge ''Private'' \<in> set (details_render (snd (details_loadNote 2 details0 upload_state))
      (snd (fst (details_loadNote 2 details0 upload_state)))) \<longleftrightarrow> isPrivate (hd (allNotes upload_state))) \<and>
   (Btn ''Delete'' \<in> set (details_render (snd (details_loadNote 2 details0 upload_state))
      (snd (fst (details_loadNote 2 details0 upload_state)))) \<longleftrightarrow>
      (\<exists>u. authUser upload_state = Some u \<and> cu_id u = uploadedBy (hd (allNotes upload_state))))"
proof -
  obtain r where r: "fst (getNoteById 2 upload_state) = Inr r" using getNoteById_upload_state ..
  have "notes_inv upload_state" using upload_state_invs by simp
  moreover have "hd (allNotes upload_state) \<in> set (allNotes upload_state)"
    "note_id (hd (allNotes upload_state)) = 2"
    by (simp_all add: s1_simps)
  ultimately show ?thesis using Views.details_load_shows_store [OF _ _ _ r] by blast
qed

theorem profile_cards_own_witness:
  "\<exists>m\<in>set (allNotes (snd (profile_events [TogglePasswordForm] (profile_mount upload_state)))).
     uploadedBy m = 1 \<and> note_id m = 2"
proof -
  have "CardOf 2 \<in> set (profile_render (snd (profile_events [TogglePasswordForm] (profile_mount upload_state)))
                        (fst (profile_events [TogglePasswordForm] (profile_mount upload_state))))"
    by (simp add: s1_simps profile_mount_def getMyNotes_def listing_simps profile_render_def
        profile_loadProfile_def profile_page_init_def note_obj.defs note_info.defs)
  from ProfilePage.profile_cards_own [where c = userB, OF _ this] show ?thesis by (simp add: s1_simps)
qed

theorem upload_page_pdf_only_witness:
  "\<exists>n. fst (upload_handleSubmit 5 5 (u_form (fst upload_st)) (u_file (fst upload_st)) (snd upload_st)) = Uploaded n \<and>
     (\<exists>f :: file_obj. fileName n = f_name f \<and> filePath n = f_data f \<and>
        sublist ''pdf'' (f_type f) \<and> f_size f \<le> defaultMaxSize)"
proof -
  have "\<exists>n. fst (upload_handleSubmit 5 5 (u_form (fst upload_st)) (u_file (fst upload_st)) (snd upload_st)) = Uploaded n"
    by (simp add: upload_es_def upload_view_init_def picker_init_def upload_page_init_def upload_handleChange_def
        picker_handleFile_def handleFile_def validateFile_def defaultMaxSize_def upload_handleFileSelect_def
        pdf_file_def upload_handleSubmit_def validateForm_def js_trim_def js_space_def upload_formdata_def
        s1_simps)
  then obtain n where n: "fst (upload_handleSubmit 5 5 (u_form (fst upload_st)) (u_file (fst upload_st)) (snd upload_st)) = Uploaded n" ..
  have "upload_events upload_es (upload_view_init, upload_state) = (fst upload_st, snd upload_st)" by simp
  from UploadPage.upload_page_pdf_only [OF this n] n show ?thesis by blast
qed

theorem notesList_cards_visible_witness:
  "\<exists>m\<in>set (allNotes (snd (list_events [NLPage 1] (notesList_mount upload_state)))).
     note_id m = 2 \<and> visible (currentUser (snd (list_events [NLPage 1] (notesList_mount upload_state)))) m"
proof -
  have "CardOf 2 \<in> set (notesList_render (snd (list_events [NLPage 1] (notesList_mount upload_state)))
                        (fst (list_events [NLPage 1] (notesList_mount upload_state))))"
    by (simp add: s1_simps notesList_mount_def notesList_load_def notesList_handlePageChange_def notes_list_init_def
        fetchNotes_def listing_simps notesList_render_def visible_def with_user_info_def note_obj.defs note_info.defs)
  from ListPage.notesList_cards_visible [OF this] show ?thesis .
qed

theorem upload_submit_shows_errors_witness:
  "Alert (field_message ETitle) \<in> set (upload_render (fst (upload_event_step (SubmitForm 5 5) (upload_view_init, upload_state)))) \<and>
   snd (upload_event_step (SubmitForm 5 5) (upload_view_init, upload_state)) = upload_state"
proof -
  have v: "ETitle \<in> set (validateForm (u_form upload_view_init) (u_file upload_view_init))"
    "validateForm (u_form upload_view_init) (u_file upload_view_init) \<noteq> []"
    by (simp_all add: upload_view_init_def upload_page_init_def validateForm_def)
  from UploadView.upload_submit_shows_errors [of ETitle 5 5 upload_view_init upload_state] v
  show ?thesis by simp
qed

end
